(* ===== verification/Seat_Prelude.thy ===== *)
theory Seat_Prelude
  imports Main "HOL-Library.Word"
begin

text \<open>
  Shared vocabulary of the seat service development: the fixed-width integers of the C and C++
  sources and their conversions, \<open>getenv\<close>/\<open>atoi\<close> as the sources use them, the error numbers
  the code compares with, and the generic lemmas the component theories rest on. The collections
  \<open>ctl_defs\<close> (unfolding the operations of a component), \<open>frame_simps\<close> (what an operation leaves
  unchanged) and \<open>inv_intros\<close> (preservation of an invariant) are filled by the components.
\<close>

unbundle bit_operations_syntax

named_theorems ctl_defs
named_theorems frame_simps
named_theorems inv_intros

section \<open>Machine integers\<close>

type_synonym u8 = "8 word"
type_synonym u32 = "32 word"

text \<open>Implicit conversion to a 32 bit signed \<open>int\<close> (two's complement, as gcc and clang define it).\<close>

definition to_int32 :: "int \<Rightarrow> int" where
  "to_int32 x = signed_take_bit 31 x"

text \<open>Implicit conversion of an \<open>int\<close> to \<open>uint8_t\<close>.\<close>

definition to_u8 :: "int \<Rightarrow> u8" where
  "to_u8 x = word_of_int x"

definition int32_range :: "int \<Rightarrow> bool" where
  "int32_range x \<longleftrightarrow> - (2 ^ 31) \<le> x \<and> x < 2 ^ 31"

lemma to_int32_id [simp]: "int32_range x \<Longrightarrow> to_int32 x = x"
  by (simp add: to_int32_def int32_range_def signed_take_bit_int_eq_self)

lemma to_int32_range [simp]: "int32_range (to_int32 x)"
  using signed_take_bit_int_greater_eq_minus_exp [of 31 x] signed_take_bit_int_less_exp [of 31 x]
  by (simp add: to_int32_def int32_range_def)

lemma uint_to_u8: "uint (to_u8 x) = x mod 256"
  by (simp add: to_u8_def uint_word_of_int)

lemma uint_to_u8_id [simp]: "0 \<le> x \<Longrightarrow> x < 256 \<Longrightarrow> uint (to_u8 x) = x"
  by (simp add: uint_to_u8)

lemma to_u8_uint [simp]: "to_u8 (uint x) = x"
  by (simp add: to_u8_def)

lemma to_u8_eq_iff: "0 \<le> x \<Longrightarrow> x < 256 \<Longrightarrow> to_u8 x = w \<longleftrightarrow> x = uint w"
  by (metis uint_to_u8_id to_u8_uint)

lemma u8_le_iff: "(w :: u8) \<le> v \<longleftrightarrow> uint w \<le> uint v"
  by (simp add: word_le_def)

lemma u8_less_iff: "(w :: u8) < v \<longleftrightarrow> uint w < uint v"
  by (simp add: word_less_def)

lemma u8_eq_iff: "(w :: u8) = v \<longleftrightarrow> uint w = uint v"
  by (simp add: word_uint_eq_iff)

lemma u8_bounds [simp]: "0 \<le> uint (w :: u8)" "uint (w :: u8) < 256"
  using uint_lt2p [of w] by auto

lemma u8_mask2_le: "(w :: u8) AND 3 \<le> 3"
  by (rule word_and_le1)

section \<open>The C standard library, as far as the sources use it\<close>

type_synonym environ = "string \<Rightarrow> string option"

definition EINTR :: int where "EINTR = 4"
definition EAGAIN :: int where "EAGAIN = 11"
definition ENODEV :: int where "ENODEV = 19"
definition EINVAL :: int where "EINVAL = 22"
definition ENOTSOCK :: int where "ENOTSOCK = 88"
definition ENETDOWN :: int where "ENETDOWN = 100"
definition ENOBUFS :: int where "ENOBUFS = 105"

lemmas errno_defs = EINTR_def EAGAIN_def ENODEV_def EINVAL_def ENOTSOCK_def ENETDOWN_def ENOBUFS_def

definition is_c_space :: "char \<Rightarrow> bool" where
  "is_c_space c \<longleftrightarrow> of_char c = (32 :: nat) \<or> (9 \<le> (of_char c :: nat) \<and> (of_char c :: nat) \<le> 13)"

definition is_c_digit :: "char \<Rightarrow> bool" where
  "is_c_digit c \<longleftrightarrow> 48 \<le> (of_char c :: nat) \<and> (of_char c :: nat) \<le> 57"

fun digits_value :: "string \<Rightarrow> int \<Rightarrow> int" where
  "digits_value [] acc = acc"
| "digits_value (c # cs) acc =
     (if is_c_digit c then digits_value cs (10 * acc + (int (of_char c) - 48)) else acc)"

text \<open>\<open>strtol(s, NULL, 10)\<close>: leading white space, an optional sign, the longest run of digits, and
  saturation at the bounds of a 64 bit \<open>long\<close>. \<open>atoi(s)\<close> is its value converted to \<open>int\<close>.\<close>

definition strtol10 :: "string \<Rightarrow> int" where
  "strtol10 s =
     (let t = dropWhile is_c_space s;
          v = (case t of
                 [] \<Rightarrow> 0
               | c # cs \<Rightarrow>
                   if c = CHR ''-'' then - digits_value cs 0
                   else if c = CHR ''+'' then digits_value cs 0
                   else digits_value t 0)
      in max (- (2 ^ 63)) (min (2 ^ 63 - 1) v))"

definition atoi :: "string \<Rightarrow> int" where
  "atoi s = to_int32 (strtol10 s)"

lemma atoi_range [simp]: "int32_range (atoi s)"
  by (simp add: atoi_def)

section \<open>Clock arithmetic\<close>

lemma us_as_ms:
  fixes x :: int
  shows "x div 1000000 * 1000 + x mod 1000000 div 1000 = x div 1000"
proof -
  have "x div 1000 = (x mod 1000000 + x div 1000000 * 1000 * 1000) div 1000"
    using mod_div_mult_eq [of x 1000000] by simp
  also have "\<dots> = x div 1000000 * 1000 + x mod 1000000 div 1000"
    by (subst div_mult_self1) simp_all
  finally show ?thesis by simp
qed

lemma div_add_ge: "0 < k \<Longrightarrow> (x :: int) div k + n div k \<le> (x + n) div k"
  by (simp add: div_add1_eq [of x n k] pos_imp_zdiv_nonneg_iff)

end
