(* ===== verification/Kuksa_Client.thy ===== *)
theory Kuksa_Client
  imports Seat_Prelude
begin

text \<open>
  \<open>kuksa_client.h\<close> and \<open>kuksa_client.cc\<close>: the gRPC status codes and their names, the lookup of
  environment variables, and the client object with its connection flag, its call metadata and the
  address it connects to. The generated stubs behind the client are parameters of its users.
\<close>

section \<open>Status codes\<close>

text \<open>\<open>grpc::StatusCode\<close> is an unscoped enumeration: a code is any int, the names are those of gRPC.\<close>

definition STATUS_OK :: int where "STATUS_OK = 0"
definition STATUS_CANCELLED :: int where "STATUS_CANCELLED = 1"
definition STATUS_UNKNOWN :: int where "STATUS_UNKNOWN = 2"
definition STATUS_INVALID_ARGUMENT :: int where "STATUS_INVALID_ARGUMENT = 3"
definition STATUS_DEADLINE_EXCEEDED :: int where "STATUS_DEADLINE_EXCEEDED = 4"
definition STATUS_NOT_FOUND :: int where "STATUS_NOT_FOUND = 5"
definition STATUS_ALREADY_EXISTS :: int where "STATUS_ALREADY_EXISTS = 6"
definition STATUS_PERMISSION_DENIED :: int where "STATUS_PERMISSION_DENIED = 7"
definition STATUS_RESOURCE_EXHAUSTED :: int where "STATUS_RESOURCE_EXHAUSTED = 8"
definition STATUS_FAILED_PRECONDITION :: int where "STATUS_FAILED_PRECONDITION = 9"
definition STATUS_ABORTED :: int where "STATUS_ABORTED = 10"
definition STATUS_OUT_OF_RANGE :: int where "STATUS_OUT_OF_RANGE = 11"
definition STATUS_UNIMPLEMENTED :: int where "STATUS_UNIMPLEMENTED = 12"
definition STATUS_INTERNAL :: int where "STATUS_INTERNAL = 13"
definition STATUS_UNAVAILABLE :: int where "STATUS_UNAVAILABLE = 14"
definition STATUS_DATA_LOSS :: int where "STATUS_DATA_LOSS = 15"
definition STATUS_UNAUTHENTICATED :: int where "STATUS_UNAUTHENTICATED = 16"

lemmas STATUS_defs = STATUS_OK_def STATUS_CANCELLED_def STATUS_UNKNOWN_def STATUS_INVALID_ARGUMENT_def
  STATUS_DEADLINE_EXCEEDED_def STATUS_NOT_FOUND_def STATUS_ALREADY_EXISTS_def STATUS_PERMISSION_DENIED_def
  STATUS_RESOURCE_EXHAUSTED_def STATUS_FAILED_PRECONDITION_def STATUS_ABORTED_def STATUS_OUT_OF_RANGE_def
  STATUS_UNIMPLEMENTED_def STATUS_INTERNAL_def STATUS_UNAVAILABLE_def STATUS_DATA_LOSS_def
  STATUS_UNAUTHENTICATED_def

record grpc_status =
  error_code :: int
  error_message :: string
  error_details :: string

definition grpc_OK :: grpc_status where
  "grpc_OK = \<lparr> error_code = STATUS_OK, error_message = [], error_details = [] \<rparr>"

definition mk_status :: "int \<Rightarrow> string \<Rightarrow> grpc_status" where
  "mk_status code msg = \<lparr> error_code = code, error_message = msg, error_details = [] \<rparr>"

definition status_ok :: "grpc_status \<Rightarrow> bool" where
  "status_ok st \<longleftrightarrow> error_code st = STATUS_OK"

section \<open>Printing\<close>

text \<open>\<open>std::to_string(int)\<close>.\<close>

fun nat_string :: "nat \<Rightarrow> string" where
  "nat_string n = (if n < 10 then [char_of (48 + n)] else nat_string (n div 10) @ [char_of (48 + n mod 10)])"

declare nat_string.simps [simp del]

definition to_string :: "int \<Rightarrow> string" where
  "to_string i = (if i < 0 then ''-'' @ nat_string (nat (- i)) else nat_string (nat i))"

definition toString_StatusCode :: "int \<Rightarrow> string" where
  "toString_StatusCode code =
     (if code = STATUS_OK then ''OK''
      else if code = STATUS_CANCELLED then ''CANCELLED''
      else if code = STATUS_UNKNOWN then ''UNKNOWN''
      else if code = STATUS_INVALID_ARGUMENT then ''INVALID_ARGUMENT''
      else if code = STATUS_DEADLINE_EXCEEDED then ''DEADLINE_EXCEEDED''
      else if code = STATUS_NOT_FOUND then ''NOT_FOUND''
      else if code = STATUS_ALREADY_EXISTS then ''ALREADY_EXISTS''
      else if code = STATUS_PERMISSION_DENIED then ''PERMISSION_DENIED''
      else if code = STATUS_UNAUTHENTICATED then ''UNAUTHENTICATED''
      else if code = STATUS_RESOURCE_EXHAUSTED then ''RESOURCE_EXHAUSTED''
      else if code = STATUS_FAILED_PRECONDITION then ''FAILED_PRECONDITION''
      else if code = STATUS_ABORTED then ''ABORTED''
      else if code = STATUS_OUT_OF_RANGE then ''OUT_OF_RANGE''
      else if code = STATUS_UNIMPLEMENTED then ''UNIMPLEMENTED''
      else if code = STATUS_INTERNAL then ''INTERNAL''
      else if code = STATUS_UNAVAILABLE then ''UNAVAILABLE''
      else if code = STATUS_DATA_LOSS then ''DATA_LOSS''
      else ''<Invalid:'' @ to_string code @ ''>'')"

definition toString_connectivity :: "int \<Rightarrow> string" where
  "toString_connectivity state =
     (if state = 0 then ''IDLE'' else if state = 1 then ''CONNECTING'' else if state = 2 then ''READY''
      else if state = 3 then ''TRANSIENT_FAILURE'' else if state = 4 then ''SHUTDOWN''
      else ''<InvalidState>'')"

definition toString_Status :: "grpc_status \<Rightarrow> string" where
  "toString_Status st =
     ''grpcStatus{'' @ toString_StatusCode (error_code st) @
     (if error_code st \<noteq> STATUS_OK then '', code:'' @ to_string (error_code st) else []) @
     (if error_message st \<noteq> [] then '', '' @ [CHR 0x27] @ error_message st @ [CHR 0x27] else []) @
     (if error_details st \<noteq> [] then '', details:'' @ [CHR 0x27] @ error_details st @ [CHR 0x27] else []) @
     ''}''"

section \<open>The client\<close>

definition getEnvVar :: "environ \<Rightarrow> string \<Rightarrow> string \<Rightarrow> string" where
  "getEnvVar env name defaultValue = (case env name of Some v \<Rightarrow> v | None \<Rightarrow> defaultValue)"

text \<open>\<open>std::string::find_last_of\<close> and \<open>substr\<close>, on \<open>size_type\<close>; \<open>npos\<close> is the largest value.\<close>

type_synonym size_type = "64 word"

definition npos :: size_type where "npos = -1"

definition find_last_of :: "string \<Rightarrow> char \<Rightarrow> size_type" where
  "find_last_of s c =
     (if c \<in> set s then of_nat (length s - 1 - length (takeWhile (\<lambda>x. x \<noteq> c) (rev s))) else npos)"

definition substr0 :: "string \<Rightarrow> size_type \<Rightarrow> string" where
  "substr0 s n = take (unat n) s"

definition changeToDaprPortIfSet :: "environ \<Rightarrow> string \<Rightarrow> string" where
  "changeToDaprPortIfSet env broker_addr =
     (let dapr_port = getEnvVar env ''DAPR_GRPC_PORT'' []
      in if dapr_port \<noteq> [] then
           let colon_pos = find_last_of broker_addr (CHR '':'')
           in substr0 broker_addr (colon_pos + 1) @ dapr_port
         else broker_addr)"

type_synonym GrpcMetadata = "(string \<times> string) list"

definition getGrpcMetadata :: "environ \<Rightarrow> GrpcMetadata" where
  "getGrpcMetadata env =
     (let dapr_app_id = getEnvVar env ''VEHICLEDATABROKER_DAPR_APP_ID'' []
      in if dapr_app_id \<noteq> [] then [(''dapr-app-id'', dapr_app_id)] else [])"

record KuksaClient =
  metadata_map :: GrpcMetadata
  channel_target :: string
  connected :: bool
  broker_addr :: string

definition KuksaClient_new :: "environ \<Rightarrow> string \<Rightarrow> KuksaClient" where
  "KuksaClient_new env addr =
     \<lparr> metadata_map = getGrpcMetadata env, channel_target = changeToDaprPortIfSet env addr,
       connected = False, broker_addr = addr \<rparr>"

text \<open>The channel's answer is the argument; the object keeps it.\<close>

definition WaitForConnected :: "bool \<Rightarrow> KuksaClient \<Rightarrow> bool \<times> KuksaClient" where
  "WaitForConnected answer c = (answer, c\<lparr>connected := answer\<rparr>)"

definition SetDisconnected :: "KuksaClient \<Rightarrow> KuksaClient" where
  "SetDisconnected c = c\<lparr>connected := False\<rparr>"

definition createClientContext :: "KuksaClient \<Rightarrow> GrpcMetadata" where
  "createClientContext c = metadata_map c"

section \<open>The address\<close>

lemma takeWhile_until: "c \<notin> set ys \<Longrightarrow> takeWhile (\<lambda>x. x \<noteq> c) (ys @ c # zs) = ys"
  by (induction ys) auto

lemma takeWhile_rev_append: "c \<notin> set q \<Longrightarrow> takeWhile (\<lambda>x. x \<noteq> c) (rev (p @ c # q)) = rev q"
  by (simp add: takeWhile_until)

lemma find_last_of_append:
  assumes "c \<notin> set q"
  shows "find_last_of (p @ c # q) c = of_nat (length p)"
  using assms by (simp add: find_last_of_def takeWhile_rev_append del: rev_append)

lemma substr0_host:
  assumes "length (p @ c # q) < 2 ^ 64"
  shows "substr0 (p @ c # q) (of_nat (length p) + 1) = p @ [c]"
proof -
  have "unat (of_nat (Suc (length p)) :: size_type) = Suc (length p)"
    by (rule of_nat_inverse [OF refl]) (use assms in simp)
  then show ?thesis by (simp add: substr0_def add.commute)
qed

text \<open>With \<open>DAPR_GRPC_PORT\<close> set, the port of an address \<open>host:port\<close> is exchanged and the host kept; an address
  without a colon loses its host, because \<open>npos + 1\<close> wraps around to 0.\<close>

lemma dapr_port_exchange:
  assumes "env ''DAPR_GRPC_PORT'' = Some dapr" and "dapr \<noteq> []" and "CHR '':'' \<notin> set port"
    and "length (host @ CHR '':'' # port) < 2 ^ 64"
  shows "channel_target (KuksaClient_new env (host @ '':'' @ port)) = host @ '':'' @ dapr \<and>
    channel_target (KuksaClient_new env port) = dapr"
proof -
  have "find_last_of port (CHR '':'') + 1 = 0" using assms(3) by (simp add: find_last_of_def npos_def)
  then show ?thesis
    using assms
    by (simp add: KuksaClient_new_def changeToDaprPortIfSet_def getEnvVar_def find_last_of_append substr0_host Let_def)
       (simp add: substr0_def)
qed

end
