(* ===== verification/Mock_Engine.thy ===== *)
theory Mock_Engine
  imports Complex_Main Kuksa_Client
begin

text \<open>
  The engine of the mock service (\<open>mock_service/lib\<close>, Python): datapoints, triggers, animators, actions, behaviors and their executor.
  Triggers, actions and datapoints are mutable objects that several behaviors may share, so they live in a store and are referred to by
  number. A Python exception is the left side of a sum and keeps the changes made before it. Numbers are exact rationals; the client of the
  data broker (\<open>kuksa_client\<close>) and the interpolation of numpy and scipy are parameters.
\<close>

section \<open>Python values, exceptions and loops\<close>

datatype pyvalue = PNone | PBool bool | PNum rat | PStr string

fun py_num :: "pyvalue \<Rightarrow> rat option" where
  "py_num (PBool b) = Some (of_bool b)"
| "py_num (PNum x) = Some x"
| "py_num _ = None"

text \<open>The operator \<open>==\<close>: numbers and truth values compare by value.\<close>

fun py_eq :: "pyvalue \<Rightarrow> pyvalue \<Rightarrow> bool" where
  "py_eq PNone v \<longleftrightarrow> v = PNone"
| "py_eq (PStr s) v \<longleftrightarrow> v = PStr s"
| "py_eq (PBool b) v \<longleftrightarrow> py_num v = Some (of_bool b)"
| "py_eq (PNum x) v \<longleftrightarrow> py_num v = Some x"

lemma py_eq_refl [simp]: "py_eq v v"
  by (cases v) simp_all

lemma py_eq_sym: "py_eq v w \<Longrightarrow> py_eq w v"
  by (cases v; cases w) auto

lemma py_eq_trans: "py_eq u v \<Longrightarrow> py_eq v w \<Longrightarrow> py_eq u w"
  by (cases u; cases v; cases w) auto

datatype py_error = RpcError int | ClientError | ValueError | IndexError | AttributeError | TypeError | KeyError

type_synonym 'a result = "py_error + 'a"
type_synonym path = string

text \<open>One statement after another: an exception ends the sequence. \<open>for_each\<close> is a \<open>for\<close> loop without \<open>break\<close>.\<close>

definition bind_py :: "('s \<Rightarrow> 'a result \<times> 's) \<Rightarrow> ('a \<Rightarrow> 's \<Rightarrow> 'b result \<times> 's) \<Rightarrow> 's \<Rightarrow> 'b result \<times> 's" where
  "bind_py m f s = (case m s of (Inl e, t) \<Rightarrow> (Inl e, t) | (Inr x, t) \<Rightarrow> f x t)"

fun for_each :: "('a \<Rightarrow> 's \<Rightarrow> unit result \<times> 's) \<Rightarrow> 'a list \<Rightarrow> 's \<Rightarrow> unit result \<times> 's" where
  "for_each f [] s = (Inr (), s)"
| "for_each f (x # xs) s = bind_py (f x) (\<lambda>_. for_each f xs) s"

text \<open>\<open>list.remove(x)\<close>: the first element equal to \<open>x\<close>.\<close>

fun py_remove :: "('a \<Rightarrow> bool) \<Rightarrow> 'a list \<Rightarrow> 'a list" where
  "py_remove eq [] = []"
| "py_remove eq (y # ys) = (if eq y then ys else y # py_remove eq ys)"

section \<open>Events and data types\<close>

datatype EventType = ACTUATOR_TARGET | VALUE

fun EventType_value :: "EventType \<Rightarrow> string" where
  "EventType_value ACTUATOR_TARGET = ''actuator_target''"
| "EventType_value VALUE = ''value''"

record Event =
  ev_name :: string
  ev_path :: path
  ev_value :: pyvalue

definition event_eq :: "Event \<Rightarrow> Event \<Rightarrow> bool" where
  "event_eq e f \<longleftrightarrow> ev_name e = ev_name f \<and> ev_path e = ev_path f \<and> py_eq (ev_value e) (ev_value f)"

lemma event_eq_refl [simp]: "event_eq e e"
  by (simp add: event_eq_def)

text \<open>The type \<open>DataType\<close> of \<open>kuksa_client\<close>; \<open>DT_OTHER\<close> stands for arrays, time stamps and the unspecified type.\<close>

datatype DataType = DT_BOOLEAN | DT_FLOAT | DT_DOUBLE | DT_INT8 | DT_UINT8 | DT_INT16 | DT_UINT16 | DT_INT32 | DT_UINT32 | DT_INT64 | DT_UINT64
  | DT_STRING | DT_OTHER

section \<open>Objects\<close>

record clock_state =
  interval_sec :: rat
  clock_recurring :: bool
  time_left :: rat
  expired :: bool

datatype Trigger = ClockTrigger clock_state | EventTrigger EventType "path option"

datatype TriggerResult = ClockTriggerResult bool | EventTriggerResult bool "Event option"

fun TriggerResult_is_active :: "TriggerResult \<Rightarrow> bool" where
  "TriggerResult_is_active (ClockTriggerResult b) = b"
| "TriggerResult_is_active (EventTriggerResult b _) = b"

datatype RepeatMode = ONCE | REPEAT

text \<open>\<open>anim_callback\<close> is the datapoint whose \<open>set_value\<close> the animator calls, \<open>anim_interpolation\<close> the function made by \<open>interp1d\<close>.\<close>

record ValueAnimator =
  anim_interpolation :: "rat \<Rightarrow> pyvalue"
  anim_duration :: rat
  anim_time :: rat
  anim_done :: bool
  anim_repeat_mode :: RepeatMode
  anim_callback :: "nat option"
  anim_value :: pyvalue

record animation =
  aa_duration :: rat
  aa_values :: "pyvalue list"
  aa_resolved :: "pyvalue list"
  aa_animator :: "ValueAnimator option"
  aa_repeat_mode :: RepeatMode
  aa_resolver :: bool

text \<open>The flag of an action says whether its target values are resolved (\<open>__resolve_value\<close>).\<close>

datatype Action = SetAction pyvalue bool | AnimationAction animation

text \<open>A condition is a Python callable that may look at datapoints (\<open>get_datapoint_value\<close> with a default) before it decides.\<close>

datatype condition = Decide bool | Look path pyvalue "pyvalue \<Rightarrow> condition"

record Behavior =
  beh_id :: nat
  beh_trigger :: nat
  beh_cond_id :: nat
  beh_condition :: condition
  beh_action :: nat

text \<open>The only listener of the service is its \<open>_on_datapoint_updated\<close>; a required datapoint has no type.\<close>

record DataPoint =
  dp_path :: path
  dp_type :: "DataType option"
  dp_value :: pyvalue
  dp_listener :: bool

record MockedDataPoint =
  mocked_dp :: nat
  is_mocked :: bool
  mocked_behaviors :: "Behavior list"

record dsl_entry =
  entry_path :: path
  entry_initial :: pyvalue
  entry_behaviors :: "Behavior list"

text \<open>
  The module variables of \<open>dsl.py\<close>, the store of objects, the attributes of the service and, as \<open>broker\<close>, everything outside.
\<close>

record 'w mock =
  dsl_mocked :: "dsl_entry list"
  dsl_required :: "path list"
  triggers :: "nat \<Rightarrow> Trigger"
  actions :: "nat \<Rightarrow> Action"
  dps :: "nat \<Rightarrow> DataPoint"
  next_ref :: nat
  mocked :: "(path \<times> MockedDataPoint) list"
  pending :: "Event list"
  mock_registered :: bool
  mock_connected :: bool
  last_tick :: rat
  broker :: 'w

section \<open>The client of the data broker\<close>

text \<open>
  While the main thread is in a call, the two subscription threads may have received updates: every call returns them with its result.
  An update maps paths to datapoints, which may be absent.
\<close>

type_synonym updates = "EventType \<times> (path \<times> pyvalue option) list"
type_synonym ('w, 'a) call = "'w \<Rightarrow> 'a result \<times> updates list \<times> 'w"

record 'w client =
  get_current_values :: "path \<Rightarrow> ('w, pyvalue option) call"
  get_metadata :: "path \<Rightarrow> ('w, DataType) call"
  set_current_values :: "path \<Rightarrow> pyvalue \<Rightarrow> ('w, unit) call"
  subscribe_target_values :: "path list \<Rightarrow> ('w, unit) call"
  subscribe_current_values :: "path list \<Rightarrow> ('w, unit) call"
  run_script :: "'w mock \<Rightarrow> unit result \<times> 'w mock"
  perf_counter :: "'w \<Rightarrow> rat \<times> 'w"
  time_sleep :: "rat \<Rightarrow> 'w \<Rightarrow> updates list \<times> 'w"

fun update_events :: "updates \<Rightarrow> Event list" where
  "update_events (ty, dict) =
     [\<lparr> ev_name = EventType_value ty, ev_path = p, ev_value = v \<rparr>. (p, dp) \<leftarrow> dict, v \<leftarrow> (case dp of None \<Rightarrow> [] | Some v \<Rightarrow> [v]), v \<noteq> PNone]"

definition mock_update_request_handler :: "updates list \<Rightarrow> 'w mock \<Rightarrow> 'w mock" where
  "mock_update_request_handler us s = s\<lparr>pending := pending s @ concat (map update_events us)\<rparr>"

definition client_call :: "('w, 'a) call \<Rightarrow> 'w mock \<Rightarrow> 'a result \<times> 'w mock" where
  "client_call c s = (case c (broker s) of (r, us, w) \<Rightarrow> (r, mock_update_request_handler us (s\<lparr>broker := w\<rparr>)))"

definition is_fatal_code :: "int \<Rightarrow> bool" where
  "is_fatal_code c \<longleftrightarrow> c = STATUS_UNAVAILABLE \<or> c = STATUS_UNKNOWN \<or> c = STATUS_UNAUTHENTICATED \<or> c = STATUS_INTERNAL"

text \<open>The last event of a name for a path, as the loops without \<open>break\<close> find it.\<close>

fun last_event :: "string \<Rightarrow> path \<Rightarrow> Event list \<Rightarrow> Event option" where
  "last_event n p [] = None"
| "last_event n p (e # es) = (case last_event n p es of Some f \<Rightarrow> Some f
     | None \<Rightarrow> if n = ev_name e \<and> ev_path e = p then Some e else None)"

definition take_event :: "string \<Rightarrow> path \<Rightarrow> Event list \<Rightarrow> Event option \<times> Event list" where
  "take_event n p es = (case last_event n p es of None \<Rightarrow> (None, es) | Some e \<Rightarrow> (Some e, py_remove (\<lambda>f. event_eq f e) es))"

text \<open>\<open>MockService._set_datapoint\<close>.\<close>

definition set_datapoint :: "'w client \<Rightarrow> path \<Rightarrow> pyvalue \<Rightarrow> 'w mock \<Rightarrow> unit result \<times> 'w mock" where
  "set_datapoint K p v s = (case client_call (set_current_values K p v) s of
       (Inr _, t) \<Rightarrow> (Inr (), t\<lparr>pending := snd (take_event ''value'' p (pending t))\<rparr>)
     | (Inl (RpcError c), t) \<Rightarrow> (Inl (RpcError c), t\<lparr>mock_connected := is_fatal_code c\<rparr>)
     | (Inl e, t) \<Rightarrow> (Inl e, t))"

section \<open>Datapoints\<close>

definition has_discrete_value_type :: "DataPoint \<Rightarrow> bool" where
  "has_discrete_value_type d \<longleftrightarrow> dp_type d = Some DT_BOOLEAN \<or> dp_type d = Some DT_STRING"

definition DataPoint_set_value :: "'w client \<Rightarrow> nat \<Rightarrow> pyvalue \<Rightarrow> 'w mock \<Rightarrow> unit result \<times> 'w mock" where
  "DataPoint_set_value K i v s = (let d = dps s i in
     if py_eq (dp_value d) v then (Inr (), s)
     else let t = s\<lparr>dps := (dps s)(i := d\<lparr>dp_value := v\<rparr>)\<rparr> in
       if dp_listener d then set_datapoint K (dp_path d) v t else (Inr (), t))"

definition get_datapoint_value :: "'w client \<Rightarrow> path \<Rightarrow> pyvalue \<Rightarrow> 'w mock \<Rightarrow> pyvalue result \<times> 'w mock" where
  "get_datapoint_value K p dflt s =
     (let t = (if p \<in> set (dsl_required s) then s else s\<lparr>dsl_required := dsl_required s @ [p]\<rparr>) in
      case client_call (get_current_values K p) t of
        (Inl e, u) \<Rightarrow> (Inl e, u)
      | (Inr v, u) \<Rightarrow> (Inr (case v of Some x \<Rightarrow> x | None \<Rightarrow> dflt), u))"

section \<open>Triggers\<close>

definition ClockTrigger_new :: "rat \<Rightarrow> bool \<Rightarrow> clock_state" where
  "ClockTrigger_new i r = \<lparr> interval_sec = i, clock_recurring = r, time_left = i, expired = False \<rparr>"

definition ClockTrigger_check :: "rat \<Rightarrow> clock_state \<Rightarrow> bool \<times> clock_state" where
  "ClockTrigger_check dt c =
     (if expired c then (False, c)
      else let c1 = c\<lparr>time_left := time_left c - dt\<rparr> in
        if time_left c1 \<le> 0
        then (True, if clock_recurring c1 then c1\<lparr>time_left := interval_sec c1 - time_left c1\<rparr> else c1\<lparr>time_left := 0, expired := True\<rparr>)
        else (False, c1))"

definition ClockTrigger_reset :: "clock_state \<Rightarrow> clock_state" where
  "ClockTrigger_reset c = c\<lparr>time_left := interval_sec c, expired := False\<rparr>"

text \<open>\<open>check\<close> of both kinds of triggers. The \<open>pending_event_list\<close> of the context is the list of the service.\<close>

definition Trigger_check :: "nat \<Rightarrow> path \<Rightarrow> rat \<Rightarrow> 'w mock \<Rightarrow> TriggerResult \<times> 'w mock" where
  "Trigger_check i calling dt s = (case triggers s i of
       ClockTrigger c \<Rightarrow> (case ClockTrigger_check dt c of
         (b, c') \<Rightarrow> (ClockTriggerResult b, s\<lparr>triggers := (triggers s)(i := ClockTrigger c')\<rparr>))
     | EventTrigger ty p \<Rightarrow> (let q = (case p of None \<Rightarrow> calling | Some q \<Rightarrow> q) in
         case take_event (EventType_value ty) q (pending s) of
           (e, es) \<Rightarrow> (EventTriggerResult (e \<noteq> None) e, s\<lparr>triggers := (triggers s)(i := EventTrigger ty (Some q)), pending := es\<rparr>)))"

text \<open>\<open>__eq__\<close> of the triggers: the interval and the event type are compared with themselves.\<close>

fun Trigger_eq :: "Trigger \<Rightarrow> Trigger \<Rightarrow> bool" where
  "Trigger_eq (ClockTrigger c) (ClockTrigger d) \<longleftrightarrow> clock_recurring c = clock_recurring d \<and> interval_sec c = interval_sec c"
| "Trigger_eq (EventTrigger ty p) (EventTrigger ty' q) \<longleftrightarrow> p = q \<and> ty = ty"
| "Trigger_eq _ _ \<longleftrightarrow> False"

section \<open>Animators\<close>

record numlib =
  linspace :: "rat \<Rightarrow> rat \<Rightarrow> nat \<Rightarrow> rat list"
  interp1d :: "rat list \<Rightarrow> pyvalue list \<Rightarrow> pyvalue \<times> pyvalue \<Rightarrow> (rat \<Rightarrow> pyvalue) option"

definition ValueAnimator_new :: "numlib \<Rightarrow> pyvalue list \<Rightarrow> rat \<Rightarrow> RepeatMode \<Rightarrow> nat option \<Rightarrow> ValueAnimator result" where
  "ValueAnimator_new N values duration mode cb =
     (if values = [] then Inl IndexError
      else case interp1d N (linspace N 0 duration (length values)) values (hd values, last values) of
        None \<Rightarrow> Inl ValueError
      | Some f \<Rightarrow> Inr \<lparr> anim_interpolation = f, anim_duration = duration, anim_time = 0, anim_done = False, anim_repeat_mode = mode,
          anim_callback = cb, anim_value = hd values \<rparr>)"

text \<open>\<open>tick\<close> before the call of the callback.\<close>

definition ValueAnimator_advance :: "rat \<Rightarrow> ValueAnimator \<Rightarrow> ValueAnimator" where
  "ValueAnimator_advance dt a = (let t = anim_time a + dt;
       a1 = (if t > anim_duration a
         then (case anim_repeat_mode a of ONCE \<Rightarrow> a\<lparr>anim_time := anim_duration a, anim_done := True\<rparr>
           | REPEAT \<Rightarrow> a\<lparr>anim_time := t - anim_duration a\<rparr>)
         else a\<lparr>anim_time := t\<rparr>) in
     a1\<lparr>anim_value := anim_interpolation a (anim_time a1)\<rparr>)"

definition ValueAnimator_tick :: "'w client \<Rightarrow> nat \<Rightarrow> animation \<Rightarrow> ValueAnimator \<Rightarrow> rat \<Rightarrow> 'w mock \<Rightarrow> unit result \<times> 'w mock" where
  "ValueAnimator_tick K i aa a dt s =
     (if anim_done a then (Inr (), s)
      else let a' = ValueAnimator_advance dt a;
          t = s\<lparr>actions := (actions s)(i := AnimationAction (aa\<lparr>aa_animator := Some a'\<rparr>))\<rparr> in
        case anim_callback a' of None \<Rightarrow> (Inr (), t) | Some j \<Rightarrow> DataPoint_set_value K j (anim_value a') t)"

section \<open>Actions\<close>

definition resolve_value :: "'w client \<Rightarrow> TriggerResult \<Rightarrow> nat \<Rightarrow> pyvalue \<Rightarrow> 'w mock \<Rightarrow> pyvalue result \<times> 'w mock" where
  "resolve_value K tr i v s = (case v of
       PStr str \<Rightarrow>
         if take 1 str \<noteq> ''$'' then (Inr v, s)
         else if str = ''$self'' then get_datapoint_value K (dp_path (dps s i)) (PNum 0) s
         else if str = ''$event.value''
         then (case tr of
             EventTriggerResult _ (Some e) \<Rightarrow> (Inr (ev_value e), s)
           | EventTriggerResult _ None \<Rightarrow> (Inl AttributeError, s)
           | ClockTriggerResult _ \<Rightarrow> (Inl ValueError, s))
         else get_datapoint_value K (drop 1 str) (PNum 0) s
     | _ \<Rightarrow> (Inr v, s))"

definition set_resolved :: "nat \<Rightarrow> nat \<Rightarrow> pyvalue \<Rightarrow> 'w mock \<Rightarrow> 'w mock" where
  "set_resolved i k v s = (case actions s i of
       AnimationAction aa \<Rightarrow> s\<lparr>actions := (actions s)(i := AnimationAction (aa\<lparr>aa_resolved := (aa_resolved aa)[k := v]\<rparr>))\<rparr>
     | _ \<Rightarrow> s)"

definition resolve_target_values :: "'w client \<Rightarrow> TriggerResult \<Rightarrow> nat \<Rightarrow> nat \<Rightarrow> pyvalue list \<Rightarrow> 'w mock \<Rightarrow> unit result \<times> 'w mock" where
  "resolve_target_values K tr j i vs =
     for_each (\<lambda>(k, v). bind_py (resolve_value K tr j v) (\<lambda>x s. (Inr (), set_resolved i k x s))) (enumerate 0 vs)"

definition create_animator :: "numlib \<Rightarrow> nat \<Rightarrow> nat \<Rightarrow> 'w mock \<Rightarrow> unit result \<times> 'w mock" where
  "create_animator N i j s = (case actions s i of
       AnimationAction aa \<Rightarrow> (case ValueAnimator_new N (aa_resolved aa) (aa_duration aa) (aa_repeat_mode aa) (Some j) of
           Inl e \<Rightarrow> (Inl e, s)
         | Inr a \<Rightarrow> (Inr (), s\<lparr>actions := (actions s)(i := AnimationAction (aa\<lparr>aa_animator := Some a\<rparr>))\<rparr>))
     | _ \<Rightarrow> (Inr (), s))"

text \<open>\<open>execute\<close> of the action \<open>i\<close> for the datapoint \<open>j\<close>.\<close>

definition Action_execute :: "'w client \<Rightarrow> numlib \<Rightarrow> TriggerResult \<Rightarrow> nat \<Rightarrow> nat \<Rightarrow> 'w mock \<Rightarrow> unit result \<times> 'w mock" where
  "Action_execute K N tr i j s = (case actions s i of
       SetAction v resolver \<Rightarrow>
         bind_py (if resolver then resolve_value K tr j v else (\<lambda>t. (Inr v, t)))
           (\<lambda>x t. if x = PNone then (Inr (), t) else DataPoint_set_value K j x t) s
     | AnimationAction aa \<Rightarrow>
         if has_discrete_value_type (dps s j) then (Inr (), s)
         else bind_py (if aa_resolver aa then resolve_target_values K tr j i (aa_values aa) else (\<lambda>t. (Inr (), t)))
           (\<lambda>_. create_animator N i j) s)"

fun Action_eq :: "Action \<Rightarrow> Action \<Rightarrow> bool" where
  "Action_eq (SetAction v r) (SetAction w r') \<longleftrightarrow> py_eq v w \<and> r = r'"
| "Action_eq (AnimationAction a) (AnimationAction b) \<longleftrightarrow> aa_duration a = aa_duration b \<and> list_all2 py_eq (aa_values a) (aa_values b) \<and>
     aa_repeat_mode a = aa_repeat_mode b \<and> aa_resolver a = aa_resolver b"
| "Action_eq _ _ \<longleftrightarrow> False"

section \<open>Behaviors\<close>

primrec is_condition_fulfilled :: "'w client \<Rightarrow> condition \<Rightarrow> 'w mock \<Rightarrow> bool result \<times> 'w mock" where
  "is_condition_fulfilled K (Decide b) = (\<lambda>s. (Inr b, s))"
| "is_condition_fulfilled K (Look p dflt k) = bind_py (get_datapoint_value K p dflt) (\<lambda>v. is_condition_fulfilled K (k v))"

definition Behavior_eq :: "'w mock \<Rightarrow> Behavior \<Rightarrow> Behavior \<Rightarrow> bool" where
  "Behavior_eq s a b \<longleftrightarrow> Trigger_eq (triggers s (beh_trigger a)) (triggers s (beh_trigger b)) \<and> beh_cond_id a = beh_cond_id b \<and>
     Action_eq (actions s (beh_action a)) (actions s (beh_action b))"

text \<open>\<open>BehaviorExecutor.execute\<close>: the inner loop ends with the first behavior that runs.\<close>

fun run_behaviors :: "'w client \<Rightarrow> numlib \<Rightarrow> path \<Rightarrow> nat \<Rightarrow> rat \<Rightarrow> Behavior list \<Rightarrow> 'w mock \<Rightarrow> unit result \<times> 'w mock" where
  "run_behaviors K N p j dt [] s = (Inr (), s)"
| "run_behaviors K N p j dt (b # bs) s = bind_py (is_condition_fulfilled K (beh_condition b))
     (\<lambda>ok t. if \<not> ok then run_behaviors K N p j dt bs t
       else case Trigger_check (beh_trigger b) p dt t of
         (tr, u) \<Rightarrow> if TriggerResult_is_active tr then Action_execute K N tr (beh_action b) j u else run_behaviors K N p j dt bs u) s"

definition BehaviorExecutor_execute :: "'w client \<Rightarrow> numlib \<Rightarrow> rat \<Rightarrow> 'w mock \<Rightarrow> unit result \<times> 'w mock" where
  "BehaviorExecutor_execute K N dt s = for_each (\<lambda>(p, m). run_behaviors K N p (mocked_dp m) dt (mocked_behaviors m)) (mocked s) s"

section \<open>Sequences of checks and ticks\<close>

definition clock_after :: "rat \<Rightarrow> nat \<Rightarrow> clock_state \<Rightarrow> clock_state" where
  "clock_after dt n = (\<lambda>c. snd (ClockTrigger_check dt c)) ^^ n"

definition animate :: "rat list \<Rightarrow> ValueAnimator \<Rightarrow> ValueAnimator" where
  "animate dts = fold (\<lambda>dt a. if anim_done a then a else ValueAnimator_advance dt a) dts"

text \<open>What the code relies on of \<open>numpy.linspace\<close> and \<open>scipy.interpolate.interp1d\<close>: equally spaced points, and piecewise linear
  interpolation between them that answers outside with the given fill values.\<close>

locale interpolation =
  fixes N :: numlib
  assumes linspace_points: "2 \<le> n \<Longrightarrow> linspace N 0 d n = map (\<lambda>i. d * of_nat i / of_nat (n - 1)) [0..<n]"
    and interp1d_numbers: "\<lbrakk> 2 \<le> length xs; length ys = length xs; sorted_wrt (<) xs \<rbrakk> \<Longrightarrow> \<exists>f. interp1d N xs (map PNum ys) (l, u) = Some f"
    and interp1d_linear: "\<lbrakk> 2 \<le> length xs; length ys = length xs; sorted_wrt (<) xs; interp1d N xs (map PNum ys) (l, u) = Some f;
        Suc i < length xs; xs ! i \<le> x; x \<le> xs ! Suc i \<rbrakk> \<Longrightarrow>
      f x = PNum (ys ! i + (x - xs ! i) * (ys ! Suc i - ys ! i) / (xs ! Suc i - xs ! i))"
    and interp1d_below: "\<lbrakk> 2 \<le> length xs; length ys = length xs; sorted_wrt (<) xs; interp1d N xs (map PNum ys) (l, u) = Some f; x < hd xs \<rbrakk>
      \<Longrightarrow> f x = l"
    and interp1d_above: "\<lbrakk> 2 \<le> length xs; length ys = length xs; sorted_wrt (<) xs; interp1d N xs (map PNum ys) (l, u) = Some f; last xs < x \<rbrakk>
      \<Longrightarrow> f x = u"

section \<open>Clock triggers\<close>

lemma clock_after_Suc: "clock_after dt (Suc n) c = snd (ClockTrigger_check dt (clock_after dt n c))"
  by (simp add: clock_after_def)

lemma clock_after_0 [simp]: "clock_after dt 0 c = c"
  by (simp add: clock_after_def)

text \<open>The number of checks until the interval has passed.\<close>

definition checks_needed :: "rat \<Rightarrow> rat \<Rightarrow> nat" where
  "checks_needed interval dt = nat \<lceil>interval / dt\<rceil>"

lemma checks_needed:
  assumes "0 < dt" and "0 < interval"
  shows "0 < checks_needed interval dt" and "of_nat j * dt < interval \<longleftrightarrow> j < checks_needed interval dt"
proof -
  have q: "0 < interval / dt" using assms by simp
  then show "0 < checks_needed interval dt" by (simp add: checks_needed_def)
  have "of_nat j * dt < interval \<longleftrightarrow> of_int (int j) < interval / dt"
    using assms(1) by (simp add: pos_less_divide_eq)
  also have "\<dots> \<longleftrightarrow> int j < \<lceil>interval / dt\<rceil>" by (simp only: less_ceiling_iff)
  finally show "of_nat j * dt < interval \<longleftrightarrow> j < checks_needed interval dt" by (simp add: checks_needed_def zless_nat_eq_int_zless)
qed

lemma recurring_clock_after:
  assumes "0 < dt" and "0 < interval"
  defines "m \<equiv> checks_needed interval dt"
  shows "clock_after dt n (ClockTrigger_new interval True) =
    \<lparr> interval_sec = interval, clock_recurring = True,
      time_left = (if even (n div m) then interval else of_nat m * dt) - of_nat (n mod m) * dt, expired = False \<rparr>"
proof (induction n)
  case (Suc n)
  let ?j = "n mod m"
  have m: "0 < m" and lt: "of_nat i * dt < interval \<longleftrightarrow> i < m" for i
    using checks_needed [OF assms(1,2)] by (simp_all add: m_def)
  have j: "?j < m" using m by simp
  have mdt: "interval \<le> of_nat m * dt" using lt [of m] by simp
  show ?case
  proof (cases "Suc ?j = m")
    case True
    then have "Suc n mod m = 0" "Suc n div m = Suc (n div m)"
      using mod_Suc [of n m] div_Suc [of n m] by simp_all
    moreover have "of_nat ?j * dt + dt = of_nat m * dt"
      using True by (metis add.commute of_nat_Suc ring_class.ring_distribs(2) mult_1)
    ultimately show ?thesis
      using Suc mdt by (auto simp: clock_after_Suc ClockTrigger_check_def Let_def algebra_simps)
  next
    case False
    then have s: "Suc n mod m = Suc ?j" "Suc n div m = n div m"
      using mod_Suc [of n m] div_Suc [of n m] by simp_all
    have sj: "Suc ?j < m" using False j by simp
    have l: "of_nat (Suc ?j) * dt < interval" using lt [of "Suc ?j"] sj by simp
    moreover have "of_nat (Suc ?j) * dt < of_nat m * dt" using sj assms(1) by (simp add: of_nat_less_iff del: of_nat_Suc)
    ultimately show ?thesis
      using Suc s by (auto simp: clock_after_Suc ClockTrigger_check_def Let_def algebra_simps)
  qed
qed (simp add: ClockTrigger_new_def)

lemma single_clock_after:
  assumes "0 < dt" and "0 < interval"
  defines "m \<equiv> checks_needed interval dt"
  shows "clock_after dt n (ClockTrigger_new interval False) =
    \<lparr> interval_sec = interval, clock_recurring = False, time_left = (if n < m then interval - of_nat n * dt else 0), expired = (m \<le> n) \<rparr>"
proof (induction n)
  case (Suc n)
  have "of_nat (Suc n) * dt < interval \<longleftrightarrow> Suc n < m" using checks_needed(2) [OF assms(1,2), of "Suc n"] by (simp add: m_def)
  then show ?case using Suc by (auto simp: clock_after_Suc ClockTrigger_check_def Let_def algebra_simps)
next
  case 0
  then show ?case using checks_needed(1) [OF assms(1,2)] by (simp add: ClockTrigger_new_def m_def)
qed



section \<open>Animations\<close>

lemma between_convex:
  fixes a b l :: rat
  assumes "0 \<le> l" and "l \<le> 1"
  shows "min a b \<le> a + l * (b - a)" and "a + l * (b - a) \<le> max a b"
proof -
  have e: "a + l * (b - a) = (1 - l) * a + l * b" by (simp add: algebra_simps)
  have "(1 - l) * min a b + l * min a b \<le> (1 - l) * a + l * b"
    using assms by (intro add_mono mult_left_mono) simp_all
  then show "min a b \<le> a + l * (b - a)" unfolding e by (simp add: algebra_simps)
  have "(1 - l) * a + l * b \<le> (1 - l) * max a b + l * max a b"
    using assms by (intro add_mono mult_left_mono) simp_all
  then show "a + l * (b - a) \<le> max a b" unfolding e by (simp add: algebra_simps)
qed

lemma sorted_points:
  fixes d :: rat
  assumes "0 < d" and "2 \<le> n"
  shows "sorted_wrt (<) (map (\<lambda>i. d * of_nat i / of_nat (n - 1)) [0..<n])"
  using assms by (auto simp: sorted_wrt_iff_nth_less divide_strict_right_mono mult_strict_left_mono)

lemma segment_exists:
  fixes d t :: rat
  assumes "0 < d" and "2 \<le> n" and "0 \<le> t" and "t \<le> d"
  shows "\<exists>i. Suc i < n \<and> d * of_nat i / of_nat (n - 1) \<le> t \<and> t \<le> d * of_nat (Suc i) / of_nat (n - 1)"
proof -
  let ?P = "\<lambda>i. t \<le> d * of_nat (Suc i) / of_nat (n - 1)"
  have n: "0 < n - 1" using assms(2) by simp
  have "?P (n - 2)"
  proof -
    have "Suc (n - 2) = n - 1" using assms(2) by simp
    then show ?thesis using assms(4) n by (metis less_irrefl nonzero_mult_div_cancel_right of_nat_0_less_iff)
  qed
  then obtain i where i: "?P i" "\<forall>k<i. \<not> ?P k" using exists_least_iff [of ?P] by blast
  have "i \<le> n - 2" using i(2) \<open>?P (n - 2)\<close> by (meson leI)
  moreover have "d * of_nat i / of_nat (n - 1) \<le> t"
  proof (cases i)
    case (Suc k)
    then show ?thesis using i(2) [rule_format, of k] by simp
  qed (use assms(3) in simp)
  ultimately show ?thesis using i(1) n by (intro exI [of _ i]) auto
qed

lemma animate_interpolation [simp]:
  "anim_interpolation (animate dts a) = anim_interpolation a" "anim_duration (animate dts a) = anim_duration a"
  "anim_repeat_mode (animate dts a) = anim_repeat_mode a"
  by (induction dts arbitrary: a) (simp_all add: animate_def ValueAnimator_advance_def Let_def split: RepeatMode.splits)

lemma animate_value: "anim_value (animate dts a) = anim_value a \<or> (\<exists>t. anim_value (animate dts a) = anim_interpolation a t)"
proof (induction dts arbitrary: a)
  case (Cons dt dts)
  let ?a = "if anim_done a then a else ValueAnimator_advance dt a"
  have "anim_interpolation ?a = anim_interpolation a" using animate_interpolation(1) [of "[dt]" a] by (simp add: animate_def)
  moreover have "anim_value ?a = anim_value a \<or> (\<exists>t. anim_value ?a = anim_interpolation a t)"
    by (auto simp: ValueAnimator_advance_def Let_def)
  ultimately show ?case using Cons [of ?a] by (auto simp: animate_def)
qed (simp add: animate_def)

lemma animate_once:
  assumes "anim_repeat_mode a = ONCE" and "\<not> anim_done a" and "0 \<le> anim_time a" and "anim_time a \<le> anim_duration a"
    and "\<forall>dt\<in>set dts. 0 \<le> dt"
  shows "(anim_done (animate dts a) \<longleftrightarrow> anim_duration a < anim_time a + sum_list dts) \<and>
    anim_time (animate dts a) = min (anim_duration a) (anim_time a + sum_list dts) \<and>
    (dts \<noteq> [] \<longrightarrow> anim_value (animate dts a) = anim_interpolation a (min (anim_duration a) (anim_time a + sum_list dts)))"
  using assms
proof (induction dts arbitrary: a)
  case (Cons dt dts)
  have done_stays: "anim_done b \<Longrightarrow> animate ds b = b" for ds b by (induction ds) (simp_all add: animate_def)
  have sum: "0 \<le> sum_list dts" using Cons.prems(5) by (auto intro: sum_list_nonneg)
  let ?a = "ValueAnimator_advance dt a"
  have step: "animate (dt # dts) a = animate dts ?a" using Cons.prems(2) by (simp add: animate_def)
  show ?case
  proof (cases "anim_duration a < anim_time a + dt")
    case True
    then have "?a = a\<lparr>anim_time := anim_duration a, anim_done := True, anim_value := anim_interpolation a (anim_duration a)\<rparr>"
      using Cons.prems(1) by (simp add: ValueAnimator_advance_def Let_def)
    then show ?thesis using True sum by (simp add: step done_stays min_def)
  next
    case False
    then have a: "?a = a\<lparr>anim_time := anim_time a + dt, anim_value := anim_interpolation a (anim_time a + dt)\<rparr>"
      by (simp add: ValueAnimator_advance_def Let_def)
    show ?thesis
    proof (cases "dts = []")
      case True
      then show ?thesis using False Cons.prems(2) by (simp add: step a animate_def min_def)
    next
      case ne: False
      then show ?thesis
        using Cons.IH [of ?a] Cons.prems False by (simp add: step a add.assoc)
    qed
  qed
qed (simp add: animate_def min_def)

context interpolation
begin

lemma animator_new:
  assumes "0 < d" and "2 \<le> length ys" and "ValueAnimator_new N (map PNum ys) d mode cb = Inr a"
  shows "interp1d N (map (\<lambda>i. d * of_nat i / of_nat (length ys - 1)) [0..<length ys]) (map PNum ys) (PNum (hd ys), PNum (last ys)) =
      Some (anim_interpolation a)"
    and "anim_duration a = d" "anim_time a = 0" "\<not> anim_done a" "anim_repeat_mode a = mode" "anim_value a = PNum (hd ys)"
proof -
  have "ys \<noteq> []" using assms(2) by auto
  with assms(3) linspace_points [OF assms(2), of d]
  show "interp1d N (map (\<lambda>i. d * of_nat i / of_nat (length ys - 1)) [0..<length ys]) (map PNum ys) (PNum (hd ys), PNum (last ys)) =
      Some (anim_interpolation a)"
    and "anim_duration a = d" "anim_time a = 0" "\<not> anim_done a" "anim_repeat_mode a = mode" "anim_value a = PNum (hd ys)"
    by (auto simp: ValueAnimator_new_def hd_map last_map split: option.splits)
qed

lemma interpolated_linear:
  assumes "0 < d" and "2 \<le> length ys" and "ValueAnimator_new N (map PNum ys) d mode cb = Inr a" and "Suc i < length ys"
    and "d * of_nat i / of_nat (length ys - 1) \<le> t" and "t \<le> d * of_nat (Suc i) / of_nat (length ys - 1)"
  shows "anim_interpolation a t = PNum (ys ! i + (t - d * of_nat i / of_nat (length ys - 1)) * (ys ! Suc i - ys ! i) / (d / of_nat (length ys - 1)))"
proof -
  let ?xs = "map (\<lambda>i. d * of_nat i / of_nat (length ys - 1)) [0..<length ys]"
  have e: "d * of_nat (Suc i) / of_nat (length ys - 1) - d * of_nat i / of_nat (length ys - 1) = d / of_nat (length ys - 1)"
    by (simp add: add_divide_distrib algebra_simps)
  have "anim_interpolation a t = PNum (ys ! i + (t - ?xs ! i) * (ys ! Suc i - ys ! i) / (?xs ! Suc i - ?xs ! i))"
    using assms sorted_points [OF assms(1,2)] animator_new(1) [OF assms(1-3)]
    by (intro interp1d_linear [where l = "PNum (hd ys)" and u = "PNum (last ys)"]) (simp_all del: of_nat_Suc)
  then show ?thesis using assms(4) e by (simp del: of_nat_Suc)
qed

lemma interpolated_end:
  assumes "0 < d" and "2 \<le> length ys" and "ValueAnimator_new N (map PNum ys) d mode cb = Inr a"
  shows "anim_interpolation a d = PNum (last ys)"
proof -
  let ?n = "length ys - 1"
  have n: "Suc (length ys - 2) = ?n" "0 < ?n" "ys \<noteq> []" using assms(2) by auto
  have e: "d - d * of_nat (length ys - 2) / of_nat ?n = d / of_nat ?n"
  proof -
    have "d = d * of_nat (Suc (length ys - 2)) / of_nat ?n" using n by simp
    then show ?thesis by (simp add: add_divide_distrib algebra_simps)
  qed
  have "d * of_nat (length ys - 2) / of_nat ?n \<le> d" "d \<le> d * of_nat (Suc (length ys - 2)) / of_nat ?n"
    using n assms(1) e by (simp_all add: field_simps)
  from interpolated_linear [OF assms _ this] n
  have "anim_interpolation a d = PNum (ys ! (length ys - 2) + d / of_nat ?n * (ys ! ?n - ys ! (length ys - 2)) / (d / of_nat ?n))"
    unfolding e by simp
  moreover have "d / of_nat ?n \<noteq> 0" using n assms(1) by simp
  ultimately show ?thesis using n(3) by (simp only: nonzero_mult_div_cancel_left) (simp add: last_conv_nth)
qed

lemma interpolated_range:
  assumes "0 < d" and "2 \<le> length ys" and "ValueAnimator_new N (map PNum ys) d mode cb = Inr a"
  shows "\<exists>v. anim_interpolation a t = PNum v \<and> Min (set ys) \<le> v \<and> v \<le> Max (set ys)"
proof -
  let ?n = "length ys - 1" and ?xs = "map (\<lambda>i. d * of_nat i / of_nat (length ys - 1)) [0..<length ys]"
  have ne: "ys \<noteq> []" and n: "0 < ?n" using assms(2) by auto
  have ends: "hd ?xs = 0" "last ?xs = d"
    using ne n by (simp_all add: hd_map last_map last_upt hd_conv_nth)
  consider "t < 0" | "d < t" | "0 \<le> t" "t \<le> d" by linarith
  then show ?thesis
  proof cases
    case 1
    then have "anim_interpolation a t = PNum (hd ys)"
      using interp1d_below [of ?xs ys] assms(2) sorted_points [OF assms(1,2)] animator_new(1) [OF assms] ends by simp
    then show ?thesis using ne by simp
  next
    case 2
    then have "anim_interpolation a t = PNum (last ys)"
      using interp1d_above [of ?xs ys] assms(2) sorted_points [OF assms(1,2)] animator_new(1) [OF assms] ends by simp
    then show ?thesis using ne by simp
  next
    case 3
    from segment_exists [OF assms(1,2) this] obtain i where i: "Suc i < length ys" "d * of_nat i / of_nat ?n \<le> t"
      "t \<le> d * of_nat (Suc i) / of_nat ?n" by blast
    let ?l = "(t - d * of_nat i / of_nat ?n) / (d / of_nat ?n)"
    have "t - d * of_nat i / of_nat ?n \<le> d / of_nat ?n" using i(3) by (simp add: add_divide_distrib algebra_simps)
    then have l: "0 \<le> ?l" "?l \<le> 1" using i(2) assms(1) n by (simp_all add: divide_simps)
    have v: "anim_interpolation a t = PNum (ys ! i + ?l * (ys ! Suc i - ys ! i))"
      using interpolated_linear [OF assms i] by simp
    have "Min (set ys) \<le> min (ys ! i) (ys ! Suc i)" "max (ys ! i) (ys ! Suc i) \<le> Max (set ys)" using i(1) by simp_all
    then show ?thesis using v between_convex [OF l, of "ys ! i" "ys ! Suc i"] by (auto intro: order_trans)
  qed
qed

end

subsection \<open>Exact interpolation\<close>

fun interpolate :: "rat list \<Rightarrow> rat list \<Rightarrow> rat \<Rightarrow> rat" where
  "interpolate (x0 # x1 # xs) (y0 # y1 # ys) x =
     (if x \<le> x1 then y0 + (x - x0) * (y1 - y0) / (x1 - x0) else interpolate (x1 # xs) (y1 # ys) x)"
| "interpolate _ _ _ = 0"

definition exact_lib :: numlib where
  "exact_lib = \<lparr> linspace = (\<lambda>a b n. map (\<lambda>i. a + (b - a) * of_nat i / of_nat (n - 1)) [0..<n]),
     interp1d = (\<lambda>xs vs (l, u). if None \<in> set (map py_num vs) then None
       else Some (\<lambda>x. if x < hd xs then l else if last xs < x then u else PNum (interpolate xs (map (the \<circ> py_num) vs) x))) \<rparr>"

lemma interpolate_segment:
  assumes "sorted_wrt (<) xs" and "length ys = length xs" and "Suc i < length xs" and "xs ! i \<le> x" and "x \<le> xs ! Suc i"
  shows "interpolate xs ys x = ys ! i + (x - xs ! i) * (ys ! Suc i - ys ! i) / (xs ! Suc i - xs ! i)"
  using assms
proof (induction xs ys x arbitrary: i rule: interpolate.induct)
  case (1 x0 x1 xs y0 y1 ys x)
  show ?case
  proof (cases i)
    case (Suc k)
    have k: "x1 < xs ! j" if "j < length xs" for j using "1.prems"(1) that by simp
    show ?thesis
    proof (cases "x \<le> x1")
      case True
      have "k = 0"
      proof (rule ccontr)
        assume "k \<noteq> 0"
        then have "x1 < xs ! (k - 1)" using "1.prems"(3) Suc k by simp
        then show False using "1.prems"(4) True Suc \<open>k \<noteq> 0\<close> by (simp add: nth_Cons')
      qed
      moreover from this have "x = x1" using "1.prems"(4) True Suc by simp
      moreover have "x0 < x1" using "1.prems"(1) by simp
      ultimately show ?thesis using Suc by simp
    next
      case False
      then show ?thesis using "1.IH" [of k] "1.prems" Suc by simp
    qed
  qed (use "1.prems" in simp)
qed auto

lemma sorted_nth_bounds:
  fixes xs :: "rat list"
  assumes "sorted_wrt (<) xs" and "i < length xs"
  shows "hd xs \<le> xs ! i" and "xs ! i \<le> last xs"
proof -
  have ne: "xs \<noteq> []" and s: "\<And>a b. a < b \<Longrightarrow> b < length xs \<Longrightarrow> xs ! a < xs ! b"
    using assms by (auto simp: sorted_wrt_iff_nth_less)
  show "hd xs \<le> xs ! i" using s [of 0 i] assms(2) ne by (cases "i = 0") (auto simp: hd_conv_nth)
  have "i < length xs - 1 \<or> i = length xs - 1" using assms(2) by auto
  then show "xs ! i \<le> last xs" using s [of i "length xs - 1"] ne by (auto simp: last_conv_nth)
qed

lemma numbers_only [simp]: "None \<notin> py_num ` PNum ` set ys" "map (the \<circ> py_num) (map PNum ys) = ys"
  by (auto intro: map_idI)

interpretation exact: interpolation exact_lib
proof unfold_locales
  fix xs ys :: "rat list" and l u f i x
  assume a: "2 \<le> length xs" "length ys = length xs" "sorted_wrt (<) xs" "interp1d exact_lib xs (map PNum ys) (l, u) = Some f"
  have f: "f = (\<lambda>x. if x < hd xs then l else if last xs < x then u else PNum (interpolate xs ys x))"
    using a(4) by (simp add: exact_lib_def image_comp del: map_map cong: if_cong)
  show "Suc i < length xs \<Longrightarrow> xs ! i \<le> x \<Longrightarrow> x \<le> xs ! Suc i \<Longrightarrow>
      f x = PNum (ys ! i + (x - xs ! i) * (ys ! Suc i - ys ! i) / (xs ! Suc i - xs ! i))"
    using interpolate_segment [OF a(3,2)] sorted_nth_bounds [OF a(3)]
    by (simp add: f) (meson Suc_lessD leD order_trans)
  show "x < hd xs \<Longrightarrow> f x = l" by (simp add: f)
  show "last xs < x \<Longrightarrow> f x = u" using sorted_nth_bounds(2) [OF a(3), of 0] a(1) by (cases xs) (auto simp: f)
qed (auto simp: exact_lib_def image_comp)

text \<open>The values of an animation over numbers stay between the least and the greatest configured one, whatever the repeat mode and the ticks.\<close>

lemma animation_within_values:
  assumes "interpolation N" and "0 < d" and "2 \<le> length ys" and "ValueAnimator_new N (map PNum ys) d mode cb = Inr a"
  shows "\<exists>v. anim_value (animate dts a) = PNum v \<and> Min (set ys) \<le> v \<and> v \<le> Max (set ys)"
proof -
  have "ys \<noteq> []" using assms(3) by auto
  then have "Min (set ys) \<le> hd ys \<and> hd ys \<le> Max (set ys)" by simp
  then show ?thesis
    using animate_value [of dts a] interpolation.animator_new(6) [OF assms]
      interpolation.interpolated_range [OF assms] by metis
qed



end
