(* ===== verification/Mock_Service.thy ===== *)
theory Mock_Service
  imports Mock_Engine "HOL-Library.AList"
begin

text \<open>
  The mock service over the engine: the functions a configuration script calls (\<open>lib/dsl.py\<close>), the loader (\<open>lib/loader.py\<close>), and the
  service with its main loop (\<open>mock/mockservice.py\<close>). A configuration script and a user of the same process call the same functions.
\<close>

section \<open>The configuration functions\<close>

definition mock_datapoint :: "path \<Rightarrow> pyvalue \<Rightarrow> Behavior list \<Rightarrow> 'w mock \<Rightarrow> 'w mock" where
  "mock_datapoint p v bs s =
     (if \<exists>d\<in>set (dsl_mocked s). entry_path d = p then s
      else s\<lparr>dsl_mocked := dsl_mocked s @ [\<lparr> entry_path = p, entry_initial = v, entry_behaviors = bs \<rparr>]\<rparr>)"

definition create_behavior :: "nat \<Rightarrow> nat \<Rightarrow> nat \<Rightarrow> condition \<Rightarrow> 'w mock \<Rightarrow> Behavior \<times> 'w mock" where
  "create_behavior tr a cid c s = (\<lparr> beh_id = next_ref s, beh_trigger = tr, beh_cond_id = cid, beh_condition = c, beh_action = a \<rparr>,
     s\<lparr>next_ref := Suc (next_ref s)\<rparr>)"

fun append_behavior :: "Behavior \<Rightarrow> path \<Rightarrow> dsl_entry list \<Rightarrow> dsl_entry list" where
  "append_behavior b p [] = []"
| "append_behavior b p (d # ds) =
     (if entry_path d = p then d\<lparr>entry_behaviors := entry_behaviors d @ [b]\<rparr> # ds else d # append_behavior b p ds)"

definition add_behavior :: "Behavior \<Rightarrow> path \<Rightarrow> 'w mock \<Rightarrow> 'w mock" where
  "add_behavior b p s = s\<lparr>dsl_mocked := append_behavior b p (dsl_mocked s)\<rparr>"

definition new_action :: "Action \<Rightarrow> 'w mock \<Rightarrow> nat \<times> 'w mock" where
  "new_action a s = (next_ref s, s\<lparr>actions := (actions s)(next_ref s := a), next_ref := Suc (next_ref s)\<rparr>)"

definition new_trigger :: "Trigger \<Rightarrow> 'w mock \<Rightarrow> nat \<times> 'w mock" where
  "new_trigger tr s = (next_ref s, s\<lparr>triggers := (triggers s)(next_ref s := tr), next_ref := Suc (next_ref s)\<rparr>)"

definition create_set_action :: "pyvalue \<Rightarrow> 'w mock \<Rightarrow> nat \<times> 'w mock" where
  "create_set_action v = new_action (SetAction v True)"

definition create_animation_action :: "pyvalue list \<Rightarrow> rat \<Rightarrow> RepeatMode \<Rightarrow> 'w mock \<Rightarrow> nat \<times> 'w mock" where
  "create_animation_action values duration mode = new_action (AnimationAction
     \<lparr> aa_duration = duration, aa_values = values, aa_resolved = values, aa_animator = None, aa_repeat_mode = mode, aa_resolver = True \<rparr>)"

definition create_event_trigger :: "EventType \<Rightarrow> path option \<Rightarrow> 'w mock \<Rightarrow> nat \<times> 'w mock" where
  "create_event_trigger ty p s = new_trigger (EventTrigger ty p)
     (case p of None \<Rightarrow> s | Some q \<Rightarrow> if q \<in> set (dsl_required s) then s else s\<lparr>dsl_required := dsl_required s @ [q]\<rparr>)"

text \<open>A \<open>for\<close> loop over a list from which its body removes the first element that \<open>eq\<close> finds: Python iterates by position.\<close>

lemma length_py_remove: "length (py_remove eq xs) \<le> length xs"
  by (induction xs) auto

function scan_remove :: "('a \<Rightarrow> bool) \<Rightarrow> ('a \<Rightarrow> 'a \<Rightarrow> bool) \<Rightarrow> nat \<Rightarrow> 'a list \<Rightarrow> 'a list" where
  "scan_remove P eq i xs =
     (if i < length xs then scan_remove P eq (Suc i) (if P (xs ! i) then py_remove (eq (xs ! i)) xs else xs) else xs)"
  by pat_completeness auto
termination
  by (relation "measure (\<lambda>(P, eq, i, xs). length xs - i)")
    (auto intro: diff_less_mono2 le_less_trans [OF diff_le_mono [OF length_py_remove] diff_less_mono2])

declare scan_remove.simps [simp del]

text \<open>Comparisons of lists and dictionaries look at the identity of elements first.\<close>

definition behaviors_eq :: "'w mock \<Rightarrow> Behavior list \<Rightarrow> Behavior list \<Rightarrow> bool" where
  "behaviors_eq s = list_all2 (\<lambda>a b. beh_id a = beh_id b \<or> Behavior_eq s a b)"

definition entry_eq :: "'w mock \<Rightarrow> dsl_entry \<Rightarrow> dsl_entry \<Rightarrow> bool" where
  "entry_eq s d e \<longleftrightarrow> entry_path d = entry_path e \<and> py_eq (entry_initial d) (entry_initial e) \<and>
     behaviors_eq s (entry_behaviors d) (entry_behaviors e)"

definition delete_behavior_of_mocked_datapoint :: "Behavior \<Rightarrow> path \<Rightarrow> 'w mock \<Rightarrow> 'w mock" where
  "delete_behavior_of_mocked_datapoint b p s = s\<lparr>dsl_mocked := map (\<lambda>d. if p = entry_path d
     then d\<lparr>entry_behaviors := scan_remove (\<lambda>saved. Behavior_eq s saved b) (\<lambda>_ x. beh_id x = beh_id b \<or> Behavior_eq s x b) 0 (entry_behaviors d)\<rparr>
     else d) (dsl_mocked s)\<rparr>"

definition delete_mocked_datapoint :: "path \<Rightarrow> 'w mock \<Rightarrow> 'w mock" where
  "delete_mocked_datapoint p s = s\<lparr>dsl_mocked := scan_remove (\<lambda>d. p = entry_path d) (\<lambda>d e. entry_eq s e d) 0 (dsl_mocked s)\<rparr>"

definition delete_all_mocked_datapoints :: "'w mock \<Rightarrow> 'w mock" where
  "delete_all_mocked_datapoints s = s\<lparr>dsl_mocked := []\<rparr>"

section \<open>The loader\<close>

definition has_supported_type :: "DataType \<Rightarrow> bool" where
  "has_supported_type t \<longleftrightarrow> t \<in> {DT_BOOLEAN, DT_FLOAT, DT_DOUBLE, DT_INT8, DT_UINT8, DT_INT16, DT_UINT16, DT_INT32, DT_UINT32, DT_INT64,
     DT_UINT64, DT_STRING}"

type_synonym mocked_dict = "(path \<times> MockedDataPoint) list"

definition new_datapoint :: "DataPoint \<Rightarrow> 'w mock \<Rightarrow> nat \<times> 'w mock" where
  "new_datapoint d s = (next_ref s, s\<lparr>dps := (dps s)(next_ref s := d), next_ref := Suc (next_ref s)\<rparr>)"

definition new_mocked :: "path \<Rightarrow> DataType option \<Rightarrow> pyvalue \<Rightarrow> bool \<Rightarrow> 'w mock \<Rightarrow> MockedDataPoint \<times> 'w mock" where
  "new_mocked p ty v b s = (case new_datapoint \<lparr> dp_path = p, dp_type = ty, dp_value = v, dp_listener = False \<rparr> s of
     (i, t) \<Rightarrow> (\<lparr> mocked_dp = i, is_mocked = b, mocked_behaviors = [] \<rparr>, t))"

fun load_mocked_datapoints :: "'w client \<Rightarrow> dsl_entry list \<Rightarrow> mocked_dict \<Rightarrow> 'w mock \<Rightarrow> mocked_dict result \<times> 'w mock" where
  "load_mocked_datapoints K [] md s = (Inr md, s)"
| "load_mocked_datapoints K (d # ds) md s = bind_py (client_call (get_metadata K (entry_path d)))
     (\<lambda>ty t. case new_mocked (entry_path d) (Some ty) (entry_initial d) True t of
        (m, u) \<Rightarrow> load_mocked_datapoints K ds (AList.update (entry_path d) m md) u) s"

text \<open>Condition and action are run once, on a datapoint of their own, to find the datapoints they need.\<close>

definition load_behavior :: "'w client \<Rightarrow> numlib \<Rightarrow> path \<Rightarrow> DataType option \<Rightarrow> pyvalue \<Rightarrow> Behavior \<Rightarrow> 'w mock \<Rightarrow> unit result \<times> 'w mock" where
  "load_behavior K N p ty v b = bind_py (is_condition_fulfilled K (beh_condition b))
     (\<lambda>_ s. let tr = (case triggers s (beh_trigger b) of ClockTrigger _ \<Rightarrow> ClockTriggerResult True
           | EventTrigger _ _ \<Rightarrow> EventTriggerResult True (Some \<lparr> ev_name = ''actuator_target'', ev_path = p, ev_value = PNone \<rparr>)) in
        case new_datapoint \<lparr> dp_path = p, dp_type = ty, dp_value = v, dp_listener = False \<rparr> s of
          (j, t) \<Rightarrow> Action_execute K N tr (beh_action b) j t)"

fun load_entries :: "'w client \<Rightarrow> numlib \<Rightarrow> dsl_entry list \<Rightarrow> mocked_dict \<Rightarrow> 'w mock \<Rightarrow> mocked_dict result \<times> 'w mock" where
  "load_entries K N [] md s = (Inr md, s)"
| "load_entries K N (d # ds) md s = bind_py (client_call (get_metadata K (entry_path d)))
     (\<lambda>ty t. case map_of md (entry_path d) of
        None \<Rightarrow> (Inl KeyError, t)
      | Some m \<Rightarrow> if has_supported_type ty
          then bind_py (for_each (load_behavior K N (entry_path d) (dp_type (dps t (mocked_dp m))) (dp_value (dps t (mocked_dp m)))) (entry_behaviors d))
            (\<lambda>_. load_entries K N ds (AList.update (entry_path d) (m\<lparr>mocked_behaviors := entry_behaviors d\<rparr>) md)) t
          else load_entries K N ds md t) s"

fun load_required :: "path list \<Rightarrow> mocked_dict \<Rightarrow> 'w mock \<Rightarrow> mocked_dict \<times> 'w mock" where
  "load_required [] md s = (md, s)"
| "load_required (p # ps) md s = (if p \<in> fst ` set md then load_required ps md s
     else case new_mocked p None PNone False s of (m, t) \<Rightarrow> load_required ps (md @ [(p, m)]) t)"

definition PythonDslLoader_load :: "'w client \<Rightarrow> numlib \<Rightarrow> 'w mock \<Rightarrow> mocked_dict result \<times> 'w mock" where
  "PythonDslLoader_load K N = bind_py (run_script K) (\<lambda>_ s.
     bind_py (load_mocked_datapoints K (dsl_mocked s) []) (\<lambda>md.
       bind_py (load_entries K N (dsl_mocked s) md) (\<lambda>md' t. apfst Inr (load_required (dsl_required t) md' t))) s)"

section \<open>The service\<close>

text \<open>\<open>str.split\<close> with one character, and the address of the broker in the constructor of \<open>BaseService\<close>.\<close>

fun py_split :: "char \<Rightarrow> string \<Rightarrow> string list" where
  "py_split c [] = [[]]"
| "py_split c (x # xs) = (if x = c then [] # py_split c xs else (x # hd (py_split c xs)) # tl (py_split c xs))"

definition BaseService_address :: "environ \<Rightarrow> string \<Rightarrow> (string \<times> string) result" where
  "BaseService_address env databroker_address =
     (let vdb_address = (case env ''DAPR_GRPC_PORT'' of Some grpc_port \<Rightarrow> ''127.0.0.1:'' @ grpc_port | None \<Rightarrow> databroker_address);
        parts = py_split (CHR '':'') vdb_address
      in if length parts < 2 then Inl IndexError else Inr (parts ! 0, parts ! 1))"

definition subscribe_to_mocked_datapoints :: "'w client \<Rightarrow> 'w mock \<Rightarrow> unit result \<times> 'w mock" where
  "subscribe_to_mocked_datapoints K s =
     (if mocked s = [] then (Inr (), s)
      else bind_py (client_call (subscribe_target_values K (map fst (mocked s)))) (\<lambda>_. client_call (subscribe_current_values K (map fst (mocked s)))) s)"

definition set_listeners :: "mocked_dict \<Rightarrow> 'w mock \<Rightarrow> 'w mock" where
  "set_listeners md s = s\<lparr>dps := fold (\<lambda>(p, m) f. f(mocked_dp m := (f (mocked_dp m))\<lparr>dp_listener := True\<rparr>)) md (dps s)\<rparr>"

definition mocks_changed :: "'w mock \<Rightarrow> bool" where
  "mocks_changed s \<longleftrightarrow>
     (if fst ` set (mocked s) \<noteq> set (map entry_path (dsl_mocked s) @ dsl_required s) then True
      else \<exists>d\<in>set (dsl_mocked s). case map_of (mocked s) (entry_path d) of
        None \<Rightarrow> False | Some m \<Rightarrow> \<not> behaviors_eq s (entry_behaviors d) (mocked_behaviors m))"

definition check_for_new_mocks :: "'w client \<Rightarrow> numlib \<Rightarrow> bool \<Rightarrow> 'w mock \<Rightarrow> unit result \<times> 'w mock" where
  "check_for_new_mocks K N changed s =
     (if \<not> (changed \<or> mocks_changed s) then (Inr (), s)
      else bind_py (PythonDslLoader_load K N) (\<lambda>md t.
        bind_py (subscribe_to_mocked_datapoints K) (\<lambda>_ u. (Inr (), u\<lparr>mock_registered := True\<rparr>)) (set_listeners md (t\<lparr>mocked := md\<rparr>))) s)"

definition feed_initial_values :: "'w client \<Rightarrow> 'w mock \<Rightarrow> unit result \<times> 'w mock" where
  "feed_initial_values K s = for_each (\<lambda>(_, m) t. let d = dps t (mocked_dp m) in
     if dp_type d \<noteq> None then set_datapoint K (dp_path d) (dp_value d) t else (Inr (), t)) (mocked s) s"

definition on_databroker_connected :: "'w client \<Rightarrow> numlib \<Rightarrow> 'w mock \<Rightarrow> unit result \<times> 'w mock" where
  "on_databroker_connected K N s =
     (if mock_registered s then (Inr (), s) else bind_py (check_for_new_mocks K N True) (\<lambda>_. feed_initial_values K) s)"

text \<open>The animations of all behaviors, in the order of the dictionary.\<close>

definition tick_behavior :: "'w client \<Rightarrow> rat \<Rightarrow> Behavior \<Rightarrow> 'w mock \<Rightarrow> unit result \<times> 'w mock" where
  "tick_behavior K dt b s = (case actions s (beh_action b) of
       SetAction _ _ \<Rightarrow> (Inr (), s)
     | AnimationAction aa \<Rightarrow> (case aa_animator aa of
         None \<Rightarrow> (Inl AttributeError, s)
       | Some a \<Rightarrow> if anim_done a then (Inr (), s) else ValueAnimator_tick K (beh_action b) aa a dt s))"

definition tick_animations :: "'w client \<Rightarrow> rat \<Rightarrow> 'w mock \<Rightarrow> unit result \<times> 'w mock" where
  "tick_animations K dt s = for_each (\<lambda>(_, m). for_each (tick_behavior K dt) (mocked_behaviors m)) (mocked s) s"

definition now :: "'w client \<Rightarrow> 'w mock \<Rightarrow> rat \<times> 'w mock" where
  "now K s = (case perf_counter K (broker s) of (t, w) \<Rightarrow> (t, s\<lparr>broker := w\<rparr>))"

definition pause :: "'w client \<Rightarrow> rat \<Rightarrow> 'w mock \<Rightarrow> 'w mock" where
  "pause K d s = (case time_sleep K d (broker s) of (us, w) \<Rightarrow> mock_update_request_handler us (s\<lparr>broker := w\<rparr>))"

text \<open>One pass of the loop in \<open>main_loop\<close>, and \<open>n\<close> of them; an exception is logged and ends the loop for good.\<close>

definition main_loop_pass :: "'w client \<Rightarrow> numlib \<Rightarrow> 'w mock \<Rightarrow> unit result \<times> 'w mock" where
  "main_loop_pass K N = bind_py (check_for_new_mocks K N False) (\<lambda>_ s.
     case now K s of (current_tick_time, t) \<Rightarrow> (let delta_time = current_tick_time - last_tick t in
       bind_py (BehaviorExecutor_execute K N delta_time) (\<lambda>_.
         bind_py (tick_animations K delta_time) (\<lambda>_ u.
           case now K u of (x, v) \<Rightarrow> (Inr (), pause K (1 / 10) (v\<lparr>last_tick := x\<rparr>)))) t))"

fun main_loop :: "'w client \<Rightarrow> numlib \<Rightarrow> nat \<Rightarrow> 'w mock \<Rightarrow> unit result \<times> 'w mock" where
  "main_loop K N 0 s = (Inr (), s)"
| "main_loop K N (Suc n) s = bind_py (main_loop_pass K N) (\<lambda>_. main_loop K N n) s"

section \<open>The address of the broker\<close>

lemma py_split_append: "c \<notin> set xs \<Longrightarrow> py_split c (xs @ c # ys) = xs # py_split c ys"
  by (induction xs) auto

lemma py_split_none: "c \<notin> set xs \<Longrightarrow> py_split c xs = [xs]"
  by (induction xs) auto

text \<open>The constructor fails without a port; with one it takes host and port apart again.\<close>

lemma BaseService_address_parts:
  assumes "env ''DAPR_GRPC_PORT'' = None" and "CHR '':'' \<notin> set host" and "CHR '':'' \<notin> set port"
  shows "BaseService_address env (host @ '':'' @ port) = Inr (host, port)" and "BaseService_address env host = Inl IndexError"
  using assms by (simp_all add: BaseService_address_def py_split_append py_split_none)

section \<open>What the operations leave alone\<close>

text \<open>An operation moves the state along \<open>R\<close>, whatever it returns.\<close>

definition moves :: "('s \<Rightarrow> 's \<Rightarrow> bool) \<Rightarrow> ('s \<Rightarrow> 'a \<times> 's) \<Rightarrow> bool" where
  "moves R m \<longleftrightarrow> (\<forall>s. R s (snd (m s)))"

lemma movesD: "moves R m \<Longrightarrow> R s (snd (m s))"
  by (simp add: moves_def)

locale preorder_moves =
  fixes R :: "'s \<Rightarrow> 's \<Rightarrow> bool"
  assumes R_refl [simp]: "R s s" and R_trans: "R s t \<Longrightarrow> R t u \<Longrightarrow> R s u"
begin

lemma moves_bind:
  assumes "moves R m" and "\<And>x. moves R (f x)"
  shows "moves R (bind_py m f)"
  unfolding moves_def
proof
  fix s
  obtain r t where m: "m s = (r, t)" by fastforce
  then have "R s t" using assms(1) by (metis moves_def snd_conv)
  moreover have "R t (snd (f x t))" for x using assms(2) by (simp add: moves_def)
  ultimately show "R s (snd (bind_py m f s))" by (auto simp: bind_py_def m split: sum.splits intro: R_trans)
qed

lemma moves_for_each:
  assumes "\<And>x. x \<in> set xs \<Longrightarrow> moves R (f x)"
  shows "moves R (for_each f xs)"
  using assms
proof (induction xs)
  case (Cons x xs)
  then have "moves R (bind_py (f x) (\<lambda>_. for_each f xs))" by (intro moves_bind) simp_all
  then show ?case by (simp add: moves_def)
qed (simp add: moves_def)

lemma moves_return: "moves R (\<lambda>s. (x, s))"
  by (simp add: moves_def)

lemma moves_if: "moves R m \<Longrightarrow> moves R n \<Longrightarrow> moves R (if b then m else n)"
  by simp

end

text \<open>The configuration, the dictionary of the service and the type of an existing datapoint do not change.\<close>

definition frame :: "'w mock \<Rightarrow> 'w mock \<Rightarrow> bool" where
  "frame s t \<longleftrightarrow> dsl_mocked t = dsl_mocked s \<and> mocked t = mocked s \<and> next_ref s \<le> next_ref t \<and>
     (\<forall>i<next_ref s. dp_type (dps t i) = dp_type (dps s i))"

text \<open>The animation \<open>i\<close> still has no animator.\<close>

definition idle :: "nat \<Rightarrow> 'w mock \<Rightarrow> bool" where
  "idle i s \<longleftrightarrow> (\<exists>aa. actions s i = AnimationAction aa \<and> aa_animator aa = None)"

definition same_actions :: "'w mock \<Rightarrow> 'w mock \<Rightarrow> bool" where
  "same_actions s t \<longleftrightarrow> frame s t \<and> actions t = actions s"

interpretation fr: preorder_moves frame
  by unfold_locales (auto simp: frame_def)

interpretation sa: preorder_moves same_actions
  by unfold_locales (auto simp: same_actions_def frame_def)

lemma moves_frame: "moves same_actions m \<Longrightarrow> moves frame m"
  by (simp add: moves_def same_actions_def)

lemma same_handler [simp]: "same_actions s (mock_update_request_handler us s)"
  by (simp add: same_actions_def frame_def mock_update_request_handler_def)

lemma same_client_call: "moves same_actions (client_call c)"
  by (auto simp: moves_def client_call_def mock_update_request_handler_def same_actions_def frame_def split: prod.splits)

lemma same_set_datapoint:
  fixes K :: "'w client"
  shows "moves same_actions (set_datapoint K p v)"
  unfolding moves_def
proof
  fix s :: "'w mock"
  have "same_actions s (snd (client_call (set_current_values K p v) s))"
    using same_client_call by (auto simp: moves_def)
  then show "same_actions s (snd (set_datapoint K p v s))"
    by (auto simp: set_datapoint_def same_actions_def frame_def split: prod.splits sum.splits py_error.splits)
qed

lemma same_DataPoint_set_value:
  fixes K :: "'w client"
  shows "moves same_actions (DataPoint_set_value K i v)"
  unfolding moves_def
proof
  fix s :: "'w mock"
  let ?t = "s\<lparr>dps := (dps s)(i := (dps s i)\<lparr>dp_value := v\<rparr>)\<rparr>"
  have "same_actions s ?t" by (simp add: same_actions_def frame_def)
  moreover have "same_actions ?t (snd (set_datapoint K (dp_path (dps s i)) v ?t))"
    using same_set_datapoint by (auto simp: moves_def)
  ultimately show "same_actions s (snd (DataPoint_set_value K i v s))"
    by (auto simp: DataPoint_set_value_def Let_def intro: sa.R_trans)
qed

lemma same_get_datapoint_value:
  fixes K :: "'w client"
  shows "moves same_actions (get_datapoint_value K p d)"
  unfolding moves_def
proof
  fix s :: "'w mock"
  let ?t = "if p \<in> set (dsl_required s) then s else s\<lparr>dsl_required := dsl_required s @ [p]\<rparr>"
  have "same_actions s ?t" by (simp add: same_actions_def frame_def)
  moreover have "same_actions ?t (snd (client_call (get_current_values K p) ?t))"
    using same_client_call by (auto simp: moves_def)
  ultimately have "same_actions s (snd (client_call (get_current_values K p) ?t))" by (rule sa.R_trans)
  then show "same_actions s (snd (get_datapoint_value K p d s))"
    by (auto simp: get_datapoint_value_def Let_def split: prod.splits sum.splits)
qed

lemma same_condition: "moves same_actions (is_condition_fulfilled K c)"
  by (induction c) (auto intro: sa.moves_return sa.moves_bind same_get_datapoint_value)

lemma same_Trigger_check: "moves same_actions (Trigger_check i p dt)"
  by (auto simp: moves_def Trigger_check_def same_actions_def frame_def Let_def split: Trigger.splits prod.splits)

lemma same_resolve_value: "moves same_actions (resolve_value K tr j v)"
  using same_get_datapoint_value
  by (auto simp: moves_def resolve_value_def split: pyvalue.splits TriggerResult.splits option.splits)

text \<open>The action \<open>i\<close> is left alone.\<close>

definition same_at :: "nat \<Rightarrow> 'w mock \<Rightarrow> 'w mock \<Rightarrow> bool" where
  "same_at i s t \<longleftrightarrow> frame s t \<and> actions t i = actions s i"

interpretation at: preorder_moves "same_at i" for i
  by unfold_locales (auto simp: same_at_def frame_def)

lemma moves_same_at: "moves same_actions m \<Longrightarrow> moves (same_at i) m"
  by (simp add: moves_def same_actions_def same_at_def)

lemma moves_frame_at: "(\<And>i. i \<noteq> k \<Longrightarrow> moves (same_at i) m) \<Longrightarrow> moves frame m"
  unfolding moves_def same_at_def by (metis n_not_Suc_n)

lemma at_set_resolved: "i \<noteq> k \<Longrightarrow> same_at i s (set_resolved k n v s)"
  by (auto simp: same_at_def frame_def set_resolved_def split: Action.splits)

lemma at_resolve_target_values:
  fixes K :: "'w client"
  assumes i: "i \<noteq> k"
  shows "moves (same_at i) (resolve_target_values K tr j k vs)"
  unfolding resolve_target_values_def
proof (rule at.moves_for_each)
  fix x :: "nat \<times> pyvalue"
  obtain n v where x: "x = (n, v)" by fastforce
  have "moves (same_at i) (\<lambda>s :: 'w mock. (Inr (), set_resolved k n y s))" for y using i by (simp add: moves_def at_set_resolved)
  then show "moves (same_at i) ((\<lambda>(n, v). bind_py (resolve_value K tr j v) (\<lambda>x s. (Inr (), set_resolved k n x s))) x)"
    unfolding x prod.case by (intro at.moves_bind moves_same_at [OF same_resolve_value])
qed

lemma at_create_animator: "i \<noteq> k \<Longrightarrow> moves (same_at i) (create_animator N k j)"
  by (auto simp: moves_def create_animator_def same_at_def frame_def split: Action.splits sum.splits)

lemma at_Action_execute:
  assumes "i \<noteq> k"
  shows "moves (same_at i) (Action_execute K N tr k j)"
proof -
  have set: "moves (same_at i) (bind_py (if r then resolve_value K tr j v else (\<lambda>t. (Inr v, t)))
      (\<lambda>x t. if x = PNone then (Inr (), t) else DataPoint_set_value K j x t))" for r v
    by (intro at.moves_bind at.moves_if at.moves_return moves_same_at [OF same_resolve_value])
      (simp add: moves_def movesD [OF moves_same_at [OF same_DataPoint_set_value]])
  have anim: "moves (same_at i) (bind_py (if r then resolve_target_values K tr j k vs else (\<lambda>t. (Inr (), t))) (\<lambda>_. create_animator N k j))"
    for r vs
    using assms by (intro at.moves_bind at.moves_if at.moves_return at_resolve_target_values at_create_animator)
  show ?thesis using set anim by (auto simp: moves_def Action_execute_def split: Action.splits)
qed

lemma frame_Action_execute: "moves frame (Action_execute K N tr k j)"
  by (rule moves_frame_at [OF at_Action_execute])

lemma frame_run_behaviors:
  fixes K :: "'w client"
  shows "moves frame (run_behaviors K N p j dt bs)"
proof (induction bs)
  case (Cons b bs)
  show ?case
    unfolding moves_def
  proof
    fix s :: "'w mock"
    obtain r t where c: "is_condition_fulfilled K (beh_condition b) s = (r, t)" by fastforce
    obtain tr u where k: "Trigger_check (beh_trigger b) p dt t = (tr, u)" by fastforce
    have t: "frame s t" using movesD [OF moves_frame [OF same_condition], of s K "beh_condition b"] c by simp
    have "frame t u" using movesD [OF moves_frame [OF same_Trigger_check], of t "beh_trigger b" p dt] k by simp
    with t have u: "frame s u" by (rule fr.R_trans)
    show "frame s (snd (run_behaviors K N p j dt (b # bs) s))"
      using t fr.R_trans [OF t movesD [OF Cons]] fr.R_trans [OF u movesD [OF Cons]] fr.R_trans [OF u movesD [OF frame_Action_execute]]
      by (auto simp: bind_py_def c k split: sum.splits)
  qed
qed (simp add: moves_def)

text \<open>An animation of a datapoint with a discrete type never gets an animator.\<close>

lemma idle_Action_execute:
  assumes "idle i s" and "k = i \<Longrightarrow> has_discrete_value_type (dps s j)"
  shows "idle i (snd (Action_execute K N tr k j s))"
proof (cases "k = i")
  case True
  then show ?thesis using assms by (auto simp: Action_execute_def idle_def)
next
  case False
  then have "i \<noteq> k" by simp
  from movesD [OF at_Action_execute [OF this]] have "same_at i s (snd (Action_execute K N tr k j s))" .
  then show ?thesis using assms(1) by (simp add: same_at_def idle_def)
qed

lemma at_tick_behavior: "beh_action b \<noteq> i \<Longrightarrow> moves (same_at i) (tick_behavior K dt b)"
proof -
  assume b: "beh_action b \<noteq> i"
  have "same_at i s (snd (ValueAnimator_tick K (beh_action b) aa a dt s))" for s aa a
  proof -
    let ?t = "s\<lparr>actions := (actions s)(beh_action b := AnimationAction (aa\<lparr>aa_animator := Some (ValueAnimator_advance dt a)\<rparr>))\<rparr>"
    have "same_at i s ?t" using b by (simp add: same_at_def frame_def)
    moreover have "same_at i ?t (snd (DataPoint_set_value K j v ?t))" for j v
      by (rule movesD [OF moves_same_at [OF same_DataPoint_set_value]])
    ultimately show ?thesis by (auto simp: ValueAnimator_tick_def Let_def split: option.splits intro: at.R_trans)
  qed
  then show ?thesis by (auto simp: moves_def tick_behavior_def split: Action.splits option.splits)
qed

section \<open>Animations of discrete datapoints\<close>

text \<open>A loop raises an exception if one element does, in all states that the other elements keep.\<close>

lemma for_each_raises:
  assumes "x \<in> set xs" and "P s" and "\<And>s. P s \<Longrightarrow> \<exists>e. fst (f x s) = Inl e" and "\<And>y s. y \<in> set xs \<Longrightarrow> P s \<Longrightarrow> P (snd (f y s))"
  shows "\<exists>e. fst (for_each f xs s) = Inl e"
  using assms
proof (induction xs arbitrary: s)
  case (Cons y ys)
  obtain r t where r: "f y s = (r, t)" by fastforce
  have t: "P t" using Cons.prems(4) [of y s] Cons.prems(2) r by simp
  show ?case
  proof (cases r)
    case (Inr u)
    have "x \<in> set ys" using Cons.prems(1) Cons.prems(3) [OF Cons.prems(2)] r Inr by auto
    then show ?thesis using Cons.IH [OF _ t] Cons.prems(3,4) r Inr by (simp add: bind_py_def)
  qed (simp add: bind_py_def r)
qed simp

lemma for_each_keeps:
  assumes "P s" and "\<And>y s. y \<in> set xs \<Longrightarrow> P s \<Longrightarrow> P (snd (f y s))"
  shows "P (snd (for_each f xs s))"
  using assms
proof (induction xs arbitrary: s)
  case (Cons y ys)
  obtain r t where r: "f y s = (r, t)" by fastforce
  then have "P t" using Cons.prems(2) [of y s] Cons.prems(1) by simp
  then show ?case using Cons.IH [of t] Cons.prems(2) r by (cases r) (simp_all add: bind_py_def)
qed simp

text \<open>The animation \<open>i\<close> has no animator and belongs to discrete datapoints only, which are those of the dictionary \<open>md\<close>.\<close>

definition discrete_only :: "nat \<Rightarrow> mocked_dict \<Rightarrow> 'w mock \<Rightarrow> bool" where
  "discrete_only i md s \<longleftrightarrow> idle i s \<and> (\<forall>(p, m)\<in>set md. mocked_dp m < next_ref s \<and>
     (\<forall>b\<in>set (mocked_behaviors m). beh_action b = i \<longrightarrow> has_discrete_value_type (dps s (mocked_dp m))))"

lemma discrete_only_frame:
  assumes "discrete_only i md s" and "frame s t" and "idle i t"
  shows "discrete_only i md t"
  using assms unfolding discrete_only_def frame_def has_discrete_value_type_def by fastforce

lemma discrete_only_same: "discrete_only i md s \<Longrightarrow> same_actions s t \<Longrightarrow> discrete_only i md t"
  using discrete_only_frame [of i md s t] by (simp add: same_actions_def discrete_only_def idle_def)

lemma discrete_run_behaviors:
  assumes "discrete_only i md s" and "(p, m) \<in> set md" and "set bs \<subseteq> set (mocked_behaviors m)"
  shows "discrete_only i md (snd (run_behaviors K N q (mocked_dp m) dt bs s))"
  using assms(1,3)
proof (induction bs arbitrary: s)
  case (Cons b bs)
  obtain r t where c: "is_condition_fulfilled K (beh_condition b) s = (r, t)" by fastforce
  have t: "discrete_only i md t"
    using discrete_only_same [OF Cons.prems(1) movesD [OF same_condition]] c by (metis snd_conv)
  obtain tr u where k: "Trigger_check (beh_trigger b) q dt t = (tr, u)" by fastforce
  have u: "discrete_only i md u"
    using discrete_only_same [OF t movesD [OF same_Trigger_check]] k by (metis snd_conv)
  have "discrete_only i md (snd (Action_execute K N tr (beh_action b) (mocked_dp m) u))"
  proof (rule discrete_only_frame [OF u])
    show "frame u (snd (Action_execute K N tr (beh_action b) (mocked_dp m) u))"
      by (rule movesD [OF frame_Action_execute])
    show "idle i (snd (Action_execute K N tr (beh_action b) (mocked_dp m) u))"
      using u assms(2) Cons.prems(2) by (intro idle_Action_execute) (auto simp: discrete_only_def)
  qed
  then show ?case
    using Cons.IH [OF t] Cons.IH [OF u] Cons.prems(2) t by (auto simp: bind_py_def c k split: sum.splits)
qed simp

lemma idle_tick_raises:
  assumes "idle i s" and "(p, m) \<in> set md" and "b \<in> set (mocked_behaviors m)" and "beh_action b = i"
  shows "\<exists>e. fst (for_each (\<lambda>(_, m). for_each (tick_behavior K dt) (mocked_behaviors m)) md s) = Inl e"
proof -
  have stuck: "\<exists>e. tick_behavior K dt c t = (Inl e, t)" if "idle i t" "beh_action c = i" for c t
    using that by (auto simp: tick_behavior_def idle_def)
  have keep: "idle i (snd (tick_behavior K dt c t))" if "idle i t" for c t
  proof (cases "beh_action c = i")
    case True
    then show ?thesis using stuck [OF that True] that by auto
  next
    case False
    from movesD [OF at_tick_behavior [OF this]] have "same_at i t (snd (tick_behavior K dt c t))" .
    then show ?thesis using that by (simp add: same_at_def idle_def)
  qed
  have inner: "\<exists>e. fst (for_each (tick_behavior K dt) (mocked_behaviors m) t) = Inl e" if "idle i t" for t
    using assms(3,4) that stuck keep by (intro for_each_raises [where x = b and P = "idle i"]) (auto, metis fst_conv)
  show ?thesis
    using assms(1,2) inner for_each_keeps [where P = "idle i" and f = "tick_behavior K dt", OF _ keep]
    by (intro for_each_raises [where x = "(p, m)" and P = "idle i"]) auto
qed

lemma discrete_animation_raises:
  fixes s :: "'w mock"
  assumes "\<not> mocks_changed s" and "discrete_only i (mocked s) s" and "(p, m) \<in> set (mocked s)" and "b \<in> set (mocked_behaviors m)"
    and "beh_action b = i"
  shows "\<exists>e. fst (main_loop_pass K N s) = Inl e"
proof -
  obtain x t where n: "now K s = (x, t)" by fastforce
  then have st: "same_actions s t" by (auto simp: now_def same_actions_def frame_def split: prod.splits)
  let ?dt = "x - last_tick t" and ?P = "\<lambda>u. discrete_only i (mocked s) u \<and> mocked u = mocked s"
  let ?f = "\<lambda>(p, m). run_behaviors K N p (mocked_dp m) (x - last_tick t) (mocked_behaviors m)"
  obtain r u where e: "BehaviorExecutor_execute K N ?dt t = (r, u)" by fastforce
  have m: "mocked t = mocked s" using st by (simp add: same_actions_def frame_def)
  have "?P (snd (for_each ?f (mocked s) t))"
  proof (rule for_each_keeps)
    show "?P t" using discrete_only_same [OF assms(2) st] m by simp
    fix y :: "path \<times> MockedDataPoint" and u :: "'w mock"
    assume y: "y \<in> set (mocked s)" and P: "?P u"
    obtain q n where q: "y = (q, n)" by fastforce
    have "frame u (snd (?f y u))" using movesD [OF frame_run_behaviors] by (simp add: q)
    then show "?P (snd (?f y u))" using P y discrete_run_behaviors [of i "mocked s" u q n "mocked_behaviors n"]
      by (simp add: q frame_def)
  qed
  then have u: "discrete_only i (mocked s) u" "mocked u = mocked s" using e m by (simp_all add: BehaviorExecutor_execute_def)
  have "\<exists>e. fst (tick_animations K ?dt u) = Inl e"
    unfolding tick_animations_def u(2) using u(1) assms(3-5) by (intro idle_tick_raises [where i = i]) (auto simp: discrete_only_def)
  then show ?thesis
    using assms(1) n e
    by (cases r) (auto simp: main_loop_pass_def check_for_new_mocks_def bind_py_def Let_def split: prod.splits sum.splits)
qed

section \<open>What the loader makes of a configuration\<close>

lemma same_new_mocked: "new_mocked p ty v b s = (m, t) \<Longrightarrow> same_actions s t"
  by (auto simp: new_mocked_def new_datapoint_def same_actions_def frame_def)

lemma new_mocked_fields:
  assumes "new_mocked p ty v b s = (m, t)"
  shows "mocked_behaviors m = []" "mocked_dp m < next_ref t" "dp_type (dps t (mocked_dp m)) = ty" "dsl_required t = dsl_required s"
  using assms by (auto simp: new_mocked_def new_datapoint_def)

lemma client_call_required: "client_call c s = (r, t) \<Longrightarrow> dsl_required t = dsl_required s"
  by (auto simp: client_call_def mock_update_request_handler_def split: prod.splits)

lemma same_client_call': "client_call c s = (r, t) \<Longrightarrow> same_actions s t"
  using movesD [OF same_client_call, of s c] by simp

lemma frame_load_behavior:
  fixes K :: "'w client"
  shows "moves frame (load_behavior K N p ty v b)"
  unfolding load_behavior_def
proof (rule fr.moves_bind [OF moves_frame [OF same_condition]])
  have "frame s (snd (new_datapoint d s))" for d and s :: "'w mock" by (simp add: new_datapoint_def frame_def)
  then show "moves frame (\<lambda>s. let tr = (case triggers s (beh_trigger b) of ClockTrigger _ \<Rightarrow> ClockTriggerResult True
           | EventTrigger _ _ \<Rightarrow> EventTriggerResult True (Some \<lparr> ev_name = ''actuator_target'', ev_path = p, ev_value = PNone \<rparr>)) in
        case new_datapoint \<lparr> dp_path = p, dp_type = ty, dp_value = v, dp_listener = False \<rparr> s of
          (j, t) \<Rightarrow> Action_execute K N tr (beh_action b) j t)"
    unfolding moves_def Let_def case_prod_unfold by (simp add: fr.R_trans [OF _ movesD [OF frame_Action_execute]])
qed

lemma frame_load_behaviors:
  assumes "for_each (load_behavior K N p ty v) bs s = (r, t)"
  shows "frame s t"
proof -
  have "moves frame (for_each (load_behavior K N p ty v) bs)" by (intro fr.moves_for_each frame_load_behavior)
  from movesD [OF this, of s] show ?thesis using assms by simp
qed

lemma idle_load_behavior:
  assumes "idle i s" and "beh_action b = i \<Longrightarrow> ty = Some DT_BOOLEAN \<or> ty = Some DT_STRING"
  shows "idle i (snd (load_behavior K N p ty v b s))"
proof -
  obtain r t where c: "is_condition_fulfilled K (beh_condition b) s = (r, t)" by fastforce
  have "idle i t" using movesD [OF same_condition, of s K "beh_condition b"] c assms(1) by (simp add: same_actions_def idle_def)
  then show ?thesis
    using assms(2)
    by (auto simp: load_behavior_def bind_py_def c Let_def new_datapoint_def has_discrete_value_type_def idle_def [of i "_\<lparr>next_ref := _\<rparr>"]
        split: sum.splits intro!: idle_Action_execute) (simp_all add: idle_def)
qed

text \<open>The dictionary holds existing datapoints, of the types \<open>ty\<close> that the broker reports.\<close>

definition dict_ok :: "(path \<Rightarrow> DataType) \<Rightarrow> mocked_dict \<Rightarrow> 'w mock \<Rightarrow> bool" where
  "dict_ok ty md s \<longleftrightarrow> distinct (map fst md) \<and> (\<forall>(p, m)\<in>set md. mocked_dp m < next_ref s \<and> dp_type (dps s (mocked_dp m)) = Some (ty p))"

lemma dict_ok_frame: "dict_ok ty md s \<Longrightarrow> frame s t \<Longrightarrow> dict_ok ty md t"
  by (fastforce simp: dict_ok_def frame_def)

lemma set_update_cases: "distinct (map fst md) \<Longrightarrow> x \<in> set (AList.update p m md) \<Longrightarrow> x = (p, m) \<or> x \<in> set md"
  using distinct_update [of md p m]
  by (cases x) (auto simp: update_conv dest!: map_of_is_SomeI [rotated] split: if_splits dest: map_of_SomeD)

lemma map_of_update_other: "q \<noteq> p \<Longrightarrow> map_of (AList.update p m md) q = map_of md q"
  by (simp add: update_conv')

lemma dict_ok_update:
  assumes "dict_ok ty md s" and "mocked_dp m < next_ref s" and "dp_type (dps s (mocked_dp m)) = Some (ty p)"
  shows "dict_ok ty (AList.update p m md) s"
  using assms distinct_update [of md p m] set_update_cases [of md _ p m] by (fastforce simp: dict_ok_def)

text \<open>A broker that reports a type for every path, always the same.\<close>

locale typed_client =
  fixes K :: "'w client" and ty :: "path \<Rightarrow> DataType"
  assumes metadata: "\<exists>us w'. get_metadata K p w = (Inr (ty p), us, w')"
begin

lemma metadata_call:
  obtains t where "client_call (get_metadata K p) s = (Inr (ty p), t)" and "same_actions s t" and "dsl_required t = dsl_required s"
proof -
  obtain us w' where "get_metadata K p (broker s) = (Inr (ty p), us, w')" using metadata by blast
  then have "client_call (get_metadata K p) s = (Inr (ty p), snd (client_call (get_metadata K p) s))" by (simp add: client_call_def)
  then show thesis using that same_client_call' client_call_required by blast
qed

lemma load_mocked_datapoints_spec:
  assumes "dict_ok ty md s" and "load_mocked_datapoints K ds md s = (r, t)"
  shows "\<exists>md'. r = Inr md' \<and> dict_ok ty md' t \<and> same_actions s t \<and> fst ` set md' = fst ` set md \<union> entry_path ` set ds \<and>
    ((\<forall>x\<in>set md. mocked_behaviors (snd x) = []) \<longrightarrow> (\<forall>x\<in>set md'. mocked_behaviors (snd x) = []))"
  using assms
proof (induction ds arbitrary: md s)
  case (Cons d ds)
  obtain u where u: "client_call (get_metadata K (entry_path d)) s = (Inr (ty (entry_path d)), u)" "same_actions s u"
    using metadata_call .
  obtain m v where v: "new_mocked (entry_path d) (Some (ty (entry_path d))) (entry_initial d) True u = (m, v)" by fastforce
  have sv: "same_actions s v" using u(2) same_new_mocked [OF v] by (rule sa.R_trans)
  let ?md = "AList.update (entry_path d) m md"
  have ok: "dict_ok ty ?md v"
    using dict_ok_update [OF dict_ok_frame [OF Cons.prems(1)]] sv new_mocked_fields [OF v] by (simp add: same_actions_def)
  have run: "load_mocked_datapoints K ds ?md v = (r, t)" using Cons.prems(2) u(1) v by (simp add: bind_py_def)
  have keys: "fst ` set ?md = insert (entry_path d) (fst ` set md)" by (simp add: dom_update)
  have "mocked_behaviors (snd x) = []" if "x \<in> set ?md" and "\<forall>x\<in>set md. mocked_behaviors (snd x) = []" for x
    using set_update_cases [OF _ that(1)] that(2) Cons.prems(1) new_mocked_fields(1) [OF v] by (auto simp: dict_ok_def)
  then show ?case using Cons.IH [OF ok run] keys sa.R_trans [OF sv] by auto
qed auto

lemma load_entries_spec:
  assumes "dict_ok ty md s" and "distinct (map entry_path ds)" and "load_entries K N ds md s = (Inr md', t)"
  shows "dict_ok ty md' t \<and> frame s t \<and> fst ` set md' = fst ` set md \<and>
    (\<forall>p. p \<notin> entry_path ` set ds \<longrightarrow> map_of md' p = map_of md p) \<and>
    (\<forall>d\<in>set ds. \<exists>m m'. map_of md (entry_path d) = Some m \<and> map_of md' (entry_path d) = Some m' \<and> mocked_behaviors m' =
       (if has_supported_type (ty (entry_path d)) then entry_behaviors d else mocked_behaviors m))"
  using assms
proof (induction ds arbitrary: md s)
  case (Cons d ds)
  let ?p = "entry_path d"
  obtain u where u: "client_call (get_metadata K ?p) s = (Inr (ty ?p), u)" "same_actions s u" using metadata_call .
  from Cons.prems(3) u obtain m where m: "map_of md ?p = Some m" by (auto simp: bind_py_def split: option.splits)
  have ok: "dict_ok ty md u" using dict_ok_frame [OF Cons.prems(1)] u(2) by (simp add: same_actions_def)
  have su: "frame s u" using u(2) by (simp add: same_actions_def)
  show ?case
  proof (cases "has_supported_type (ty ?p)")
    case True
    let ?md = "AList.update ?p (m\<lparr>mocked_behaviors := entry_behaviors d\<rparr>) md"
    obtain r v where v: "for_each (load_behavior K N ?p (dp_type (dps u (mocked_dp m))) (dp_value (dps u (mocked_dp m)))) (entry_behaviors d) u = (r, v)"
      by fastforce
    have uv: "frame u v" using v by (rule frame_load_behaviors)
    have run: "load_entries K N ds ?md v = (Inr md', t)"
      using Cons.prems(3) u(1) m True v by (cases r) (simp_all add: bind_py_def)
    have "(?p, m) \<in> set md" using m by (rule map_of_SomeD)
    then have okv: "dict_ok ty ?md v"
      using dict_ok_frame [OF ok uv] by (intro dict_ok_update) (auto simp: dict_ok_def)
    have keys: "fst ` set ?md = fst ` set md" using \<open>(?p, m) \<in> set md\<close> by (auto simp: dom_update intro: rev_image_eqI)
    note IH = Cons.IH [OF okv _ run]
    let ?Q = "\<lambda>md e. \<exists>m m'. map_of md (entry_path e) = Some m \<and> map_of md' (entry_path e) = Some m' \<and> mocked_behaviors m' =
        (if has_supported_type (ty (entry_path e)) then entry_behaviors e else mocked_behaviors m)"
    have "?Q md e" if "e \<in> set (d # ds)" for e
    proof (cases "e \<in> set ds")
      case True
      then have "?Q ?md e" using IH Cons.prems(2) by auto
      moreover have "entry_path e \<noteq> ?p" using True Cons.prems(2) by (metis distinct.simps(2) image_eqI list.map(2) list.set_map)
      then have "map_of ?md (entry_path e) = map_of md (entry_path e)" by (rule map_of_update_other)
      ultimately show ?thesis by simp
    next
      case False
      then show ?thesis using that IH Cons.prems(2) m True by (auto simp: update_conv')
    qed
    then show ?thesis
      using IH Cons.prems(2) keys fr.R_trans [OF fr.R_trans [OF su uv]] by (auto simp: update_conv')
  next
    case False
    then have run: "load_entries K N ds md u = (Inr md', t)" using Cons.prems(3) u(1) m by (simp add: bind_py_def)
    note IH = Cons.IH [OF ok _ run]
    then show ?thesis using Cons.prems(2) m False fr.R_trans [OF su] by auto
  qed
qed simp

lemma load_entries_idle:
  assumes "dict_ok ty md s" and "idle i s" and "\<forall>d\<in>set ds. \<forall>b\<in>set (entry_behaviors d). beh_action b = i \<longrightarrow> ty (entry_path d) \<in> {DT_BOOLEAN, DT_STRING}"
  shows "idle i (snd (load_entries K N ds md s))"
  using assms
proof (induction ds arbitrary: md s)
  case (Cons d ds)
  let ?p = "entry_path d"
  obtain u where u: "client_call (get_metadata K ?p) s = (Inr (ty ?p), u)" "same_actions s u" using metadata_call .
  have ok: "dict_ok ty md u" and iu: "idle i u"
    using dict_ok_frame [OF Cons.prems(1)] Cons.prems(2) u(2) by (simp_all add: same_actions_def idle_def)
  show ?case
  proof (cases "map_of md ?p")
    case (Some m)
    let ?ty = "dp_type (dps u (mocked_dp m))" and ?md = "AList.update ?p (m\<lparr>mocked_behaviors := entry_behaviors d\<rparr>) md"
    have m: "mocked_dp m < next_ref u" "?ty = Some (ty ?p)" using ok map_of_SomeD [OF Some] by (auto simp: dict_ok_def)
    obtain r v where v: "for_each (load_behavior K N ?p ?ty (dp_value (dps u (mocked_dp m)))) (entry_behaviors d) u = (r, v)" by fastforce
    have "idle i (snd (for_each (load_behavior K N ?p ?ty (dp_value (dps u (mocked_dp m)))) (entry_behaviors d) u))"
      using iu Cons.prems(3) m(2) by (intro for_each_keeps [where P = "idle i"]) (auto intro: idle_load_behavior)
    then have iv: "idle i v" using v by simp
    have "frame u v" using v by (rule frame_load_behaviors)
    then have "dict_ok ty md v" "mocked_dp m < next_ref v" "dp_type (dps v (mocked_dp m)) = Some (ty ?p)"
      using dict_ok_frame [OF ok] m by (auto simp: frame_def)
    then have "dict_ok ty ?md v" by (intro dict_ok_update) simp_all
    then show ?thesis
      using Cons.IH [OF ok iu] Cons.IH [OF _ iv] Cons.prems(3) iv u(1) v Some by (auto simp: bind_py_def split: sum.splits)
  qed (use u(1) iu in \<open>simp add: bind_py_def\<close>)
qed simp

end

lemma load_required_spec:
  assumes "load_required ps md s = (md', t)" and "distinct (map fst md)"
  shows "same_actions s t \<and> dsl_required t = dsl_required s \<and> distinct (map fst md') \<and> fst ` set md' = fst ` set md \<union> set ps \<and>
    (\<forall>x\<in>set md'. x \<in> set md \<or> mocked_behaviors (snd x) = [] \<and> mocked_dp (snd x) < next_ref t) \<and> set md \<subseteq> set md'"
  using assms
proof (induction ps arbitrary: md s)
  case (Cons p ps)
  show ?case
  proof (cases "p \<in> fst ` set md")
    case True
    then show ?thesis using Cons by auto
  next
    case False
    obtain m u where u: "new_mocked p None PNone False s = (m, u)" by fastforce
    have run: "load_required ps (md @ [(p, m)]) u = (md', t)" using Cons.prems(1) False u by simp
    have "distinct (map fst (md @ [(p, m)]))" using Cons.prems(2) False by auto
    note IH = Cons.IH [OF run this]
    then have "next_ref u \<le> next_ref t" by (simp add: same_actions_def frame_def)
    moreover have "same_actions s t" using sa.R_trans [OF same_new_mocked [OF u]] IH by blast
    ultimately show ?thesis using IH new_mocked_fields [OF u] by auto
  qed
qed simp

text \<open>A completed load: what the dictionary holds, with the configuration as the script left it.\<close>

lemma load_spec:
  assumes "typed_client K ty" and "run_script K s = (Inr (), s1)" and "distinct (map entry_path (dsl_mocked s1))"
    and "PythonDslLoader_load K N s = (Inr md, t)"
  shows "dsl_mocked t = dsl_mocked s1" and "distinct (map fst md)" and "fst ` set md = entry_path ` set (dsl_mocked t) \<union> set (dsl_required t)"
    and "\<And>d. d \<in> set (dsl_mocked t) \<Longrightarrow> \<exists>m. map_of md (entry_path d) = Some m \<and>
      mocked_behaviors m = (if has_supported_type (ty (entry_path d)) then entry_behaviors d else [])"
    and "\<And>p m. (p, m) \<in> set md \<Longrightarrow> mocked_dp m < next_ref t \<and> (mocked_behaviors m \<noteq> [] \<longrightarrow>
      p \<in> entry_path ` set (dsl_mocked t) \<and> dp_type (dps t (mocked_dp m)) = Some (ty p))"
proof -
  have empty: "dict_ok ty [] s1" by (simp add: dict_ok_def)
  obtain r u where u: "load_mocked_datapoints K (dsl_mocked s1) [] s1 = (r, u)" by fastforce
  from typed_client.load_mocked_datapoints_spec [OF assms(1) empty u] obtain md1 where
    md1: "r = Inr md1" "dict_ok ty md1 u" "same_actions s1 u" "fst ` set md1 = entry_path ` set (dsl_mocked s1)"
      "\<forall>x\<in>set md1. mocked_behaviors (snd x) = []" by auto
  obtain q v where v: "load_entries K N (dsl_mocked s1) md1 u = (q, v)" by fastforce
  then obtain md2 where md2: "q = Inr md2" using assms(2,4) u md1(1) by (cases q) (auto simp: PythonDslLoader_load_def bind_py_def)
  note e = typed_client.load_entries_spec [OF assms(1) md1(2) assms(3), of N md2 v]
  have e: "dict_ok ty md2 v" "frame u v" "fst ` set md2 = fst ` set md1"
    "\<forall>d\<in>set (dsl_mocked s1). \<exists>m m'. map_of md1 (entry_path d) = Some m \<and> map_of md2 (entry_path d) = Some m' \<and> mocked_behaviors m' =
       (if has_supported_type (ty (entry_path d)) then entry_behaviors d else mocked_behaviors m)"
    using e v md2 by simp_all
  have run: "load_required (dsl_required v) md2 v = (md, t)"
    using assms(2,4) u v md1(1) md2 by (auto simp: PythonDslLoader_load_def bind_py_def apfst_def map_prod_def split: prod.splits)
  have "distinct (map fst md2)" using e(1) by (simp add: dict_ok_def)
  note q = load_required_spec [OF run this]
  show dsl: "dsl_mocked t = dsl_mocked s1" using q md1(3) e(2) by (simp add: same_actions_def frame_def)
  show d: "distinct (map fst md)" using q by blast
  show "fst ` set md = entry_path ` set (dsl_mocked t) \<union> set (dsl_required t)" using q e(3) md1(4) dsl by simp
  have keep: "map_of md p = Some m" if "map_of md2 p = Some m" for p m
  proof -
    have "(p, m) \<in> set md" using q map_of_SomeD [OF that] by blast
    then show ?thesis using d by (intro map_of_is_SomeI)
  qed
  show "\<exists>m. map_of md (entry_path x) = Some m \<and> mocked_behaviors m = (if has_supported_type (ty (entry_path x)) then entry_behaviors x else [])"
    if "x \<in> set (dsl_mocked t)" for x
    using e(4) that dsl keep md1(5) by (fastforce dest: map_of_SomeD)
  show "mocked_dp m < next_ref t \<and> (mocked_behaviors m \<noteq> [] \<longrightarrow>
      p \<in> entry_path ` set (dsl_mocked t) \<and> dp_type (dps t (mocked_dp m)) = Some (ty p))" if pm: "(p, m) \<in> set md" for p m
  proof (cases "(p, m) \<in> set md2")
    case True
    then have "p \<in> fst ` set md2" by (auto intro: rev_image_eqI)
    then have "p \<in> entry_path ` set (dsl_mocked s1)" using e(3) md1(4) by simp
    moreover have "mocked_dp m < next_ref v" "dp_type (dps v (mocked_dp m)) = Some (ty p)" using e(1) True by (auto simp: dict_ok_def)
    ultimately show ?thesis using q dsl by (auto simp: same_actions_def frame_def)
  next
    case False
    then show ?thesis using q pm by fastforce
  qed
qed

lemma load_idle:
  assumes "typed_client K ty" and "run_script K s = (Inr (), s1)" and "PythonDslLoader_load K N s = (Inr md, t)" and "idle i s1"
    and "\<forall>d\<in>set (dsl_mocked s1). \<forall>b\<in>set (entry_behaviors d). beh_action b = i \<longrightarrow> ty (entry_path d) \<in> {DT_BOOLEAN, DT_STRING}"
  shows "idle i t"
proof -
  have empty: "dict_ok ty [] s1" by (simp add: dict_ok_def)
  obtain r u where u: "load_mocked_datapoints K (dsl_mocked s1) [] s1 = (r, u)" by fastforce
  from typed_client.load_mocked_datapoints_spec [OF assms(1) empty u] obtain md1 where
    md1: "r = Inr md1" "dict_ok ty md1 u" "same_actions s1 u" by auto
  then have "idle i u" using assms(4) by (simp add: same_actions_def idle_def)
  from typed_client.load_entries_idle [OF assms(1) md1(2) this assms(5), of N]
  have v: "idle i (snd (load_entries K N (dsl_mocked s1) md1 u))" .
  obtain md2 v where e: "load_entries K N (dsl_mocked s1) md1 u = (Inr md2, v)" "(md, t) = load_required (dsl_required v) md2 v"
    using assms(2,3) u md1(1)
    by (auto simp: PythonDslLoader_load_def bind_py_def apfst_def map_prod_def split: prod.splits sum.splits)
  have "same_actions v t"
  proof -
    have "moves same_actions (\<lambda>s. load_required ps md s)" for ps :: "path list" and md
      by (induction ps arbitrary: md)
        (auto simp: moves_def split: prod.splits intro: sa.R_trans [OF same_new_mocked])
    from movesD [OF this, of v "dsl_required v" md2] show ?thesis using e(2) by (metis snd_conv)
  qed
  then show ?thesis using v e(1) by (simp add: same_actions_def idle_def)
qed

lemma same_set_listeners: "same_actions s (set_listeners md s)"
proof -
  have "dp_type (fold (\<lambda>(p, m) f. f(mocked_dp m := (f (mocked_dp m))\<lparr>dp_listener := True\<rparr>)) md g i) = dp_type (g i)" for g :: "nat \<Rightarrow> DataPoint" and i
    by (induction md arbitrary: g) auto
  then show ?thesis by (simp add: set_listeners_def same_actions_def frame_def)
qed

lemma set_listeners_required [simp]: "dsl_required (set_listeners md s) = dsl_required s"
  by (simp add: set_listeners_def)

lemma same_subscribe:
  assumes "subscribe_to_mocked_datapoints K s = (r, t)"
  shows "same_actions s t" and "dsl_required t = dsl_required s"
proof -
  obtain q u where u: "client_call (subscribe_target_values K (map fst (mocked s))) s = (q, u)" by fastforce
  obtain p v where v: "client_call (subscribe_current_values K (map fst (mocked s))) u = (p, v)" by fastforce
  have "same_actions s u" "same_actions s v" "dsl_required u = dsl_required s" "dsl_required v = dsl_required s"
    using same_client_call' [OF u] sa.R_trans [OF same_client_call' [OF u] same_client_call' [OF v]] client_call_required [OF u]
      client_call_required [OF v] by simp_all
  then show "same_actions s t" "dsl_required t = dsl_required s"
    using assms by (auto simp: subscribe_to_mocked_datapoints_def bind_py_def u v split: if_splits sum.splits)
qed

lemma check_for_new_mocks_done:
  assumes "check_for_new_mocks K N True s = (Inr (), t)"
  obtains md u where "PythonDslLoader_load K N s = (Inr md, u)" and "mocked t = md" and "dsl_mocked t = dsl_mocked u"
    and "dsl_required t = dsl_required u" and "actions t = actions u" and "next_ref u \<le> next_ref t"
    and "\<forall>i<next_ref u. dp_type (dps t i) = dp_type (dps u i)"
proof -
  obtain r u where u: "PythonDslLoader_load K N s = (r, u)" by fastforce
  then obtain md where md: "r = Inr md" using assms by (cases r) (auto simp: check_for_new_mocks_def bind_py_def)
  obtain q v where v: "subscribe_to_mocked_datapoints K (set_listeners md (u\<lparr>mocked := md\<rparr>)) = (q, v)" by fastforce
  have t: "t = v\<lparr>mock_registered := True\<rparr>" using assms u md v by (cases q) (auto simp: check_for_new_mocks_def bind_py_def)
  have "same_actions (u\<lparr>mocked := md\<rparr>) v" using same_set_listeners same_subscribe(1) [OF v] by (rule sa.R_trans)
  then show thesis
    using that [OF u [unfolded md]] t same_subscribe(2) [OF v] by (simp add: same_actions_def frame_def)
qed

lemma changed_after_load:
  assumes "typed_client K ty" and "run_script K s = (Inr (), s1)" and "distinct (map entry_path (dsl_mocked s1))"
    and "check_for_new_mocks K N True s = (Inr (), t)"
  shows "mocks_changed t \<longleftrightarrow> (\<exists>d\<in>set (dsl_mocked t). entry_behaviors d \<noteq> [] \<and> \<not> has_supported_type (ty (entry_path d)))"
proof -
  obtain md u where u: "PythonDslLoader_load K N s = (Inr md, u)" "mocked t = md" "dsl_mocked t = dsl_mocked u" "dsl_required t = dsl_required u"
    by (rule check_for_new_mocks_done [OF assms(4)])
  note l = load_spec [OF assms(1-3) u(1)]
  have same: "behaviors_eq t bs bs" for bs by (simp add: behaviors_eq_def list.rel_refl)
  have "behaviors_eq t bs [] \<longleftrightarrow> bs = []" for bs by (simp add: behaviors_eq_def)
  then have "(case map_of md (entry_path d) of None \<Rightarrow> False | Some m \<Rightarrow> \<not> behaviors_eq t (entry_behaviors d) (mocked_behaviors m)) \<longleftrightarrow>
      entry_behaviors d \<noteq> [] \<and> \<not> has_supported_type (ty (entry_path d))" if "d \<in> set (dsl_mocked t)" for d
    using l(4) [of d] that u(3) same by (cases "has_supported_type (ty (entry_path d))") auto
  moreover have "fst ` set md = set (map entry_path (dsl_mocked t) @ dsl_required t)" using l(3) u(3,4) by simp
  ultimately show ?thesis by (simp add: mocks_changed_def u(2))
qed

text \<open>A broker that accepts everything and remembers it, with a clock that advances while the service sleeps.\<close>

type_synonym memory = "rat \<times> (path \<times> pyvalue) list"

definition memory_client :: "(path \<Rightarrow> DataType) \<Rightarrow> memory client" where
  "memory_client ty = \<lparr> get_current_values = (\<lambda>p w. (Inr (map_of (snd w) p), [], w)), get_metadata = (\<lambda>p w. (Inr (ty p), [], w)),
     set_current_values = (\<lambda>p v w. (Inr (), [(VALUE, [(p, Some v)])], (fst w, (p, v) # snd w))),
     subscribe_target_values = (\<lambda>_ w. (Inr (), [], w)), subscribe_current_values = (\<lambda>_ w. (Inr (), [], w)),
     run_script = (\<lambda>s. (Inr (), s)), perf_counter = (\<lambda>w. (fst w, w)), time_sleep = (\<lambda>d w. ([], (fst w + d, snd w))) \<rparr>"

interpretation memory: typed_client "memory_client ty" ty for ty
  by unfold_locales (simp add: memory_client_def)

definition blank :: "memory mock" where
  "blank = \<lparr> dsl_mocked = [], dsl_required = [], triggers = (\<lambda>_. EventTrigger VALUE None), actions = (\<lambda>_. SetAction PNone False),
     dps = (\<lambda>_. \<lparr> dp_path = [], dp_type = None, dp_value = PNone, dp_listener = False \<rparr>), next_ref = 0, mocked = [], pending = [],
     mock_registered = False, mock_connected = True, last_tick = 0, broker = (0, []) \<rparr>"

text \<open>One datapoint with one behavior, given by its trigger and its action.\<close>

definition configure :: "path \<Rightarrow> pyvalue \<Rightarrow> Trigger \<Rightarrow> Action \<Rightarrow> memory mock" where
  "configure p v tr a = (let (i, s1) = new_trigger tr blank; (j, s2) = new_action a s1; (b, s3) = create_behavior i j 0 (Decide True) s2
     in mock_datapoint p v [b] s3)"


definition timestamp_mock :: "memory mock" where
  "timestamp_mock = configure ''Vehicle.Start'' PNone (ClockTrigger (ClockTrigger_new 1 False)) (SetAction (PStr ''now'') True)"


text \<open>C35: An animation configured for a datapoint of a boolean or string type stops the mock service: loading only logs an error and leaves the animation
  without an animator, and the first pass of the main loop ends with an exception.\<close>

theorem discrete_animation_ends_main_loop:
  assumes "typed_client K ty" and "run_script K s = (Inr (), s1)" and "distinct (map entry_path (dsl_mocked s1))"
    and "check_for_new_mocks K N True s = (Inr (), t)" and "\<forall>d\<in>set (dsl_mocked s1). has_supported_type (ty (entry_path d))"
    and "d \<in> set (dsl_mocked s1)" and "b \<in> set (entry_behaviors d)" and "idle (beh_action b) s1"
    and "\<forall>e\<in>set (dsl_mocked s1). \<forall>c\<in>set (entry_behaviors e). beh_action c = beh_action b \<longrightarrow> ty (entry_path e) \<in> {DT_BOOLEAN, DT_STRING}"
  shows "\<exists>e. fst (main_loop K N (Suc n) t) = Inl e"
proof -
  obtain md u where u: "PythonDslLoader_load K N s = (Inr md, u)" "mocked t = md" "dsl_mocked t = dsl_mocked u" "dsl_required t = dsl_required u"
    "actions t = actions u" "next_ref u \<le> next_ref t" "\<forall>i<next_ref u. dp_type (dps t i) = dp_type (dps u i)"
    by (rule check_for_new_mocks_done [OF assms(4)])
  note l = load_spec [OF assms(1-3) u(1)]
  have stable: "\<not> mocks_changed t" using changed_after_load [OF assms(1-4)] assms(5) u(3) l(1) by auto
  have idle: "idle (beh_action b) t" using load_idle [OF assms(1,2) u(1) assms(8,9)] u(5) by (simp add: idle_def)
  have beh: "mocked_dp m < next_ref t \<and> has_discrete_value_type (dps t (mocked_dp m))"
    if pm: "(p, m) \<in> set md" "c \<in> set (mocked_behaviors m)" "beh_action c = beh_action b" for p m c
  proof -
    have p: "p \<in> entry_path ` set (dsl_mocked u)" "dp_type (dps u (mocked_dp m)) = Some (ty p)" "mocked_dp m < next_ref u"
      using l(5) [OF pm(1)] pm(2) by auto
    then obtain e where e: "e \<in> set (dsl_mocked s1)" "entry_path e = p" using l(1) by auto
    have "map_of md p = Some m" using l(2) pm(1) by (rule map_of_is_SomeI)
    then have "c \<in> set (entry_behaviors e)" using l(4) [of e] l(1) e pm(2) by (auto split: if_splits)
    then have "ty p \<in> {DT_BOOLEAN, DT_STRING}" using assms(9) e pm(3) by blast
    then show ?thesis using p u(6,7) by (auto simp: has_discrete_value_type_def)
  qed
  moreover have "mocked_dp m < next_ref t" if "(p, m) \<in> set md" for p m using l(5) [OF that] u(6) by simp
  ultimately have "discrete_only (beh_action b) md t" using idle by (auto simp: discrete_only_def)
  moreover obtain m where "map_of md (entry_path d) = Some m" "mocked_behaviors m = entry_behaviors d" using l(4) [of d] l(1) assms(5,6) by auto
  ultimately have "\<exists>e. fst (main_loop_pass K N t) = Inl e"
    using discrete_animation_raises [OF stable _ _ _ refl, of b] u(2) assms(7) by (auto dest: map_of_SomeD)
  then show ?thesis by (auto simp: bind_py_def split: prod.splits sum.splits)
qed

definition brake_mock :: "memory mock" where
  "brake_mock = configure ''Vehicle.Body.Lights.Brake.IsDefect'' (PBool False) (ClockTrigger (ClockTrigger_new 1 True))
     (AnimationAction \<lparr> aa_duration = 10, aa_values = [PBool False, PBool True], aa_resolved = [PBool False, PBool True], aa_animator = None,
        aa_repeat_mode = ONCE, aa_resolver = True \<rparr>)"

theorem discrete_animation_ends_main_loop_witness:
  "\<exists>t e. check_for_new_mocks (memory_client (\<lambda>_. DT_BOOLEAN)) exact_lib True brake_mock = (Inr (), t) \<and>
     fst (main_loop (memory_client (\<lambda>_. DT_BOOLEAN)) exact_lib (Suc 0) t) = Inl e"
proof -
  let ?K = "memory_client (\<lambda>_. DT_BOOLEAN)"
  obtain t where t: "check_for_new_mocks ?K exact_lib True brake_mock = (Inr (), t)"
  proof -
    have "fst (check_for_new_mocks ?K exact_lib True brake_mock) = Inr ()" by code_simp
    then show thesis using that by (metis prod.collapse)
  qed
  let ?b = "\<lparr> beh_id = 2, beh_trigger = 0, beh_cond_id = 0, beh_condition = Decide True, beh_action = 1 \<rparr>"
  let ?d = "\<lparr> entry_path = ''Vehicle.Body.Lights.Brake.IsDefect'', entry_initial = PBool False, entry_behaviors = [?b] \<rparr>"
  have d: "dsl_mocked brake_mock = [?d]"
    by (simp add: brake_mock_def configure_def new_trigger_def new_action_def create_behavior_def mock_datapoint_def blank_def)
  have i: "idle 1 brake_mock"
    by (simp add: brake_mock_def configure_def new_trigger_def new_action_def create_behavior_def mock_datapoint_def blank_def idle_def)
  have s: "run_script ?K brake_mock = (Inr (), brake_mock)" by (simp add: memory_client_def)
  show ?thesis
    using discrete_animation_ends_main_loop [OF memory.typed_client_axioms s _ t, where d = ?d and b = ?b and n = 0] t d i
    by (auto simp: has_supported_type_def)
qed

end
