(* ===== verification/Mock_Events.thy ===== *)
theory Mock_Events
  imports Mock_Service "HOL-Library.Sublist"
begin

text \<open>
  Properties of the mock service that concern its event list and its configuration functions: in which order queued requests are carried
  out, and which behavior a deletion removes.
\<close>

section \<open>Queued requests\<close>

text \<open>The requests for a path that wait in the event list, oldest first.\<close>

definition targets :: "path \<Rightarrow> Event list \<Rightarrow> pyvalue list" where
  "targets p es = map ev_value (filter (\<lambda>e. ev_name e = ''actuator_target'' \<and> ev_path e = p) es)"

lemma last_event_filter:
  "last_event n p es = (let fs = filter (\<lambda>e. ev_name e = n \<and> ev_path e = p) es in if fs = [] then None else Some (last fs))"
  by (induction es) (auto simp: Let_def)

lemma filter_py_remove_inside: "(\<And>x. Q x \<Longrightarrow> P x) \<Longrightarrow> filter P (py_remove Q xs) = py_remove Q (filter P xs)"
  by (induction xs) auto

lemma filter_py_remove_outside: "(\<And>x. Q x \<Longrightarrow> \<not> P x) \<Longrightarrow> filter P (py_remove Q xs) = filter P xs"
  by (induction xs) auto

lemma py_remove_last: "\<forall>x\<in>set xs. \<not> Q x \<Longrightarrow> Q y \<Longrightarrow> py_remove Q (xs @ [y]) = xs"
  by (induction xs) auto

lemma take_target:
  assumes "targets p es = vs @ [v]" and "\<forall>w\<in>set vs. \<not> py_eq w v"
  obtains e where "take_event ''actuator_target'' p es = (Some e, snd (take_event ''actuator_target'' p es))" and "ev_value e = v"
    and "targets p (snd (take_event ''actuator_target'' p es)) = vs"
proof -
  let ?P = "\<lambda>e. ev_name e = ''actuator_target'' \<and> ev_path e = p"
  obtain fs e where f: "filter ?P es = fs @ [e]" "map ev_value fs = vs" "ev_value e = v"
    using assms(1) by (auto simp: targets_def map_eq_append_conv)
  have "e \<in> set (filter ?P es)" using f(1) by simp
  then have e: "?P e" by simp
  have l: "last_event ''actuator_target'' p es = Some e" using f(1) by (simp add: last_event_filter)
  have "filter ?P (py_remove (\<lambda>g. event_eq g e) es) = py_remove (\<lambda>g. event_eq g e) (fs @ [e])"
    using e by (subst filter_py_remove_inside) (auto simp: event_eq_def f(1))
  also have "\<dots> = fs" using assms(2) f(2,3) by (intro py_remove_last) (auto simp: event_eq_def)
  finally show thesis using that [of e] f(2,3) l by (simp add: take_event_def targets_def)
qed

lemma targets_take_value: "targets p (snd (take_event ''value'' q es)) = targets p es"
proof (cases "last_event ''value'' q es")
  case (Some e)
  then have "ev_name e = ''value''" by (auto simp: last_event_filter Let_def split: if_splits dest!: last_in_set)
  then have "filter (\<lambda>e. ev_name e = ''actuator_target'' \<and> ev_path e = p) (py_remove (\<lambda>g. event_eq g e) es) =
      filter (\<lambda>e. ev_name e = ''actuator_target'' \<and> ev_path e = p) es"
    by (intro filter_py_remove_outside) (auto simp: event_eq_def)
  then show ?thesis using Some by (simp add: take_event_def targets_def)
qed (simp add: take_event_def)

text \<open>A broker that accepts every value; meanwhile it sends current values only.\<close>

locale accepting_client =
  fixes K :: "'w client"
  assumes accepts: "\<exists>us w'. set_current_values K p v w = (Inr (), us, w') \<and> (\<forall>u\<in>set us. fst u = VALUE)"
begin

lemma set_datapoint_accepted:
  obtains t where "set_datapoint K p v s = (Inr (), t)" and "same_actions s t" and "triggers t = triggers s" and "dps t = dps s"
    and "targets q (pending t) = targets q (pending s)"
proof -
  obtain us w' where c: "set_current_values K p v (broker s) = (Inr (), us, w')" "\<forall>u\<in>set us. fst u = VALUE" using accepts by blast
  have "targets q (concat (map update_events us)) = []"
    using c(2) by (induction us) (auto simp: targets_def filter_empty_conv split: option.splits if_splits)
  then have "targets q (pending s @ concat (map update_events us)) = targets q (pending s)" by (simp add: targets_def)
  then show thesis
    using that [of "snd (set_datapoint K p v s)"] movesD [OF same_set_datapoint, of s K p v] c(1)
    by (simp add: set_datapoint_def client_call_def mock_update_request_handler_def targets_take_value)
qed

lemma set_value_accepted:
  obtains t where "DataPoint_set_value K j v s = (Inr (), t)" and "same_actions s t" and "triggers t = triggers s"
    and "py_eq (dp_value (dps t j)) v" and "targets q (pending t) = targets q (pending s)"
proof (cases "py_eq (dp_value (dps s j)) v")
  case True
  then show thesis using that [of s] by (simp add: DataPoint_set_value_def)
next
  case False
  let ?s = "s\<lparr>dps := (dps s)(j := (dps s j)\<lparr>dp_value := v\<rparr>)\<rparr>"
  obtain t where t: "set_datapoint K (dp_path (dps s j)) v ?s = (Inr (), t)" "triggers t = triggers ?s" "dps t = dps ?s"
    "targets q (pending t) = targets q (pending ?s)" by (rule set_datapoint_accepted)
  have f: "same_actions s (snd (DataPoint_set_value K j v s))" by (rule movesD [OF same_DataPoint_set_value])
  show thesis
  proof (cases "dp_listener (dps s j)")
    case True
    then show ?thesis using that [of t] t f False by (simp add: DataPoint_set_value_def Let_def)
  next
    case no: False
    then show ?thesis using that [of ?s] f False by (simp add: DataPoint_set_value_def Let_def)
  qed
qed

end

text \<open>The service mocks one datapoint, whose behavior sets the value that is requested.\<close>

definition sets_requested :: "path \<Rightarrow> MockedDataPoint \<Rightarrow> Behavior \<Rightarrow> 'w mock \<Rightarrow> bool" where
  "sets_requested p m b s \<longleftrightarrow> mocked s = [(p, m)] \<and> mocked_behaviors m = [b] \<and> beh_condition b = Decide True \<and>
     (triggers s (beh_trigger b) = EventTrigger ACTUATOR_TARGET None \<or> triggers s (beh_trigger b) = EventTrigger ACTUATOR_TARGET (Some p)) \<and>
     actions s (beh_action b) = SetAction (PStr ''$event.value'') True"

context accepting_client
begin

lemma executor_takes_newest:
  assumes "sets_requested p m b s" and "targets p (pending s) = vs @ [v]" and "\<forall>w\<in>set vs. \<not> py_eq w v" and "v \<noteq> PNone"
  obtains t where "BehaviorExecutor_execute K N dt s = (Inr (), t)" and "sets_requested p m b t" and "targets p (pending t) = vs"
    and "py_eq (dp_value (dps t (mocked_dp m))) v"
proof -
  obtain e where e: "take_event ''actuator_target'' p (pending s) = (Some e, snd (take_event ''actuator_target'' p (pending s)))"
    "ev_value e = v" "targets p (snd (take_event ''actuator_target'' p (pending s))) = vs" by (rule take_target [OF assms(2,3)])
  let ?s = "s\<lparr>triggers := (triggers s)(beh_trigger b := EventTrigger ACTUATOR_TARGET (Some p)),
    pending := snd (take_event ''actuator_target'' p (pending s))\<rparr>"
  have c: "Trigger_check (beh_trigger b) p dt s = (EventTriggerResult True (Some e), ?s)"
    using assms(1) e(1) by (auto simp: Trigger_check_def sets_requested_def Let_def split: prod.splits)
  obtain t where t: "DataPoint_set_value K (mocked_dp m) v ?s = (Inr (), t)" "same_actions ?s t" "triggers t = triggers ?s"
    "py_eq (dp_value (dps t (mocked_dp m))) v" "targets p (pending t) = targets p (pending ?s)" by (rule set_value_accepted)
  have "BehaviorExecutor_execute K N dt s = (Inr (), t)"
    using assms(1,4) c e(2) t(1)
    by (simp add: BehaviorExecutor_execute_def sets_requested_def bind_py_def Action_execute_def resolve_value_def)
  moreover have "sets_requested p m b t" using assms(1) t(2,3) by (auto simp: sets_requested_def same_actions_def frame_def)
  ultimately show thesis using that t(4,5) e(3) by simp
qed

end

text \<open>\<open>n\<close> passes of the executor.\<close>

definition executor_passes :: "'w client \<Rightarrow> numlib \<Rightarrow> rat \<Rightarrow> nat \<Rightarrow> 'w mock \<Rightarrow> 'w mock" where
  "executor_passes K N dt n = (\<lambda>s. snd (BehaviorExecutor_execute K N dt s)) ^^ n"

lemma executor_passes_Suc: "executor_passes K N dt (Suc n) s = executor_passes K N dt n (snd (BehaviorExecutor_execute K N dt s))"
  by (simp only: executor_passes_def funpow_Suc_right comp_def)

text \<open>C32: Requests that wait together are carried out from the newest to the oldest, one in each pass of the executor: the datapoint ends at the request that
  was made first, and the latest one is undone.\<close>

theorem queued_targets_reversed:
  assumes "accepting_client K" and "sets_requested p m b s" and "targets p (pending s) = vs" and "PNone \<notin> set vs"
    and "sorted_wrt (\<lambda>v w. \<not> py_eq v w) vs" and "n < length vs"
  shows "py_eq (dp_value (dps (executor_passes K N dt (Suc n) s) (mocked_dp m))) (rev vs ! n)"
  using assms(2-6)
proof (induction n arbitrary: s vs)
  case 0
  then obtain ws v where vs: "vs = ws @ [v]" by (cases vs rule: rev_cases) auto
  have h: "targets p (pending s) = ws @ [v]" "\<forall>w\<in>set ws. \<not> py_eq w v" "v \<noteq> PNone" using "0.prems"(2-4) vs by (auto simp: sorted_wrt_append)
  obtain t where "BehaviorExecutor_execute K N dt s = (Inr (), t)" "py_eq (dp_value (dps t (mocked_dp m))) v"
    by (rule accepting_client.executor_takes_newest [OF assms(1) "0.prems"(1) h])
  then show ?case using vs by (simp add: executor_passes_def)
next
  case (Suc n)
  then obtain ws v where vs: "vs = ws @ [v]" by (cases vs rule: rev_cases) auto
  have h: "targets p (pending s) = ws @ [v]" "\<forall>w\<in>set ws. \<not> py_eq w v" "v \<noteq> PNone" using Suc.prems(2-4) vs by (auto simp: sorted_wrt_append)
  obtain t where t: "BehaviorExecutor_execute K N dt s = (Inr (), t)" "sets_requested p m b t" "targets p (pending t) = ws"
    by (rule accepting_client.executor_takes_newest [OF assms(1) Suc.prems(1) h])
  have "py_eq (dp_value (dps (executor_passes K N dt (Suc n) t) (mocked_dp m))) (rev ws ! n)"
    using Suc.IH [OF t(2,3)] Suc.prems(3-5) vs by (simp add: sorted_wrt_append)
  then show ?case using t(1) vs by (simp add: executor_passes_Suc)
qed

text \<open>The wiper mode of the shipped configuration, loaded, with two requests.\<close>

definition wiper_mock :: "memory mock" where
  "wiper_mock = (let s = snd (check_for_new_mocks (memory_client (\<lambda>_. DT_STRING)) exact_lib True
       (configure ''Vehicle.Body.Windshield.Front.Wiping.System.Mode'' (PStr ''STOP_HOLD'') (EventTrigger ACTUATOR_TARGET None)
         (SetAction (PStr ''$event.value'') True))) in
     mock_update_request_handler [(ACTUATOR_TARGET, [(''Vehicle.Body.Windshield.Front.Wiping.System.Mode'', Some (PStr ''WIPE''))]),
       (ACTUATOR_TARGET, [(''Vehicle.Body.Windshield.Front.Wiping.System.Mode'', Some (PStr ''EMERGENCY_STOP''))])] s)"

interpretation memory_accepts: accepting_client "memory_client ty" for ty
  by unfold_locales (simp add: memory_client_def)

theorem queued_targets_reversed_witness:
  "map (\<lambda>n. dp_value (dps (executor_passes (memory_client (\<lambda>_. DT_STRING)) exact_lib (1 / 10) n wiper_mock) 3)) [1, 2] =
     [PStr ''EMERGENCY_STOP'', PStr ''WIPE'']"
proof -
  let ?p = "''Vehicle.Body.Windshield.Front.Wiping.System.Mode''"
  let ?b = "\<lparr> beh_id = 2, beh_trigger = 0, beh_cond_id = 0, beh_condition = Decide True, beh_action = 1 \<rparr>"
  let ?m = "\<lparr> mocked_dp = 3, is_mocked = True, mocked_behaviors = [?b] \<rparr>"
  have s: "sets_requested ?p ?m ?b wiper_mock"
    by (simp add: sets_requested_def wiper_mock_def check_for_new_mocks_def PythonDslLoader_load_def bind_py_def memory_client_def
        configure_def new_trigger_def new_action_def create_behavior_def mock_datapoint_def blank_def client_call_def new_mocked_def
        new_datapoint_def mock_update_request_handler_def load_behavior_def has_supported_type_def Action_execute_def resolve_value_def
        subscribe_to_mocked_datapoints_def set_listeners_def apfst_def map_prod_def)
  have t: "targets ?p (pending wiper_mock) = [PStr ''WIPE'', PStr ''EMERGENCY_STOP'']" by code_simp
  have eq: "py_eq v (PStr x) \<longleftrightarrow> v = PStr x" for v x by (cases v) auto
  show ?thesis
    using queued_targets_reversed [OF memory_accepts.accepting_client_axioms [of "\<lambda>_. DT_STRING"] s t, where n = 0 and N = exact_lib and dt = "1 / 10"]
      queued_targets_reversed [OF memory_accepts.accepting_client_axioms [of "\<lambda>_. DT_STRING"] s t, where n = 1 and N = exact_lib and dt = "1 / 10"]
    by (simp add: eq eval_nat_numeral)
qed

section \<open>Configurations\<close>

text \<open>The configurations that the functions of \<open>dsl.py\<close> can make; the identity of a new behavior or action does not matter here.\<close>

inductive configured :: "'w mock \<Rightarrow> bool" where
  empty: "dsl_mocked s = [] \<Longrightarrow> configured s"
| mocked: "configured s \<Longrightarrow> configured (mock_datapoint p v bs s)"
| added: "configured s \<Longrightarrow> configured (add_behavior b p s)"
| behavior_deleted: "configured s \<Longrightarrow> configured (delete_behavior_of_mocked_datapoint b p s)"
| deleted: "configured s \<Longrightarrow> configured (delete_mocked_datapoint p s)"
| other: "configured s \<Longrightarrow> dsl_mocked t = dsl_mocked s \<Longrightarrow> configured t"

lemma append_behavior_paths: "map entry_path (append_behavior b p ds) = map entry_path ds"
  by (induction ds) auto

lemma subseq_py_remove: "subseq (py_remove eq xs) xs"
  by (induction xs) auto

lemma subseq_scan_remove: "subseq (scan_remove P eq i xs) xs"
proof (induction P eq i xs rule: scan_remove.induct)
  case (1 P eq i xs)
  show ?case
  proof (cases "i < length xs")
    case True
    let ?ys = "if P (xs ! i) then py_remove (eq (xs ! i)) xs else xs"
    have "subseq (scan_remove P eq (Suc i) ?ys) ?ys" using 1 True by blast
    moreover have "subseq ?ys xs" by (simp add: subseq_py_remove)
    ultimately have "subseq (scan_remove P eq (Suc i) ?ys) xs" by (rule subseq_order.order_trans)
    then show ?thesis using True by (simp add: scan_remove.simps [of P eq i xs])
  qed (simp add: scan_remove.simps)
qed

lemma configured_paths: "configured s \<Longrightarrow> distinct (map entry_path (dsl_mocked s))"
proof (induction rule: configured.induct)
  case (mocked s p v bs)
  then show ?case by (auto simp: mock_datapoint_def)
next
  case (behavior_deleted s b p)
  have "map entry_path (dsl_mocked (delete_behavior_of_mocked_datapoint b p s)) = map entry_path (dsl_mocked s)"
    by (simp add: delete_behavior_of_mocked_datapoint_def)
  then show ?case using behavior_deleted by simp
next
  case (deleted s p)
  have "subseq (map entry_path (dsl_mocked (delete_mocked_datapoint p s))) (map entry_path (dsl_mocked s))"
    by (simp add: delete_mocked_datapoint_def subseq_scan_remove subseq_map)
  then show ?case using deleted by (auto simp: subseq_conv_nths distinct_nthsI)
qed (simp_all add: add_behavior_def append_behavior_paths)

section \<open>Deleting a behavior\<close>

lemma Trigger_eq_refl [simp]: "Trigger_eq t t"
  by (cases t) simp_all

lemma Action_eq_refl [simp]: "Action_eq a a"
  by (cases a) (simp_all add: list.rel_refl)

lemma Behavior_eq_refl [simp]: "Behavior_eq s b b"
  by (simp add: Behavior_eq_def)

lemma scan_remove_none:
  assumes "\<forall>x\<in>set (drop i xs). \<not> P x"
  shows "scan_remove P eq i xs = xs"
  using assms
proof (induction P eq i xs rule: scan_remove.induct)
  case (1 P eq i xs)
  show ?case
  proof (cases "i < length xs")
    case True
    then have "drop i xs = xs ! i # drop (Suc i) xs" by (rule Cons_nth_drop_Suc [symmetric])
    then show ?thesis using 1 True by (simp add: scan_remove.simps [of P eq i xs])
  qed (simp add: scan_remove.simps)
qed

lemma py_remove_middle: "\<forall>x\<in>set xs. \<not> Q x \<Longrightarrow> Q y \<Longrightarrow> py_remove Q (xs @ y # ys) = xs @ ys"
  by (induction xs) auto

lemma scan_remove_unique:
  assumes "\<forall>x\<in>set xs \<union> set ys. \<not> P x" and "P b" and "\<forall>x\<in>set xs. \<not> Q x" and "Q b" and "i \<le> length xs"
  shows "scan_remove P (\<lambda>_. Q) i (xs @ b # ys) = xs @ ys"
  using assms(5)
proof (induction "length xs - i" arbitrary: i)
  case 0
  then have i: "i = length xs" by simp
  have "scan_remove P (\<lambda>_. Q) (Suc i) (xs @ ys) = xs @ ys"
    using assms(1) by (intro scan_remove_none) (auto dest: in_set_dropD)
  then show ?case using assms(2-4) i by (subst scan_remove.simps) (simp add: py_remove_middle)
next
  case (Suc n)
  then have i: "i < length xs" by simp
  then have "\<not> P ((xs @ b # ys) ! i)" using assms(1) by (simp add: nth_append)
  then show ?case using Suc.hyps(1) [of "Suc i"] Suc.hyps(2) i by (subst scan_remove.simps) simp
qed

lemma delete_behavior_at:
  assumes "distinct (map entry_path (dsl_mocked s))" and "k < length (dsl_mocked s)"
  shows "dsl_mocked (delete_behavior_of_mocked_datapoint b (entry_path (dsl_mocked s ! k)) s) = (dsl_mocked s)[k := (dsl_mocked s ! k)
    \<lparr>entry_behaviors := scan_remove (\<lambda>saved. Behavior_eq s saved b) (\<lambda>_ x. beh_id x = beh_id b \<or> Behavior_eq s x b) 0
       (entry_behaviors (dsl_mocked s ! k))\<rparr>]"
  using assms by (intro nth_equalityI) (auto simp: delete_behavior_of_mocked_datapoint_def nth_list_update distinct_conv_nth)

text \<open>C37: Which behavior \<open>delete_behavior_of_mocked_datapoint\<close> removes. It is exactly the given one if no other behavior of the datapoint
  compares equal to it. Two behaviors with clock triggers that differ in the interval only do compare equal, and deleting the second of them
  removes the first.\<close>

theorem delete_behavior_spec:
  assumes "distinct (map entry_path (dsl_mocked s))" and "k < length (dsl_mocked s)" and "dsl_mocked s ! k = d"
    and "entry_behaviors d = xs @ b # ys"
  shows "((\<forall>x\<in>set xs \<union> set ys. beh_id x \<noteq> beh_id b \<and> \<not> Behavior_eq s x b) \<longrightarrow>
      dsl_mocked (delete_behavior_of_mocked_datapoint b (entry_path d) s) = (dsl_mocked s)[k := d\<lparr>entry_behaviors := xs @ ys\<rparr>]) \<and>
    (xs = [a] \<and> ys = [] \<and> triggers s (beh_trigger a) = ClockTrigger c1 \<and> triggers s (beh_trigger b) = ClockTrigger c2 \<and>
      clock_recurring c1 = clock_recurring c2 \<and> beh_cond_id a = beh_cond_id b \<and> beh_action a = beh_action b \<longrightarrow>
      dsl_mocked (delete_behavior_of_mocked_datapoint b (entry_path d) s) = (dsl_mocked s)[k := d\<lparr>entry_behaviors := [b]\<rparr>])"
proof -
  let ?scan = "scan_remove (\<lambda>saved. Behavior_eq s saved b) (\<lambda>_ x. beh_id x = beh_id b \<or> Behavior_eq s x b) 0 (entry_behaviors d)"
  have at: "dsl_mocked (delete_behavior_of_mocked_datapoint b (entry_path d) s) = (dsl_mocked s)[k := d\<lparr>entry_behaviors := ?scan\<rparr>]"
    using delete_behavior_at [OF assms(1,2), of b] assms(3) by simp
  have all: "?scan = xs @ ys" if "\<forall>x\<in>set xs \<union> set ys. beh_id x \<noteq> beh_id b \<and> \<not> Behavior_eq s x b"
    unfolding assms(4) using that by (intro scan_remove_unique) auto
  have two: "?scan = [b]" if "xs = [a]" "ys = []" "Behavior_eq s a b"
    using that assms(4) by (simp add: scan_remove.simps [of _ _ 0] scan_remove.simps [of _ _ "Suc 0"])
  have eq: "Behavior_eq s a b" if "triggers s (beh_trigger a) = ClockTrigger c1" "triggers s (beh_trigger b) = ClockTrigger c2"
    "clock_recurring c1 = clock_recurring c2" "beh_cond_id a = beh_cond_id b" "beh_action a = beh_action b"
    using that by (simp add: Behavior_eq_def)
  show ?thesis using at all two eq by (intro conjI impI) simp_all
qed

text \<open>A value that is set every second and every minute.\<close>

definition two_clocks :: "memory mock" where
  "two_clocks = (let (i, s1) = new_trigger (ClockTrigger (ClockTrigger_new 1 True)) blank;
     (j, s2) = new_trigger (ClockTrigger (ClockTrigger_new 60 True)) s1; (k, s3) = create_set_action (PNum 5) s2;
     (a, s4) = create_behavior i k 0 (Decide True) s3; (b, s5) = create_behavior j k 0 (Decide True) s4
     in mock_datapoint ''Vehicle.Speed'' (PNum 0) [a, b] s5)"

theorem delete_behavior_spec_witness:
  "\<exists>a b. map entry_behaviors (dsl_mocked two_clocks) = [[a, b]] \<and>
     map entry_behaviors (dsl_mocked (delete_behavior_of_mocked_datapoint b ''Vehicle.Speed'' two_clocks)) = [[b]]"
proof -
  let ?a = "\<lparr> beh_id = 3, beh_trigger = 0, beh_cond_id = 0, beh_condition = Decide True, beh_action = 2 \<rparr>"
  let ?b = "\<lparr> beh_id = 4, beh_trigger = 1, beh_cond_id = 0, beh_condition = Decide True, beh_action = 2 \<rparr>"
  let ?d = "\<lparr> entry_path = ''Vehicle.Speed'', entry_initial = PNum 0, entry_behaviors = [?a, ?b] \<rparr>"
  have d: "dsl_mocked two_clocks = [?d]" and t: "triggers two_clocks 0 = ClockTrigger (ClockTrigger_new 1 True)"
    "triggers two_clocks 1 = ClockTrigger (ClockTrigger_new 60 True)"
    by (simp_all add: two_clocks_def new_trigger_def create_set_action_def new_action_def create_behavior_def mock_datapoint_def blank_def
        eval_nat_numeral)
  show ?thesis
    using delete_behavior_spec [where s = two_clocks and k = 0 and d = ?d and xs = "[?a]" and b = ?b and ys = "[]" and a = ?a
        and ?c1.0 = "ClockTrigger_new 1 True" and ?c2.0 = "ClockTrigger_new 60 True"] d t
    by (intro exI [of _ ?a] exI [of _ ?b]) (simp add: ClockTrigger_new_def)
qed

end
