(* ===== verification/Hvac_Service.thy ===== *)
theory Hvac_Service
  imports Mock_Engine "HOL-Library.AList"
begin

text \<open>
  The HVAC service (\<open>hvac_service/hvacservice.py\<close>, Python): its connector thread, the callback of the gRPC channel and the handlers of the
  gRPC server run in parallel and share the attributes of \<open>HvacService\<close> without a lock. A step is the code between two remote calls or
  two accesses to these attributes; what the data broker answers is arbitrary. \<open>is_fatal_code\<close> is the function \<open>is_grpc_fatal_error\<close>.
\<close>

section \<open>State\<close>

datatype feed_value = FloatValue rat | BoolValue bool

datatype hvac_type = HT_BOOL | HT_FLOAT

fun feed_type :: "feed_value \<Rightarrow> hvac_type" where
  "feed_type (FloatValue _) = HT_FLOAT"
| "feed_type (BoolValue _) = HT_BOOL"

definition AC_ACTIVE :: string where "AC_ACTIVE = ''Vehicle.Cabin.IsAirConditioningActive''"
definition AC_TEMPERATURE :: string where "AC_TEMPERATURE = ''Vehicle.Cabin.DesiredAmbientAirTemperature''"

text \<open>\<open>register_datapoints\<close> registers these, in this order.\<close>

definition hvac_datapoints :: "(string \<times> hvac_type) list" where
  "hvac_datapoints = [(AC_ACTIVE, HT_BOOL), (AC_TEMPERATURE, HT_FLOAT)]"

datatype hvac_request = SetTemperature rat | SetAcStatus bool

text \<open>The handlers \<open>SetTemperature\<close> and \<open>SetAcStatus\<close>: the datapoint and the value of a request.\<close>

fun hvac_feed :: "hvac_request \<Rightarrow> string \<times> feed_value" where
  "hvac_feed (SetTemperature t) = (AC_TEMPERATURE, FloatValue t)"
| "hvac_feed (SetAcStatus b) = (AC_ACTIVE, BoolValue b)"

text \<open>
  The attributes of the service. The history holds the identifiers the broker has assigned, with the type they were registered for, and the
  updates sent to it.
\<close>

record hvac =
  hv_ids :: "(string \<times> int) list"
  hv_connected :: bool
  hv_registered :: bool
  hv_assigned :: "(string \<times> hvac_type \<times> int) list"
  hv_updates :: "(int \<times> feed_value) list"

text \<open>Where a thread is. The flag of a registration says that the callback of the channel runs it, not the connector thread.\<close>

datatype hvac_pc =
    RunTop | RunConnected
  | Registering nat bool | RegisterDone bool | RegisterFailed bool
  | CallbackIdle | CallbackConnected | CallbackLost
  | HandlerIdle | Sending string int feed_value | Replied | Raised

datatype connectivity = CH_IDLE | CH_CONNECTING | CH_READY | CH_TRANSIENT_FAILURE | CH_SHUTDOWN

section \<open>Operations\<close>

text \<open>\<open>_register\<close> after the reply of the broker.\<close>

definition hvac_register :: "nat \<Rightarrow> int \<Rightarrow> hvac \<Rightarrow> hvac" where
  "hvac_register n i s = s\<lparr>hv_ids := AList.update (fst (hvac_datapoints ! n)) i (hv_ids s),
     hv_assigned := (fst (hvac_datapoints ! n), snd (hvac_datapoints ! n), i) # hv_assigned s\<rparr>"

text \<open>\<open>set_float_datapoint\<close> and \<open>set_bool_datapoint\<close>: look up the identifier, or raise a \<open>KeyError\<close>.\<close>

definition hvac_lookup :: "hvac_request \<Rightarrow> hvac \<Rightarrow> hvac_pc" where
  "hvac_lookup r s = (case map_of (hv_ids s) (fst (hvac_feed r)) of
     None \<Rightarrow> Raised | Some i \<Rightarrow> Sending (fst (hvac_feed r)) i (snd (hvac_feed r)))"

text \<open>The end of both: the answer of the broker is \<open>None\<close>, or an error code.\<close>

definition hvac_sent :: "int \<Rightarrow> feed_value \<Rightarrow> int option \<Rightarrow> hvac \<Rightarrow> hvac_pc \<times> hvac" where
  "hvac_sent i v answer s = (let t = s\<lparr>hv_updates := hv_updates s @ [(i, v)]\<rparr> in
     case answer of None \<Rightarrow> (Replied, t) | Some c \<Rightarrow> (Raised, t\<lparr>hv_connected := is_fatal_code c\<rparr>))"

text \<open>The first test of \<open>on_broker_connectivity_change\<close>.\<close>

definition hvac_connectivity :: "connectivity \<Rightarrow> hvac \<Rightarrow> hvac_pc \<times> hvac" where
  "hvac_connectivity c s =
     (if c = CH_READY \<or> c = CH_IDLE then (if \<not> hv_connected s then (Registering 0 True, s) else (CallbackIdle, s))
      else (CallbackLost, s\<lparr>hv_connected := False\<rparr>))"

inductive hvac_step :: "hvac_pc \<times> hvac \<Rightarrow> hvac_pc \<times> hvac \<Rightarrow> bool" where
  run_disconnected: "\<not> hv_connected s \<Longrightarrow> hvac_step (RunTop, s) (RunTop, s)"
| run_connected: "hv_connected s \<Longrightarrow> hvac_step (RunTop, s) (RunConnected, s)"
| run_unregistered: "\<not> hv_registered s \<Longrightarrow> hvac_step (RunConnected, s) (Registering 0 False, s)"
| run_registered: "hv_registered s \<Longrightarrow> hvac_step (RunConnected, s) (RunTop, s)"
| register_reply: "n < length hvac_datapoints \<Longrightarrow> hvac_step (Registering n cb, s) (Registering (Suc n) cb, hvac_register n i s)"
| register_error: "n < length hvac_datapoints \<Longrightarrow> hvac_step (Registering n cb, s) (RegisterFailed cb, s)"
| register_end: "hvac_step (Registering (length hvac_datapoints) cb, s) (RegisterDone cb, s)"
| registered: "hvac_step (RegisterDone cb, s) (if cb then CallbackConnected else RunTop, s\<lparr>hv_registered := True\<rparr>)"
| register_failed: "hvac_step (RegisterFailed cb, s) (if cb then CallbackConnected else RunTop, s)"
| connectivity: "hvac_step (CallbackIdle, s) (hvac_connectivity c s)"
| callback_connected: "hvac_step (CallbackConnected, s) (CallbackIdle, s\<lparr>hv_connected := True\<rparr>)"
| callback_lost: "hvac_step (CallbackLost, s) (CallbackIdle, s\<lparr>hv_registered := False\<rparr>)"
| request: "hvac_step (HandlerIdle, s) (hvac_lookup r s, s)"
| sent: "hvac_step (Sending name i v, s) (hvac_sent i v answer s)"
| replied: "hvac_step (Replied, s) (HandlerIdle, s)"
| raised: "hvac_step (Raised, s) (HandlerIdle, s)"

inductive_cases run_topE: "hvac_step (RunTop, s) x"

text \<open>The threads of the process: any number, each at its place.\<close>

inductive hvac_reachable :: "(nat \<Rightarrow> hvac_pc) \<Rightarrow> hvac \<Rightarrow> bool" where
  start: "\<forall>i. pcs i \<in> {RunTop, CallbackIdle, HandlerIdle} \<Longrightarrow>
    hvac_reachable pcs \<lparr> hv_ids = [], hv_connected = False, hv_registered = False, hv_assigned = [], hv_updates = [] \<rparr>"
| step: "hvac_reachable pcs s \<Longrightarrow> hvac_step (pcs i, s) (pc, t) \<Longrightarrow> hvac_reachable (pcs(i := pc)) t"

section \<open>What reaches the broker\<close>

lemma hvac_datapoints_nth: "hvac_datapoints ! 0 = (AC_ACTIVE, HT_BOOL)" "hvac_datapoints ! Suc 0 = (AC_TEMPERATURE, HT_FLOAT)"
  by (simp_all add: hvac_datapoints_def)

lemma length_hvac_datapoints [simp]: "length hvac_datapoints = 2"
  by (simp add: hvac_datapoints_def)

definition hvac_known :: "nat \<Rightarrow> hvac \<Rightarrow> bool" where
  "hvac_known n s \<longleftrightarrow> (\<forall>k<n. map_of (hv_ids s) (fst (hvac_datapoints ! k)) \<noteq> None)"

text \<open>An update for the datapoint \<open>name\<close> uses an identifier that the broker assigned to it, for values of this type.\<close>

definition assigned_for :: "hvac \<Rightarrow> string \<Rightarrow> int \<Rightarrow> feed_value \<Rightarrow> bool" where
  "assigned_for s name i v \<longleftrightarrow> (name, feed_type v, i) \<in> set (hv_assigned s)"

fun hvac_pc_ok :: "hvac_pc \<Rightarrow> hvac \<Rightarrow> bool" where
  "hvac_pc_ok (Registering n cb) s \<longleftrightarrow> n \<le> 2 \<and> hvac_known n s"
| "hvac_pc_ok (RegisterDone cb) s \<longleftrightarrow> hvac_known 2 s"
| "hvac_pc_ok (Sending name i v) s \<longleftrightarrow> assigned_for s name i v"
| "hvac_pc_ok _ s \<longleftrightarrow> True"

definition hvac_inv :: "hvac \<Rightarrow> bool" where
  "hvac_inv s \<longleftrightarrow> (hv_registered s \<longrightarrow> hvac_known 2 s) \<and>
     (\<forall>n i. map_of (hv_ids s) n = Some i \<longrightarrow> (\<exists>ty. (n, ty) \<in> set hvac_datapoints \<and> (n, ty, i) \<in> set (hv_assigned s))) \<and>
     (\<forall>(i, v)\<in>set (hv_updates s). \<exists>name. assigned_for s name i v)"

text \<open>What no step takes away.\<close>

definition hvac_grows :: "hvac \<Rightarrow> hvac \<Rightarrow> bool" where
  "hvac_grows s t \<longleftrightarrow> set (hv_assigned s) \<subseteq> set (hv_assigned t) \<and> dom (map_of (hv_ids s)) \<subseteq> dom (map_of (hv_ids t))"

lemma hvac_pc_ok_grows: "hvac_pc_ok pc s \<Longrightarrow> hvac_grows s t \<Longrightarrow> hvac_pc_ok pc t"
  by (cases pc) (auto simp: hvac_known_def hvac_grows_def assigned_for_def subset_iff dom_def)

lemma datapoint_types [simp]:
  "(AC_ACTIVE, ty) \<in> set hvac_datapoints \<longleftrightarrow> ty = HT_BOOL" "(AC_TEMPERATURE, ty) \<in> set hvac_datapoints \<longleftrightarrow> ty = HT_FLOAT"
  by (auto simp: hvac_datapoints_def AC_ACTIVE_def AC_TEMPERATURE_def)

lemma hvac_register_ok:
  assumes "hvac_inv s" and "hvac_known n s" and "n < 2"
  shows "hvac_inv (hvac_register n i s)" and "hvac_known (Suc n) (hvac_register n i s)" and "hvac_grows s (hvac_register n i s)"
proof -
  obtain name ty where nt: "hvac_datapoints ! n = (name, ty)" by fastforce
  then have mem: "(name, ty) \<in> set hvac_datapoints" using assms(3) by (metis length_hvac_datapoints nth_mem)
  let ?t = "hvac_register n i s"
  have t: "?t = s\<lparr>hv_ids := AList.update name i (hv_ids s), hv_assigned := (name, ty, i) # hv_assigned s\<rparr>"
    by (simp add: hvac_register_def nt)
  show "hvac_grows s ?t" by (auto simp: t hvac_grows_def update_conv')
  show "hvac_known (Suc n) ?t" using assms(2) by (auto simp: hvac_known_def t nt update_conv' less_Suc_eq)
  have "\<exists>ty'. (m, ty') \<in> set hvac_datapoints \<and> (m, ty', k) \<in> set (hv_assigned ?t)" if "map_of (hv_ids ?t) m = Some k" for m k
  proof (cases "m = name")
    case True
    moreover from this have "k = i" using that by (simp add: t update_conv')
    ultimately show ?thesis using mem by (auto simp: t)
  next
    case False
    then have "map_of (hv_ids s) m = Some k" using that by (simp add: t update_conv')
    then have "\<exists>ty'. (m, ty') \<in> set hvac_datapoints \<and> (m, ty', k) \<in> set (hv_assigned s)"
      using assms(1) unfolding hvac_inv_def by blast
    then show ?thesis by (auto simp: t)
  qed
  moreover have "hv_registered s \<longrightarrow> hvac_known 2 ?t"
    using assms(1) by (auto simp: hvac_inv_def hvac_known_def t update_conv')
  moreover have "\<forall>(i, v)\<in>set (hv_updates s). \<exists>name. assigned_for ?t name i v"
    using assms(1) by (auto simp: hvac_inv_def assigned_for_def t)
  ultimately show "hvac_inv ?t" by (auto simp: hvac_inv_def t)
qed

lemma hvac_flags [simp]:
  "hvac_known n (s\<lparr>hv_connected := b\<rparr>) = hvac_known n s" "hvac_known n (s\<lparr>hv_registered := b\<rparr>) = hvac_known n s"
  "hvac_known n (s\<lparr>hv_updates := us\<rparr>) = hvac_known n s"
  "hvac_inv (s\<lparr>hv_connected := b\<rparr>) = hvac_inv s"
  "hvac_inv s \<Longrightarrow> hvac_inv (s\<lparr>hv_registered := b\<rparr>) \<longleftrightarrow> (b \<longrightarrow> hvac_known 2 s)"
  "hvac_inv s \<Longrightarrow> hvac_inv (s\<lparr>hv_updates := hv_updates s @ [(i, v)]\<rparr>) \<longleftrightarrow> (\<exists>name. assigned_for s name i v)"
  by (simp_all add: hvac_known_def hvac_inv_def assigned_for_def)

lemma hvac_grows_flags [simp]:
  "hvac_grows s s" "hvac_grows s (s\<lparr>hv_connected := b\<rparr>)" "hvac_grows s (s\<lparr>hv_registered := b\<rparr>)"
  "hvac_grows s (s\<lparr>hv_updates := us\<rparr>)" "hvac_grows s (s\<lparr>hv_updates := us, hv_connected := b\<rparr>)"
  by (simp_all add: hvac_grows_def)

lemma hvac_step_ok:
  assumes "hvac_step (pc, s) (pc', t)" and "hvac_inv s" and "hvac_pc_ok pc s"
  shows "hvac_inv t \<and> hvac_pc_ok pc' t \<and> hvac_grows s t"
  using assms(1)
proof (cases "(pc, s)" "(pc', t)" rule: hvac_step.cases)
  case (register_reply n cb i)
  then show ?thesis using assms hvac_register_ok [of s n i] by simp
next
  case (request r)
  have "hvac_pc_ok (hvac_lookup r s) s"
    using assms(2) by (cases r) (auto simp: hvac_lookup_def hvac_inv_def assigned_for_def split: option.splits, force+)
  then show ?thesis using request assms(2) by simp
next
  case (sent name i v answer)
  then show ?thesis
    using assms(2,3) by (auto simp: hvac_sent_def Let_def split: option.splits)
qed (use assms(2,3) in \<open>auto simp: hvac_connectivity_def hvac_known_def [of 0] split: if_splits\<close>)

text \<open>C38: In every interleaving of the HVAC service: while it counts as registered both datapoints have an identifier, and every update ever sent to the
  broker uses an identifier that the broker assigned to a datapoint of the type of its value.\<close>

theorem hvac_updates_typed:
  assumes "hvac_reachable pcs s"
  shows "(hv_registered s \<longrightarrow> (\<exists>i j. map_of (hv_ids s) AC_ACTIVE = Some i \<and> map_of (hv_ids s) AC_TEMPERATURE = Some j)) \<and>
    (\<forall>(i, v)\<in>set (hv_updates s). \<exists>name. (name, feed_type v, i) \<in> set (hv_assigned s))"
proof -
  have "hvac_inv s \<and> (\<forall>i. hvac_pc_ok (pcs i) s)"
    using assms
  proof induction
    case (start pcs)
    have "hvac_pc_ok pc s'" if "pc \<in> {RunTop, CallbackIdle, HandlerIdle}" for pc s' using that by auto
    then show ?case using start by (auto simp: hvac_inv_def)
  next
    case (step pcs s i pc t)
    then show ?case using hvac_step_ok [OF step.hyps(2)] hvac_pc_ok_grows by auto
  qed
  then show ?thesis by (auto simp: hvac_inv_def hvac_known_def assigned_for_def less_Suc_eq numeral_2_eq_2 hvac_datapoints_nth)
qed

section \<open>A registration and a request\<close>

definition hvac_threads :: "hvac_pc \<Rightarrow> hvac_pc \<Rightarrow> nat \<Rightarrow> hvac_pc" where
  "hvac_threads cb h i = (if i = 0 then RunTop else if i = 1 then cb else if i = 2 then h else HandlerIdle)"

lemma hvac_threads_upd [simp]: "(hvac_threads cb h)(Suc 0 := cb') = hvac_threads cb' h" "(hvac_threads cb h)(2 := h') = hvac_threads cb h'"
  "hvac_threads cb h (Suc 0) = cb" "hvac_threads cb h 2 = h"
  by (auto simp: hvac_threads_def)

definition hvac_up :: hvac where
  "hvac_up = \<lparr> hv_ids = [(AC_ACTIVE, 7), (AC_TEMPERATURE, 8)], hv_connected = True, hv_registered = True,
     hv_assigned = [(AC_TEMPERATURE, HT_FLOAT, 8), (AC_ACTIVE, HT_BOOL, 7)], hv_updates = [] \<rparr>"

lemma hvac_up_reachable: "hvac_reachable (hvac_threads CallbackIdle HandlerIdle) hvac_up"
proof -
  let ?s0 = "\<lparr> hv_ids = [], hv_connected = False, hv_registered = False, hv_assigned = [], hv_updates = [] \<rparr>"
  have cb: "hvac_reachable (hvac_threads pc h) s \<Longrightarrow> hvac_step (pc, s) (pc', t) \<Longrightarrow> hvac_reachable (hvac_threads pc' h) t" for pc pc' h s t
    using hvac_reachable.step [of "hvac_threads pc h" s 1 pc' t] by simp
  have "hvac_reachable (hvac_threads CallbackIdle HandlerIdle) ?s0" by (rule hvac_reachable.start) (simp add: hvac_threads_def)
  from cb [OF this, of "Registering 0 True" ?s0] hvac_step.connectivity [of ?s0 CH_READY]
  have "hvac_reachable (hvac_threads (Registering 0 True) HandlerIdle) ?s0" by (simp add: hvac_connectivity_def)
  from cb [OF this hvac_step.register_reply [of 0 True ?s0 7]]
  have "hvac_reachable (hvac_threads (Registering 1 True) HandlerIdle) (hvac_register 0 7 ?s0)" by simp
  from cb [OF this hvac_step.register_reply [of 1 True _ 8]]
  have "hvac_reachable (hvac_threads (Registering (length hvac_datapoints) True) HandlerIdle) (hvac_register 1 8 (hvac_register 0 7 ?s0))"
    by (simp add: numeral_2_eq_2)
  from cb [OF cb [OF cb [OF this hvac_step.register_end] hvac_step.registered]] hvac_step.callback_connected
  have "hvac_reachable (hvac_threads CallbackIdle HandlerIdle) (hvac_register 1 8 (hvac_register 0 7 ?s0)\<lparr>hv_registered := True, hv_connected := True\<rparr>)"
    by fastforce
  moreover have "hvac_register 1 8 (hvac_register 0 7 ?s0)\<lparr>hv_registered := True, hv_connected := True\<rparr> = hvac_up"
    by (simp add: hvac_register_def hvac_datapoints_nth hvac_up_def AC_ACTIVE_def AC_TEMPERATURE_def)
  ultimately show ?thesis by simp
qed

lemma hvac_sending_reachable: "hvac_reachable (hvac_threads CallbackIdle (Sending AC_TEMPERATURE 8 (FloatValue 21))) hvac_up"
proof -
  have "hvac_lookup (SetTemperature 21) hvac_up = Sending AC_TEMPERATURE 8 (FloatValue 21)"
    by (simp add: hvac_lookup_def hvac_up_def AC_ACTIVE_def AC_TEMPERATURE_def)
  then show ?thesis
    using hvac_reachable.step [OF hvac_up_reachable, of 2 "hvac_lookup (SetTemperature 21) hvac_up" hvac_up] hvac_step.request [of hvac_up "SetTemperature 21"]
    by simp
qed

theorem hvac_updates_typed_witness:
  "\<exists>pcs s. hvac_reachable pcs s \<and> hv_updates s = [(8, FloatValue 21)] \<and> (\<exists>name. (name, feed_type (FloatValue 21), 8) \<in> set (hv_assigned s))"
proof -
  let ?t = "snd (hvac_sent 8 (FloatValue 21) None hvac_up)"
  have "hvac_reachable (hvac_threads CallbackIdle Replied) ?t"
    using hvac_reachable.step [OF hvac_sending_reachable, of 2 Replied ?t] hvac_step.sent [of AC_TEMPERATURE 8 "FloatValue 21" hvac_up None]
    by (simp add: hvac_sent_def)
  moreover have "hv_updates ?t = [(8, FloatValue 21)]" by (simp add: hvac_sent_def hvac_up_def)
  ultimately show ?thesis using hvac_updates_typed [of "hvac_threads CallbackIdle Replied" ?t] by auto
qed


end
