(* ===== verification/Can_Codec.thy ===== *)
theory Can_Codec
  imports Seat_Prelude
begin

text \<open>
  The CAN layer below the seat controller: \<open>struct can_frame\<close> of SocketCAN, the two messages of
  \<open>seat_ecu.dbc\<close> the controller uses (\<open>SECU1_STAT\<close> and \<open>SECU1_CMD_1\<close>), and the interface to the
  C code that cantools generates from that file (\<open>CAN.h\<close>, not part of the repository). The
  generated functions are the fields of a \<open>can_codec\<close>, a parameter of the controller; the locale
  \<open>secu_codec\<close> states what the generated code documents about them, and \<open>dbc_codec\<close>, which reads
  the signal tables of the dbc file, is the model's instance of it.
\<close>

section \<open>Frames and messages\<close>

record can_frame =
  can_id :: u32
  can_dlc :: u8
  fdata :: "u8 list"

definition sizeof_can_frame :: int where "sizeof_can_frame = 16"

definition can_frame_zero :: can_frame where
  "can_frame_zero = \<lparr> can_id = 0, can_dlc = 0, fdata = replicate 8 0 \<rparr>"

record CAN_secu1_stat_t =
  stat_motor1_mov_state :: u8
  stat_motor1_learning_state :: u8
  stat_motor2_mov_state :: u8
  stat_motor2_learning_state :: u8
  stat_motor3_mov_state :: u8
  stat_motor3_learning_state :: u8
  stat_motor4_mov_state :: u8
  stat_motor4_learning_state :: u8
  stat_motor1_pos :: u8
  stat_motor2_pos :: u8
  stat_motor3_pos :: u8
  stat_motor4_pos :: u8

record CAN_secu1_cmd_1_t =
  motor1_manual_cmd :: u8
  motor2_manual_cmd :: u8
  motor3_manual_cmd :: u8
  motor4_manual_cmd :: u8
  motor1_set_rpm :: u8
  motor2_set_rpm :: u8
  motor3_set_rpm :: u8
  motor4_set_rpm :: u8

definition CAN_SECU1_STAT_FRAME_ID :: u32 where "CAN_SECU1_STAT_FRAME_ID = 0x712"
definition CAN_SECU1_CMD_1_FRAME_ID :: u32 where "CAN_SECU1_CMD_1_FRAME_ID = 0x705"

text \<open>\<open>sizeof(CAN_secu1_cmd_1_t)\<close>: eight members of one byte.\<close>

definition sizeof_cmd_1 :: nat where "sizeof_cmd_1 = 8"

section \<open>The generated code as a parameter\<close>

text \<open>
  \<open>stat_unpack d n\<close> is \<open>CAN_secu1_stat_unpack(&stat, d, n)\<close>: \<open>None\<close> for a non-zero result,
  otherwise the message. \<open>cmd_1_pack c n\<close> is \<open>CAN_secu1_cmd_1_pack(dst, &c, n)\<close>: \<open>None\<close> for a
  negative result, otherwise the bytes written at the start of \<open>dst\<close>.
\<close>

record can_codec =
  stat_unpack :: "u8 list \<Rightarrow> nat \<Rightarrow> CAN_secu1_stat_t option"
  stat_pos_is_in_range :: "u8 \<Rightarrow> bool"
  stat_mov_state_is_in_range :: "u8 \<Rightarrow> bool"
  stat_learning_state_is_in_range :: "u8 \<Rightarrow> bool"
  cmd_1_pack :: "CAN_secu1_cmd_1_t \<Rightarrow> nat \<Rightarrow> u8 list option"

locale secu_codec =
  fixes K :: can_codec
  assumes unpack_layout: "length d = 8 \<Longrightarrow> 8 \<le> n \<Longrightarrow>
      \<exists>st. stat_unpack K d n = Some st \<and> stat_motor1_mov_state st = d ! 0 AND 3 \<and>
        stat_motor1_learning_state st = drop_bit 2 (d ! 0) AND 3 \<and> stat_motor1_pos st = d ! 2"
    and unpack_short: "n < 8 \<Longrightarrow> stat_unpack K d n = None"
    and pos_range: "stat_pos_is_in_range K v"
    and mov_state_range: "stat_mov_state_is_in_range K v \<longleftrightarrow> v \<le> 3"
    and learning_state_range: "stat_learning_state_is_in_range K v \<longleftrightarrow> v \<le> 3"
    and pack_layout: "5 \<le> n \<Longrightarrow>
      cmd_1_pack K c n = Some
        [(motor1_manual_cmd c AND 3) OR push_bit 2 (motor2_manual_cmd c AND 3)
           OR push_bit 4 (motor3_manual_cmd c AND 3) OR push_bit 6 (motor4_manual_cmd c AND 3),
         motor1_set_rpm c, motor2_set_rpm c, motor3_set_rpm c, motor4_set_rpm c]"
    and pack_short: "n < 5 \<Longrightarrow> cmd_1_pack K c n = None"
begin

lemma unpack_motor1:
  assumes "stat_unpack K d n = Some st" and "length d = 8"
  shows "stat_motor1_mov_state st = d ! 0 AND 3"
    and "stat_motor1_learning_state st = drop_bit 2 (d ! 0) AND 3"
    and "stat_motor1_pos st = d ! 2"
    and "stat_mov_state_is_in_range K (stat_motor1_mov_state st)"
    and "stat_learning_state_is_in_range K (stat_motor1_learning_state st)"
proof -
  from assms(1) have "8 \<le> n"
    using unpack_short [of n d] by (cases "n < 8") auto
  with assms obtain "stat_motor1_mov_state st = d ! 0 AND 3"
    "stat_motor1_learning_state st = drop_bit 2 (d ! 0) AND 3" "stat_motor1_pos st = d ! 2"
    using unpack_layout by force
  then show "stat_motor1_mov_state st = d ! 0 AND 3"
    and "stat_motor1_learning_state st = drop_bit 2 (d ! 0) AND 3"
    and "stat_motor1_pos st = d ! 2"
    and "stat_mov_state_is_in_range K (stat_motor1_mov_state st)"
    and "stat_learning_state_is_in_range K (stat_motor1_learning_state st)"
    by (simp_all add: mov_state_range learning_state_range u8_mask2_le)
qed

end

section \<open>The codec of the dbc file\<close>

text \<open>A signal \<open>start|len@1+ (1,0) [min|max]\<close>: little endian, unsigned, unscaled.\<close>

record dbc_signal =
  sig_start :: nat
  sig_len :: nat
  sig_min :: nat
  sig_max :: nat

definition dbc_signal_2bit :: "nat \<Rightarrow> dbc_signal" where
  "dbc_signal_2bit p = \<lparr> sig_start = p, sig_len = 2, sig_min = 0, sig_max = 3 \<rparr>"

definition dbc_signal_8bit :: "nat \<Rightarrow> dbc_signal" where
  "dbc_signal_8bit p = \<lparr> sig_start = p, sig_len = 8, sig_min = 0, sig_max = 255 \<rparr>"

lemmas dbc_signal_defs = dbc_signal_2bit_def dbc_signal_8bit_def

text \<open>No signal of the two messages crosses a byte boundary.\<close>

definition dbc_get :: "dbc_signal \<Rightarrow> u8 list \<Rightarrow> u8" where
  "dbc_get sg d = take_bit (sig_len sg) (drop_bit (sig_start sg mod 8) (d ! (sig_start sg div 8)))"

definition dbc_put :: "nat \<Rightarrow> dbc_signal \<times> u8 \<Rightarrow> u8" where
  "dbc_put i = (\<lambda>(sg, v). if sig_start sg div 8 = i
      then push_bit (sig_start sg mod 8) (take_bit (sig_len sg) v) else 0)"

definition dbc_in_range :: "dbc_signal \<Rightarrow> u8 \<Rightarrow> bool" where
  "dbc_in_range sg v \<longleftrightarrow> sig_min sg \<le> unat v \<and> unat v \<le> sig_max sg"

definition dbc_SECU1_STAT :: "u8 list \<Rightarrow> nat \<Rightarrow> CAN_secu1_stat_t option" where
  "dbc_SECU1_STAT d n =
     (if n < 8 then None
      else Some
        \<lparr> stat_motor1_mov_state = dbc_get (dbc_signal_2bit 0) d,
          stat_motor1_learning_state = dbc_get (dbc_signal_2bit 2) d,
          stat_motor2_mov_state = dbc_get (dbc_signal_2bit 4) d,
          stat_motor2_learning_state = dbc_get (dbc_signal_2bit 6) d,
          stat_motor3_mov_state = dbc_get (dbc_signal_2bit 8) d,
          stat_motor3_learning_state = dbc_get (dbc_signal_2bit 10) d,
          stat_motor4_mov_state = dbc_get (dbc_signal_2bit 12) d,
          stat_motor4_learning_state = dbc_get (dbc_signal_2bit 14) d,
          stat_motor1_pos = dbc_get (dbc_signal_8bit 16) d,
          stat_motor2_pos = dbc_get (dbc_signal_8bit 24) d,
          stat_motor3_pos = dbc_get (dbc_signal_8bit 32) d,
          stat_motor4_pos = dbc_get (dbc_signal_8bit 40) d \<rparr>)"

definition dbc_SECU1_CMD_1_signals :: "CAN_secu1_cmd_1_t \<Rightarrow> (dbc_signal \<times> u8) list" where
  "dbc_SECU1_CMD_1_signals c =
     [(dbc_signal_2bit 0, motor1_manual_cmd c),
      (dbc_signal_2bit 2, motor2_manual_cmd c),
      (dbc_signal_2bit 4, motor3_manual_cmd c),
      (dbc_signal_2bit 6, motor4_manual_cmd c),
      (dbc_signal_8bit 8, motor1_set_rpm c),
      (dbc_signal_8bit 16, motor2_set_rpm c),
      (dbc_signal_8bit 24, motor3_set_rpm c),
      (dbc_signal_8bit 32, motor4_set_rpm c)]"

definition dbc_SECU1_CMD_1 :: "CAN_secu1_cmd_1_t \<Rightarrow> nat \<Rightarrow> u8 list option" where
  "dbc_SECU1_CMD_1 c n =
     (if n < 5 then None
      else Some (map (\<lambda>i. foldr (\<lambda>x b. dbc_put i x OR b) (dbc_SECU1_CMD_1_signals c) 0) [0, 1, 2, 3, 4]))"

definition dbc_codec :: can_codec where
  "dbc_codec =
     \<lparr> stat_unpack = dbc_SECU1_STAT,
       stat_pos_is_in_range = dbc_in_range (dbc_signal_8bit 16),
       stat_mov_state_is_in_range = dbc_in_range (dbc_signal_2bit 0),
       stat_learning_state_is_in_range = dbc_in_range (dbc_signal_2bit 2),
       cmd_1_pack = dbc_SECU1_CMD_1 \<rparr>"

lemma take_bit_2_u8: "take_bit 2 (w :: u8) = w AND 3"
  by (simp add: take_bit_eq_mask mask_eq_exp_minus_1)

lemma take_bit_8_u8: "take_bit 8 (w :: u8) = w"
  by (simp add: take_bit_word_eq_self)

lemma dbc_in_range_8bit: "dbc_in_range (dbc_signal_8bit p) v"
  using unsigned_less [of v, where ?'a = nat] by (simp add: dbc_in_range_def dbc_signal_defs)

lemma dbc_in_range_2bit: "dbc_in_range (dbc_signal_2bit p) v \<longleftrightarrow> v \<le> 3"
  by (simp add: dbc_in_range_def dbc_signal_defs word_le_nat_alt)

interpretation dbc: secu_codec dbc_codec
proof unfold_locales
  fix d :: "u8 list" and n :: nat and v :: u8 and c :: CAN_secu1_cmd_1_t
  show "length d = 8 \<Longrightarrow> 8 \<le> n \<Longrightarrow>
      \<exists>st. stat_unpack dbc_codec d n = Some st \<and> stat_motor1_mov_state st = d ! 0 AND 3 \<and>
        stat_motor1_learning_state st = drop_bit 2 (d ! 0) AND 3 \<and> stat_motor1_pos st = d ! 2"
    by (simp add: dbc_codec_def dbc_SECU1_STAT_def dbc_get_def dbc_signal_defs take_bit_2_u8 take_bit_8_u8)
  show "n < 8 \<Longrightarrow> stat_unpack dbc_codec d n = None"
    by (simp add: dbc_codec_def dbc_SECU1_STAT_def)
  show "stat_pos_is_in_range dbc_codec v"
    by (simp add: dbc_codec_def dbc_in_range_8bit)
  show "stat_mov_state_is_in_range dbc_codec v \<longleftrightarrow> v \<le> 3"
    by (simp add: dbc_codec_def dbc_in_range_2bit)
  show "stat_learning_state_is_in_range dbc_codec v \<longleftrightarrow> v \<le> 3"
    by (simp add: dbc_codec_def dbc_in_range_2bit)
  show "5 \<le> n \<Longrightarrow> cmd_1_pack dbc_codec c n = Some
        [(motor1_manual_cmd c AND 3) OR push_bit 2 (motor2_manual_cmd c AND 3)
           OR push_bit 4 (motor3_manual_cmd c AND 3) OR push_bit 6 (motor4_manual_cmd c AND 3),
         motor1_set_rpm c, motor2_set_rpm c, motor3_set_rpm c, motor4_set_rpm c]"
    by (simp add: dbc_codec_def dbc_SECU1_CMD_1_def dbc_SECU1_CMD_1_signals_def dbc_put_def
        dbc_signal_defs take_bit_2_u8 take_bit_8_u8 push_bit_eq_mult ac_simps)
  show "n < 5 \<Longrightarrow> cmd_1_pack dbc_codec c n = None"
    by (simp add: dbc_codec_def dbc_SECU1_CMD_1_def)
qed

end
