(* ===== verification/Seat_Controller.thy ===== *)
theory Seat_Controller
  imports Can_Codec
begin

text \<open>
  \<open>seat_controller.h\<close> and \<open>seat_controller.cc\<close>: the context structure, every function of the public
  API, the handler of \<open>SECU1_STAT\<close> frames, the control loop and the body of the CTL thread.

  The state \<open>sys\<close> holds the context, the file's static variables, the
  state of the operating system (a parameter \<open>'w\<close>) and two logs of what the code did to the outside:
  \<open>tx\<close>, the frames it passed to \<open>write()\<close>, and \<open>cbs\<close>, the event callbacks it made. System calls are the
  fields of an \<open>os\<close>. A call that blocks (\<open>usleep\<close>, \<open>read\<close>, \<open>pthread_join\<close>) maps a whole \<open>sys\<close> to a
  \<open>sys\<close>: it is where the other thread runs, and what that thread may do is a hypothesis on the call.
  Messages printed for the user have no counterpart.
\<close>

section \<open>Constants and data types (seat_controller.h)\<close>

definition SEAT_CTRL_OK :: int where "SEAT_CTRL_OK = 0"
definition SEAT_CTRL_ERR :: int where "SEAT_CTRL_ERR = -1"
definition SEAT_CTRL_ERR_NO_CAN :: int where "SEAT_CTRL_ERR_NO_CAN = -2"
definition SEAT_CTRL_ERR_IFR :: int where "SEAT_CTRL_ERR_IFR = -3"
definition SEAT_CTRL_ERR_CAN_BIND :: int where "SEAT_CTRL_ERR_CAN_BIND = -4"
definition SEAT_CTRL_ERR_CAN_IO :: int where "SEAT_CTRL_ERR_CAN_IO = -5"
definition SEAT_CTRL_ERR_INVALID :: int where "SEAT_CTRL_ERR_INVALID = - EINVAL"
definition SEAT_CTRL_ERR_NO_FRAMES :: int where "SEAT_CTRL_ERR_NO_FRAMES = -42"

lemmas SEAT_CTRL_defs = SEAT_CTRL_OK_def SEAT_CTRL_ERR_def SEAT_CTRL_ERR_NO_CAN_def
  SEAT_CTRL_ERR_IFR_def SEAT_CTRL_ERR_CAN_BIND_def SEAT_CTRL_ERR_CAN_IO_def
  SEAT_CTRL_ERR_INVALID_def SEAT_CTRL_ERR_NO_FRAMES_def EINVAL_def

definition SOCKET_INVALID :: int where "SOCKET_INVALID = -1"
definition MOTOR_POS_INVALID :: u8 where "MOTOR_POS_INVALID = 0xFF"
definition DEFAULT_RPM :: int where "DEFAULT_RPM = 80"
definition DEFAULT_OPERATION_TIMEOUT :: int where "DEFAULT_OPERATION_TIMEOUT = 15000"
definition SEAT_CTRL_CONTEXT_MAGIC :: u32 where "SEAT_CTRL_CONTEXT_MAGIC = 0xDEC0DE00"
definition LEARNED_MODE_RATE :: int where "LEARNED_MODE_RATE = 10 * 1000"

datatype SeatCtrlEvent = CanError | Motor1Pos

datatype MotorDirection = OFF | DEC | INC | INV

fun MotorDirection_val :: "MotorDirection \<Rightarrow> u8" where
  "MotorDirection_val OFF = 0"
| "MotorDirection_val DEC = 1"
| "MotorDirection_val INC = 2"
| "MotorDirection_val INV = 3"

datatype LearningState = NotLearned | Learned | Invalid

fun LearningState_val :: "LearningState \<Rightarrow> u8" where
  "LearningState_val NotLearned = 0"
| "LearningState_val Learned = 1"
| "LearningState_val Invalid = 2"

text \<open>A pointer argument is \<open>None\<close> for \<open>NULL\<close>; \<open>can_device\<close> is such a pointer, too.\<close>

record seatctrl_config_t =
  can_device :: "string option"
  debug_raw :: bool
  debug_ctl :: bool
  debug_stats :: bool
  debug_verbose :: bool
  command_timeout :: int
  motor_rpm :: int

record seatctrl_context_t =
  magic :: u32
  config :: seatctrl_config_t
  socket :: int
  running :: bool
  thread_id :: nat
  command_ts :: int
  desired_position :: u8
  desired_direction :: MotorDirection
  motor1_pos :: u8
  motor1_mov_state :: u8
  motor1_learning_state :: u8
  event_cb :: "nat option"
  event_cb_user_data :: nat

text \<open>The one context object of the model; an API call gets a pointer to it or \<open>NULL\<close>.\<close>

datatype ctx_ptr = NULL | CTX

datatype cb_call = CbCall nat SeatCtrlEvent int nat

section \<open>The state and the operating system\<close>

record 'w sys =
  ctx :: seatctrl_context_t
  last_ctl_pos :: int
  last_ctl_dir :: int
  learned_mode :: bool
  learned_mode_changed :: int
  tx :: "can_frame list"
  cbs :: "cb_call list"
  world :: 'w

text \<open>
  Results: \<open>os_write\<close> and \<open>os_read\<close> give the returned count and \<open>errno\<close> (\<open>os_read\<close> also the
  buffer), \<open>os_ioctl_ifindex\<close> is \<open>None\<close> for \<open>-1\<close>, \<open>os_pthread_create\<close> gives its result and the
  thread id. The clock is read without being changed: time passes in the calls that block.
\<close>

record 'w os =
  os_clock :: "'w \<Rightarrow> int \<times> int"
  os_socket :: "'w \<Rightarrow> int \<times> 'w"
  os_ioctl_ifindex :: "int \<Rightarrow> string \<Rightarrow> 'w \<Rightarrow> int option \<times> 'w"
  os_bind :: "int \<Rightarrow> int \<Rightarrow> 'w \<Rightarrow> int \<times> 'w"
  os_setsockopt :: "int \<Rightarrow> 'w \<Rightarrow> int \<times> 'w"
  os_write :: "int \<Rightarrow> can_frame \<Rightarrow> 'w \<Rightarrow> (int \<times> int) \<times> 'w"
  os_close :: "int \<Rightarrow> 'w \<Rightarrow> int \<times> 'w"
  os_pthread_create :: "'w \<Rightarrow> (int \<times> nat) \<times> 'w"
  os_read :: "int \<Rightarrow> 'w sys \<Rightarrow> (int \<times> int \<times> can_frame) \<times> 'w sys"
  os_usleep :: "int \<Rightarrow> 'w sys \<Rightarrow> 'w sys"
  os_pthread_join :: "nat \<Rightarrow> 'w sys \<Rightarrow> int \<times> 'w sys"

definition upd_ctx :: "(seatctrl_context_t \<Rightarrow> seatctrl_context_t) \<Rightarrow> 'w sys \<Rightarrow> 'w sys" where
  [simp]: "upd_ctx f s = s\<lparr>ctx := f (ctx s)\<rparr>"

text \<open>The call \<open>ctx->event_cb(type, value, ctx->event_cb_user_data)\<close> behind its null check.\<close>

definition call_event_cb :: "SeatCtrlEvent \<Rightarrow> int \<Rightarrow> 'w sys \<Rightarrow> 'w sys" where
  "call_event_cb ev v s =
     (case event_cb (ctx s) of
        None \<Rightarrow> s
      | Some f \<Rightarrow> s\<lparr>cbs := cbs s @ [CbCall f ev v (event_cb_user_data (ctx s))]\<rparr>)"

section \<open>Helpers\<close>

definition mov_state_string :: "int \<Rightarrow> string" where
  "mov_state_string dir =
     (if dir = uint (MotorDirection_val OFF) then ''OFF''
      else if dir = uint (MotorDirection_val INC) then ''INC''
      else if dir = uint (MotorDirection_val DEC) then ''DEC''
      else if dir = uint (MotorDirection_val INV) then ''INV''
      else ''Undefined!'')"

definition learning_state_string :: "int \<Rightarrow> string" where
  "learning_state_string st =
     (if st = 0 then ''NOK'' else if st = 1 then ''OK'' else if st = 2 then ''INV'' else ''Undefined!'')"

definition get_ts :: "'w os \<Rightarrow> 'w sys \<Rightarrow> int" where
  "get_ts os s = (case os_clock os (world s) of (sec, nsec) \<Rightarrow> sec * 1000 + nsec div 1000000)"

definition is_ctl_running :: "seatctrl_context_t \<Rightarrow> bool" where
  "is_ctl_running c \<longleftrightarrow>
     socket c \<noteq> SOCKET_INVALID \<and> command_ts c > 0 \<and>
     desired_direction c \<noteq> OFF \<and> desired_position c \<noteq> MOTOR_POS_INVALID"

section \<open>Frames from the ECU\<close>

definition handle_secu_stat :: "can_codec \<Rightarrow> can_frame \<Rightarrow> 'w sys \<Rightarrow> int \<times> 'w sys" where
  "handle_secu_stat K frame s =
     (if can_id frame \<noteq> CAN_SECU1_STAT_FRAME_ID then (SEAT_CTRL_ERR_INVALID, s)
      else case stat_unpack K (fdata frame) (unat (can_dlc frame)) of
        None \<Rightarrow> (SEAT_CTRL_ERR, s)
      | Some stat \<Rightarrow>
          if stat_pos_is_in_range K (stat_motor1_pos stat) \<and>
             (uint (stat_motor1_pos stat) \<le> 100 \<or> stat_motor1_pos stat = MOTOR_POS_INVALID) \<and>
             stat_mov_state_is_in_range K (stat_motor1_mov_state stat) \<and>
             stat_learning_state_is_in_range K (stat_motor1_learning_state stat)
          then
            let s1 = (if running (ctx s) \<and> event_cb (ctx s) \<noteq> None \<and>
                         motor1_pos (ctx s) \<noteq> stat_motor1_pos stat
                      then call_event_cb Motor1Pos (uint (stat_motor1_pos stat)) s else s)
            in (SEAT_CTRL_OK,
                upd_ctx (\<lambda>c. c\<lparr>motor1_mov_state := stat_motor1_mov_state stat,
                  motor1_learning_state := stat_motor1_learning_state stat,
                  motor1_pos := stat_motor1_pos stat\<rparr>) s1)
          else (SEAT_CTRL_ERR_INVALID, s))"

definition seatctrl_get_position :: "ctx_ptr \<Rightarrow> 'w sys \<Rightarrow> int" where
  "seatctrl_get_position p s =
     (if p = NULL \<or> magic (ctx s) \<noteq> SEAT_CTRL_CONTEXT_MAGIC then SEAT_CTRL_ERR_INVALID
      else if \<not> running (ctx s) then SEAT_CTRL_ERR
      else uint (motor1_pos (ctx s)))"

section \<open>Commands to the ECU\<close>

definition cmd_1_zero :: CAN_secu1_cmd_1_t where
  "cmd_1_zero = \<lparr> motor1_manual_cmd = 0, motor2_manual_cmd = 0, motor3_manual_cmd = 0,
     motor4_manual_cmd = 0, motor1_set_rpm = 0, motor2_set_rpm = 0, motor3_set_rpm = 0,
     motor4_set_rpm = 0 \<rparr>"

definition cmd1_frame :: "u8 list \<Rightarrow> can_frame" where
  "cmd1_frame bytes =
     can_frame_zero\<lparr>can_id := CAN_SECU1_CMD_1_FRAME_ID,
       fdata := bytes @ drop (length bytes) (fdata can_frame_zero),
       can_dlc := 8\<rparr>"

definition seatctrl_send_cmd1 :: "can_codec \<Rightarrow> 'w os \<Rightarrow> u8 \<Rightarrow> u8 \<Rightarrow> 'w sys \<Rightarrow> int \<times> 'w sys" where
  "seatctrl_send_cmd1 K os motor1_dir motor1_rpm s =
     (if socket (ctx s) = SOCKET_INVALID then (SEAT_CTRL_ERR, s)
      else case cmd_1_pack K (cmd_1_zero\<lparr>motor1_manual_cmd := motor1_dir,
             motor1_set_rpm := motor1_rpm\<rparr>) sizeof_cmd_1 of
        None \<Rightarrow> (SEAT_CTRL_ERR, s)
      | Some bytes \<Rightarrow>
          (case os_write os (socket (ctx s)) (cmd1_frame bytes) (world s) of
             ((ret, err), w) \<Rightarrow>
               let s1 = s\<lparr>tx := tx s @ [cmd1_frame bytes], world := w\<rparr>
               in if ret \<noteq> sizeof_can_frame
                  then (SEAT_CTRL_ERR_CAN_IO, call_event_cb CanError err s1)
                  else (SEAT_CTRL_OK, s1)))"

definition invalidate_command :: "seatctrl_context_t \<Rightarrow> seatctrl_context_t" where
  "invalidate_command c =
     c\<lparr>desired_position := MOTOR_POS_INVALID, desired_direction := OFF, command_ts := 0\<rparr>"

definition seatctrl_stop_movement :: "can_codec \<Rightarrow> 'w os \<Rightarrow> 'w sys \<Rightarrow> int \<times> 'w sys" where
  "seatctrl_stop_movement K os s =
     (case seatctrl_send_cmd1 K os (MotorDirection_val OFF) 0 s of
        (rc, s1) \<Rightarrow> (rc, upd_ctx invalidate_command s1))"

text \<open>The loop of at most \<open>n\<close> retries that waits for a first position.\<close>

fun wait_motor1_pos :: "'w os \<Rightarrow> nat \<Rightarrow> 'w sys \<Rightarrow> 'w sys" where
  "wait_motor1_pos os 0 s = s"
| "wait_motor1_pos os (Suc n) s =
     (if motor1_pos (ctx s) \<noteq> MOTOR_POS_INVALID then s
      else wait_motor1_pos os n (os_usleep os (100 * 1000) s))"

text \<open>From the calculation of the direction to the end of \<open>seatctrl_set_position()\<close>.\<close>

definition set_position_start ::
    "can_codec \<Rightarrow> 'w os \<Rightarrow> int \<Rightarrow> int \<Rightarrow> 'w sys \<Rightarrow> int \<times> 'w sys" where
  "set_position_start K os current_pos desired s =
     (let direction = (if current_pos < desired then INC else DEC);
          s1 = upd_ctx (\<lambda>c. c\<lparr>command_ts := get_ts os s, desired_direction := direction,
                 desired_position := to_u8 desired\<rparr>) s
      in seatctrl_send_cmd1 K os (MotorDirection_val direction) (to_u8 (motor_rpm (config (ctx s1)))) s1)"

text \<open>From the second read of the position, after the pause, to the end.\<close>

definition set_position_resume :: "can_codec \<Rightarrow> 'w os \<Rightarrow> int \<Rightarrow> 'w sys \<Rightarrow> int \<times> 'w sys" where
  "set_position_resume K os desired s =
     (let current_pos = uint (motor1_pos (ctx s))
      in if current_pos = desired then
           (if motor1_mov_state (ctx s) \<noteq> MotorDirection_val OFF
            then (SEAT_CTRL_OK, snd (seatctrl_stop_movement K os s))
            else (SEAT_CTRL_OK, upd_ctx invalidate_command s))
         else set_position_start K os current_pos desired s)"

text \<open>From the stop command (``always send motor off command'') on.\<close>

definition set_position_move :: "can_codec \<Rightarrow> 'w os \<Rightarrow> int \<Rightarrow> 'w sys \<Rightarrow> int \<times> 'w sys" where
  "set_position_move K os desired s =
     set_position_resume K os desired
       (os_usleep os (100 * 1000) (snd (seatctrl_stop_movement K os s)))"

definition seatctrl_set_position ::
    "can_codec \<Rightarrow> 'w os \<Rightarrow> ctx_ptr \<Rightarrow> int \<Rightarrow> 'w sys \<Rightarrow> int \<times> 'w sys" where
  "seatctrl_set_position K os p desired s =
     (if p = NULL \<or> magic (ctx s) \<noteq> SEAT_CTRL_CONTEXT_MAGIC then (SEAT_CTRL_ERR_INVALID, s)
      else if desired < 0 \<or> desired > 100 then (SEAT_CTRL_ERR_INVALID, s)
      else if motor1_pos (ctx s) = MOTOR_POS_INVALID then
        (let s1 = wait_motor1_pos os 30 s
         in if motor1_pos (ctx s1) = MOTOR_POS_INVALID then (SEAT_CTRL_ERR_NO_FRAMES, s1)
            else set_position_move K os desired s1)
      else set_position_move K os desired s)"

section \<open>The control loop\<close>

definition update_learned_mode :: "'w os \<Rightarrow> 'w sys \<Rightarrow> 'w sys" where
  "update_learned_mode os s =
     (let ts = to_int32 (get_ts os s);
          changed = (if ts - learned_mode_changed s > LEARNED_MODE_RATE then ts
                     else learned_mode_changed s)
      in if learned_mode s \<and> motor1_learning_state (ctx s) = LearningState_val NotLearned
         then s\<lparr>learned_mode := False, learned_mode_changed := changed\<rparr>
         else if \<not> learned_mode s \<and> motor1_learning_state (ctx s) = LearningState_val Learned
         then s\<lparr>learned_mode := True, learned_mode_changed := changed\<rparr>
         else s)"

text \<open>Has the ECU reported something new since the last pass? (``reduce frequency of dumps'')\<close>

definition ctl_changed :: "'w sys \<Rightarrow> bool" where
  "ctl_changed s \<longleftrightarrow>
     last_ctl_pos s \<noteq> uint (motor1_pos (ctx s)) \<or> last_ctl_dir s \<noteq> uint (motor1_mov_state (ctx s))"

definition ctl_note_state :: "'w sys \<Rightarrow> 'w sys" where
  "ctl_note_state s =
     s\<lparr>last_ctl_dir := uint (motor1_mov_state (ctx s)), last_ctl_pos := uint (motor1_pos (ctx s))\<rparr>"

text \<open>The ECU stopped short of the target: the workaround sends off, waits, sends the command again.\<close>

definition ctl_stalled :: "seatctrl_context_t \<Rightarrow> bool" where
  "ctl_stalled c \<longleftrightarrow>
     motor1_mov_state c \<noteq> MotorDirection_val (desired_direction c) \<and>
     motor1_pos c \<noteq> desired_position c \<and>
     motor1_mov_state c = MotorDirection_val OFF"

definition ctl_resend_cmd :: "can_codec \<Rightarrow> 'w os \<Rightarrow> 'w sys \<Rightarrow> 'w sys" where
  "ctl_resend_cmd K os s =
     snd (seatctrl_send_cmd1 K os (MotorDirection_val (desired_direction (ctx s)))
            (to_u8 (motor_rpm (config (ctx s)))) s)"

definition ctl_resend :: "can_codec \<Rightarrow> 'w os \<Rightarrow> 'w sys \<Rightarrow> 'w sys" where
  "ctl_resend K os s =
     ctl_resend_cmd K os
       (os_usleep os (100 * 1000) (snd (seatctrl_send_cmd1 K os (MotorDirection_val OFF) 0 s)))"

definition ctl_state_changed :: "can_codec \<Rightarrow> 'w os \<Rightarrow> 'w sys \<Rightarrow> 'w sys" where
  "ctl_state_changed K os s =
     (if ctl_changed s
      then ctl_note_state (if ctl_stalled (ctx s) then ctl_resend K os s else s)
      else s)"

definition ctl_stop :: "can_codec \<Rightarrow> 'w os \<Rightarrow> 'w sys \<Rightarrow> 'w sys" where
  "ctl_stop K os s =
     (snd (seatctrl_stop_movement K os s))\<lparr>last_ctl_dir := 0, last_ctl_pos := uint MOTOR_POS_INVALID\<rparr>"

definition target_reached :: "seatctrl_context_t \<Rightarrow> bool" where
  "target_reached c \<longleftrightarrow>
     motor1_pos c \<noteq> MOTOR_POS_INVALID \<and>
     (desired_direction c = INC \<and> motor1_pos c \<ge> desired_position c \<or>
      desired_direction c = DEC \<and> motor1_pos c \<le> desired_position c)"

definition ctl_check_end :: "can_codec \<Rightarrow> 'w os \<Rightarrow> int \<Rightarrow> 'w sys \<Rightarrow> 'w sys" where
  "ctl_check_end K os elapsed s =
     (if target_reached (ctx s) then ctl_stop K os s
      else if elapsed > command_timeout (config (ctx s)) then ctl_stop K os s
      else s)"

text \<open>The preliminary phase: the command is younger than 500 ms and the motor has not started.\<close>

definition ctl_preliminary :: "int \<Rightarrow> seatctrl_context_t \<Rightarrow> bool" where
  "ctl_preliminary elapsed c \<longleftrightarrow>
     elapsed < 500 \<and> motor1_mov_state c = MotorDirection_val OFF \<and> motor1_pos c \<noteq> desired_position c"

definition seatctrl_control_loop :: "can_codec \<Rightarrow> 'w os \<Rightarrow> 'w sys \<Rightarrow> int \<times> 'w sys" where
  "seatctrl_control_loop K os s0 =
     (let s = update_learned_mode os s0
      in if is_ctl_running (ctx s) then
           let elapsed = get_ts os s - command_ts (ctx s)
           in if ctl_preliminary elapsed (ctx s)
              then (SEAT_CTRL_OK, os_usleep os 1000 s)
              else (SEAT_CTRL_OK, ctl_check_end K os elapsed (ctl_state_changed K os s))
         else (SEAT_CTRL_OK, s))"

section \<open>The CTL thread\<close>

datatype loop_exit = Continue | Break

text \<open>One pass through the loop of \<open>seatctrl_threadFunc()\<close>.\<close>

definition threadFunc_body :: "can_codec \<Rightarrow> 'w os \<Rightarrow> 'w sys \<Rightarrow> loop_exit \<times> 'w sys" where
  "threadFunc_body K os s =
     (case os_read os (socket (ctx s)) s of
        ((cnt, err, frame), s1) \<Rightarrow>
          if cnt < 0 \<and> err = EAGAIN then
            (if \<not> running (ctx s1) then (Break, s1)
             else (Continue, os_usleep os (1000 * 1000) s1))
          else if cnt < 0 \<and> err = EINTR then (Continue, os_usleep os (1 * 1000) s1)
          else if cnt < 0 then
            (let s2 = call_event_cb CanError err (os_usleep os (1000 * 1000) s1)
             in if cnt = ENETDOWN then (Continue, s2) else (Break, s2))
          else
            (let s2 = (if can_id frame = CAN_SECU1_STAT_FRAME_ID then
                         (case handle_secu_stat K frame s1 of
                            (rc, s') \<Rightarrow> if rc = SEAT_CTRL_OK
                                        then snd (seatctrl_control_loop K os s') else s')
                       else s1)
             in (Continue, os_usleep os 1000 s2)))"

definition threadFunc_guard :: "'w sys \<Rightarrow> bool" where
  "threadFunc_guard s \<longleftrightarrow> running (ctx s) \<and> socket (ctx s) \<noteq> SOCKET_INVALID"

text \<open>\<open>seatctrl_threadFunc\<close> for at most \<open>n\<close> passes through its loop (\<open>None\<close>: still in the loop).\<close>

definition threadFunc_start :: "'w sys \<Rightarrow> 'w sys" where
  "threadFunc_start s = upd_ctx (\<lambda>c. c\<lparr>running := True\<rparr>) s"

fun threadFunc_loop :: "can_codec \<Rightarrow> 'w os \<Rightarrow> nat \<Rightarrow> 'w sys \<Rightarrow> 'w sys option" where
  "threadFunc_loop K os 0 s = None"
| "threadFunc_loop K os (Suc n) s =
     (if threadFunc_guard s then
        (case threadFunc_body K os s of
           (Break, s') \<Rightarrow> Some s'
         | (Continue, s') \<Rightarrow> threadFunc_loop K os n s')
      else Some s)"

definition seatctrl_threadFunc :: "can_codec \<Rightarrow> 'w os \<Rightarrow> nat \<Rightarrow> 'w sys \<Rightarrow> 'w sys option" where
  "seatctrl_threadFunc K os n s = threadFunc_loop K os n (threadFunc_start s)"

section \<open>Life cycle\<close>

definition env_int :: "environ \<Rightarrow> string \<Rightarrow> int \<Rightarrow> int" where
  "env_int env name d = (case env name of None \<Rightarrow> d | Some v \<Rightarrow> atoi v)"

definition env_bool :: "environ \<Rightarrow> string \<Rightarrow> bool \<Rightarrow> bool" where
  "env_bool env name d = (case env name of None \<Rightarrow> d | Some v \<Rightarrow> atoi v \<noteq> 0)"

text \<open>The argument is the memory the pointer refers to, \<open>None\<close> for \<open>NULL\<close>.\<close>

definition seatctrl_default_config ::
    "environ \<Rightarrow> seatctrl_config_t option \<Rightarrow> int \<times> seatctrl_config_t option" where
  "seatctrl_default_config env p =
     (case p of
        None \<Rightarrow> (SEAT_CTRL_ERR_INVALID, None)
      | Some _ \<Rightarrow>
          let cfg = \<lparr> can_device = Some (case env ''SC_CAN'' of None \<Rightarrow> ''can0'' | Some d \<Rightarrow> d),
                debug_raw = env_bool env ''SC_RAW'' False,
                debug_ctl = env_bool env ''SC_CTL'' True,
                debug_stats = env_bool env ''SC_STAT'' True,
                debug_verbose = env_bool env ''SC_VERBOSE'' False,
                command_timeout = env_int env ''SC_TIMEOUT'' DEFAULT_OPERATION_TIMEOUT,
                motor_rpm = env_int env ''SC_RPM'' DEFAULT_RPM \<rparr>
          in if motor_rpm cfg < 1 \<or> motor_rpm cfg > 254
             then (SEAT_CTRL_ERR_INVALID, Some (cfg\<lparr>motor_rpm := DEFAULT_RPM\<rparr>))
             else (SEAT_CTRL_OK, Some cfg))"

definition seatctrl_init_ctx :: "ctx_ptr \<Rightarrow> seatctrl_config_t option \<Rightarrow> 'w sys \<Rightarrow> int \<times> 'w sys" where
  "seatctrl_init_ctx p cfg s =
     (case cfg of
        None \<Rightarrow> (SEAT_CTRL_ERR_INVALID, s)
      | Some cf \<Rightarrow>
          if p = NULL then (SEAT_CTRL_ERR_INVALID, s)
          else if can_device cf = None then (SEAT_CTRL_ERR_INVALID, s)
          else (SEAT_CTRL_OK, s\<lparr>ctx :=
            \<lparr> magic = SEAT_CTRL_CONTEXT_MAGIC, config = cf, socket = SOCKET_INVALID, running = False,
              thread_id = 0, command_ts = 0, desired_position = MOTOR_POS_INVALID,
              desired_direction = OFF, motor1_pos = MOTOR_POS_INVALID,
              motor1_mov_state = MotorDirection_val INV,
              motor1_learning_state = LearningState_val Invalid,
              event_cb = None, event_cb_user_data = 0 \<rparr>\<rparr>))"

definition IFNAMSIZ :: nat where "IFNAMSIZ = 16"

text \<open>\<open>seatctrl_open()\<close> once the socket is there: interface index, bind, receive timeout, thread.\<close>

definition open_bind :: "'w os \<Rightarrow> string \<Rightarrow> 'w sys \<Rightarrow> int \<times> 'w sys" where
  "open_bind os dev s =
     (let fd = socket (ctx s);
          (idx, w1) = os_ioctl_ifindex os fd (take (IFNAMSIZ - 1) dev) (world s);
          (brc, w2) = os_bind os fd (case idx of None \<Rightarrow> -1 | Some i \<Rightarrow> i) w1
      in if brc < 0 then (SEAT_CTRL_ERR_CAN_BIND, s\<lparr>world := w2\<rparr>)
         else
           let (_, w3) = os_setsockopt os fd w2;
               ((rc, tid), w4) = os_pthread_create os w3
           in if rc \<noteq> 0
              then (SEAT_CTRL_ERR, upd_ctx (\<lambda>c. c\<lparr>thread_id := 0\<rparr>) (s\<lparr>world := w4\<rparr>))
              else (SEAT_CTRL_OK, upd_ctx (\<lambda>c. c\<lparr>thread_id := tid\<rparr>) (s\<lparr>world := w4\<rparr>)))"

definition seatctrl_open :: "'w os \<Rightarrow> ctx_ptr \<Rightarrow> 'w sys \<Rightarrow> int \<times> 'w sys" where
  "seatctrl_open os p s =
     (if p = NULL \<or> magic (ctx s) \<noteq> SEAT_CTRL_CONTEXT_MAGIC then (SEAT_CTRL_ERR_INVALID, s)
      else case can_device (config (ctx s)) of
        None \<Rightarrow> (SEAT_CTRL_ERR_INVALID, s)
      | Some dev \<Rightarrow>
          if socket (ctx s) \<noteq> SOCKET_INVALID then (SEAT_CTRL_ERR, s)
          else if running (ctx s) \<or> thread_id (ctx s) \<noteq> 0 then (SEAT_CTRL_ERR, s)
          else (case os_socket os (world s) of
            (fd, w) \<Rightarrow>
              if fd < 0
              then (SEAT_CTRL_ERR_NO_CAN, upd_ctx (\<lambda>c. c\<lparr>socket := SOCKET_INVALID\<rparr>) (s\<lparr>world := w\<rparr>))
              else open_bind os dev (upd_ctx (\<lambda>c. c\<lparr>socket := fd\<rparr>) (s\<lparr>world := w\<rparr>))))"

definition seatctrl_set_event_callback ::
    "ctx_ptr \<Rightarrow> nat option \<Rightarrow> nat \<Rightarrow> 'w sys \<Rightarrow> int \<times> 'w sys" where
  "seatctrl_set_event_callback p cb user_data s =
     (if p = NULL \<or> magic (ctx s) \<noteq> SEAT_CTRL_CONTEXT_MAGIC then (SEAT_CTRL_ERR_INVALID, s)
      else (SEAT_CTRL_OK, upd_ctx (\<lambda>c. c\<lparr>event_cb := cb, event_cb_user_data := user_data\<rparr>) s))"

definition close_socket :: "'w os \<Rightarrow> 'w sys \<Rightarrow> int \<times> 'w sys" where
  "close_socket os s =
     (if socket (ctx s) \<noteq> SOCKET_INVALID then
        (case os_close os (socket (ctx s)) (world s) of
           (res, w) \<Rightarrow> (if res < 0 then SEAT_CTRL_ERR else SEAT_CTRL_OK,
                        upd_ctx (\<lambda>c. c\<lparr>socket := SOCKET_INVALID\<rparr>) (s\<lparr>world := w\<rparr>)))
      else (SEAT_CTRL_OK, s))"

definition close_thread :: "'w os \<Rightarrow> nat \<Rightarrow> int \<Rightarrow> 'w sys \<Rightarrow> int \<times> 'w sys" where
  "close_thread os self rc s =
     (if thread_id (ctx s) \<noteq> 0 then
        let (rc1, s1) =
          (if self = thread_id (ctx s) then (rc, s)
           else (case os_pthread_join os (thread_id (ctx s)) s of
                   (res, s') \<Rightarrow> (if res \<noteq> 0 then SEAT_CTRL_ERR else rc, s')))
        in (rc1, upd_ctx (\<lambda>c. c\<lparr>thread_id := 0\<rparr>) s1)
      else (rc, s))"

definition seatctrl_close :: "'w os \<Rightarrow> nat \<Rightarrow> ctx_ptr \<Rightarrow> 'w sys \<Rightarrow> int \<times> 'w sys" where
  "seatctrl_close os self p s =
     (if p = NULL \<or> magic (ctx s) \<noteq> SEAT_CTRL_CONTEXT_MAGIC then (SEAT_CTRL_ERR_INVALID, s)
      else
        let s1 = os_usleep os 5000 (upd_ctx (\<lambda>c. c\<lparr>running := False\<rparr>) s);
            (rc, s2) = close_socket os s1
        in close_thread os self rc s2)"

end
