(* ===== verification/Seat_Control_Laws.thy ===== *)
theory Seat_Control_Laws
  imports Seat_Controller
begin

text \<open>
  What the operations of the seat controller do: which parts of the state each leaves alone, the frames
  they send, the invariant of the context and its preservation, and the behaviour of
  \<open>seatctrl_set_position\<close> and of the control loop on every branch.
\<close>

section \<open>What an operation leaves unchanged\<close>

lemma sys_world_self: "\<exists>w. (s :: 'w sys) = s\<lparr>world := w\<rparr>"
  by (rule exI [of _ "world s"]) simp

lemma call_event_cb_frame [simp, frame_simps]:
  "ctx (call_event_cb ev v s) = ctx s" "tx (call_event_cb ev v s) = tx s"
  "world (call_event_cb ev v s) = world s" "last_ctl_pos (call_event_cb ev v s) = last_ctl_pos s"
  "last_ctl_dir (call_event_cb ev v s) = last_ctl_dir s"
  "learned_mode (call_event_cb ev v s) = learned_mode s"
  "learned_mode_changed (call_event_cb ev v s) = learned_mode_changed s"
  by (simp_all add: call_event_cb_def split: option.split)

lemma send_cmd1_frame [simp, frame_simps]:
  "ctx (snd (seatctrl_send_cmd1 K os d r s)) = ctx s"
  "last_ctl_pos (snd (seatctrl_send_cmd1 K os d r s)) = last_ctl_pos s"
  "last_ctl_dir (snd (seatctrl_send_cmd1 K os d r s)) = last_ctl_dir s"
  "learned_mode (snd (seatctrl_send_cmd1 K os d r s)) = learned_mode s"
  "learned_mode_changed (snd (seatctrl_send_cmd1 K os d r s)) = learned_mode_changed s"
  by (simp_all add: seatctrl_send_cmd1_def Let_def split: option.split prod.split)

lemma stop_movement_ctx [simp, frame_simps]:
  "ctx (snd (seatctrl_stop_movement K os s)) = invalidate_command (ctx s)"
  by (simp add: seatctrl_stop_movement_def split: prod.split)
     (metis send_cmd1_frame(1) snd_conv)

lemma stop_movement_rc:
  "fst (seatctrl_stop_movement K os s) = fst (seatctrl_send_cmd1 K os 0 0 s)"
  by (simp add: seatctrl_stop_movement_def split: prod.split)

lemma stop_movement_tx [simp]:
  "tx (snd (seatctrl_stop_movement K os s)) = tx (snd (seatctrl_send_cmd1 K os 0 0 s))"
  by (simp add: seatctrl_stop_movement_def split: prod.split)

lemma update_learned_mode_frame [simp, frame_simps]:
  "ctx (update_learned_mode os s) = ctx s" "tx (update_learned_mode os s) = tx s"
  "world (update_learned_mode os s) = world s" "cbs (update_learned_mode os s) = cbs s"
  "last_ctl_pos (update_learned_mode os s) = last_ctl_pos s"
  "last_ctl_dir (update_learned_mode os s) = last_ctl_dir s"
  by (simp_all add: update_learned_mode_def Let_def)

lemma ctl_note_state_frame [simp, frame_simps]:
  "ctx (ctl_note_state s) = ctx s" "tx (ctl_note_state s) = tx s" "world (ctl_note_state s) = world s"
  by (simp_all add: ctl_note_state_def)

lemma ctl_stop_frame [simp, frame_simps]:
  "ctx (ctl_stop K os s) = invalidate_command (ctx s)"
  "tx (ctl_stop K os s) = tx (snd (seatctrl_send_cmd1 K os 0 0 s))"
  by (simp_all add: ctl_stop_def)

lemma ctl_resend_cmd_frame [simp, frame_simps]: "ctx (ctl_resend_cmd K os s) = ctx s"
  by (simp add: ctl_resend_cmd_def)

lemma get_ts_cong: "world s = world t \<Longrightarrow> get_ts os s = get_ts os t"
  by (simp add: get_ts_def)

lemma invalidate_command_frame [simp, frame_simps]:
  "magic (invalidate_command c) = magic c" "config (invalidate_command c) = config c"
  "socket (invalidate_command c) = socket c" "running (invalidate_command c) = running c"
  "thread_id (invalidate_command c) = thread_id c" "motor1_pos (invalidate_command c) = motor1_pos c"
  "motor1_mov_state (invalidate_command c) = motor1_mov_state c"
  "motor1_learning_state (invalidate_command c) = motor1_learning_state c"
  "event_cb (invalidate_command c) = event_cb c"
  "event_cb_user_data (invalidate_command c) = event_cb_user_data c"
  "desired_position (invalidate_command c) = MOTOR_POS_INVALID"
  "desired_direction (invalidate_command c) = OFF" "command_ts (invalidate_command c) = 0"
  by (simp_all add: invalidate_command_def)

section \<open>The invariant of the context\<close>

definition cmd_idle :: "seatctrl_context_t \<Rightarrow> bool" where
  "cmd_idle c \<longleftrightarrow> desired_position c = MOTOR_POS_INVALID \<and> desired_direction c = OFF \<and> command_ts c = 0"

definition cmd_active :: "seatctrl_context_t \<Rightarrow> bool" where
  "cmd_active c \<longleftrightarrow> uint (desired_position c) \<le> 100 \<and> (desired_direction c = INC \<or> desired_direction c = DEC)"

definition motor_pos_valid :: "u8 \<Rightarrow> bool" where
  "motor_pos_valid v \<longleftrightarrow> uint v \<le> 100 \<or> v = MOTOR_POS_INVALID"

definition ctx_inv :: "seatctrl_context_t \<Rightarrow> bool" where
  "ctx_inv c \<longleftrightarrow>
     motor_pos_valid (motor1_pos c) \<and> motor1_mov_state c \<le> 3 \<and> motor1_learning_state c \<le> 3 \<and>
     (cmd_idle c \<or> cmd_active c)"

lemma MOTOR_POS_INVALID_uint [simp]: "uint MOTOR_POS_INVALID = 255"
  by (simp add: MOTOR_POS_INVALID_def)

lemma cmd_idle_invalidate [simp]: "cmd_idle (invalidate_command c)"
  by (simp add: cmd_idle_def)

lemma idle_not_active: "cmd_idle c \<Longrightarrow> \<not> cmd_active c"
  by (auto simp: cmd_idle_def cmd_active_def)

lemma idle_not_running: "cmd_idle c \<Longrightarrow> \<not> is_ctl_running c"
  by (simp add: cmd_idle_def is_ctl_running_def)

lemma ctx_inv_invalidate [inv_intros]: "ctx_inv c \<Longrightarrow> ctx_inv (invalidate_command c)"
  by (simp add: ctx_inv_def)

lemma ctx_inv_start [inv_intros]:
  assumes "ctx_inv c" and "0 \<le> d" and "d \<le> 100" and "dir = INC \<or> dir = DEC"
  shows "ctx_inv (c\<lparr>command_ts := t, desired_direction := dir, desired_position := to_u8 d\<rparr>)"
  using assms by (auto simp: ctx_inv_def cmd_active_def)

lemma ctx_inv_stat [inv_intros]:
  assumes "ctx_inv c" and "motor_pos_valid p" and "m \<le> 3" and "l \<le> 3"
  shows "ctx_inv (c\<lparr>motor1_mov_state := m, motor1_learning_state := l, motor1_pos := p\<rparr>)"
  using assms by (auto simp: ctx_inv_def cmd_active_def cmd_idle_def)

lemma ctx_inv_running [simp]:
  "ctx_inv (c\<lparr>running := b\<rparr>) = ctx_inv c" "ctx_inv (c\<lparr>thread_id := t\<rparr>) = ctx_inv c"
  "ctx_inv (c\<lparr>socket := fd\<rparr>) = ctx_inv c"
  "ctx_inv (c\<lparr>event_cb := cb, event_cb_user_data := u\<rparr>) = ctx_inv c"
  by (simp_all add: ctx_inv_def cmd_active_def cmd_idle_def)

lemma wait_known_position [simp]: "motor1_pos (ctx s) \<noteq> MOTOR_POS_INVALID \<Longrightarrow> wait_motor1_pos os n s = s"
  by (cases n) simp_all

text \<open>\<open>seatctrl_set_position()\<close> behind its guards.\<close>

lemma set_position_in_range:
  assumes "magic (ctx s) = SEAT_CTRL_CONTEXT_MAGIC" and "0 \<le> d" and "d \<le> 100"
  shows "seatctrl_set_position K os CTX d s =
    (let s1 = wait_motor1_pos os 30 s
     in if motor1_pos (ctx s1) = MOTOR_POS_INVALID then (SEAT_CTRL_ERR_NO_FRAMES, s1)
        else set_position_move K os d s1)"
  using assms by (simp add: seatctrl_set_position_def Let_def)

section \<open>The frames sent\<close>

text \<open>The \<open>SECU1_CMD_1\<close> frame that commands motor 1, and only motor 1.\<close>

definition secu1_cmd :: "MotorDirection \<Rightarrow> u8 \<Rightarrow> can_frame" where
  "secu1_cmd d r =
     \<lparr> can_id = CAN_SECU1_CMD_1_FRAME_ID, can_dlc = 8,
       fdata = [MotorDirection_val d, r, 0, 0, 0, 0, 0, 0] \<rparr>"

lemma secu1_cmd_inject [simp]: "secu1_cmd d r = secu1_cmd d' r' \<longleftrightarrow> d = d' \<and> r = r'"
  by (cases d; cases d') (auto simp: secu1_cmd_def)

lemma MotorDirection_val_mask [simp]: "MotorDirection_val d AND 3 = MotorDirection_val d"
  by (cases d) simp_all

lemma send_cmd1_no_socket [simp]:
  "socket (ctx s) = SOCKET_INVALID \<Longrightarrow> seatctrl_send_cmd1 K os d r s = (SEAT_CTRL_ERR, s)"
  by (simp add: seatctrl_send_cmd1_def)

context secu_codec
begin

lemma pack_motor1:
  "cmd_1_pack K (cmd_1_zero\<lparr>motor1_manual_cmd := MotorDirection_val d, motor1_set_rpm := r\<rparr>) sizeof_cmd_1
     = Some [MotorDirection_val d, r, 0, 0, 0]"
  by (simp add: pack_layout sizeof_cmd_1_def cmd_1_zero_def)

lemma cmd1_frame_motor1: "cmd1_frame [MotorDirection_val d, r, 0, 0, 0] = secu1_cmd d r"
  by (simp add: cmd1_frame_def secu1_cmd_def can_frame_zero_def numeral_eq_Suc)

lemma send_cmd1_eq:
  assumes "socket (ctx s) \<noteq> SOCKET_INVALID"
  shows "seatctrl_send_cmd1 K os (MotorDirection_val d) r s =
    (case os_write os (socket (ctx s)) (secu1_cmd d r) (world s) of
       ((ret, err), w) \<Rightarrow>
         if ret \<noteq> sizeof_can_frame
         then (SEAT_CTRL_ERR_CAN_IO, call_event_cb CanError err (s\<lparr>tx := tx s @ [secu1_cmd d r], world := w\<rparr>))
         else (SEAT_CTRL_OK, s\<lparr>tx := tx s @ [secu1_cmd d r], world := w\<rparr>))"
  using assms by (simp add: seatctrl_send_cmd1_def pack_motor1 cmd1_frame_motor1 Let_def)

lemma send_cmd1_tx:
  "tx (snd (seatctrl_send_cmd1 K os (MotorDirection_val d) r s)) =
     (if socket (ctx s) = SOCKET_INVALID then tx s else tx s @ [secu1_cmd d r])"
  by (simp add: send_cmd1_eq split: prod.split)

lemma send_off_tx:
  "tx (snd (seatctrl_send_cmd1 K os 0 0 s)) =
     (if socket (ctx s) = SOCKET_INVALID then tx s else tx s @ [secu1_cmd OFF 0])"
  using send_cmd1_tx [of os OFF 0 s] by simp

lemma send_cmd1_rc:
  "fst (seatctrl_send_cmd1 K os (MotorDirection_val d) r s) =
     (if socket (ctx s) = SOCKET_INVALID then SEAT_CTRL_ERR
      else if fst (fst (os_write os (socket (ctx s)) (secu1_cmd d r) (world s))) = sizeof_can_frame
      then SEAT_CTRL_OK else SEAT_CTRL_ERR_CAN_IO)"
  by (simp add: send_cmd1_eq split: prod.split)

end

section \<open>Interference while a call blocks\<close>

text \<open>
  What the CTL thread may do while an application thread sleeps: it never touches the life cycle fields,
  it keeps the invariant, and while no command is pending it starts nothing and sends at most frames that
  switch the motor off (it may be between the two frames of its workaround for a stalled motor).
\<close>

definition off_frames :: "can_frame list \<Rightarrow> bool" where
  "off_frames fs \<longleftrightarrow> (\<forall>f \<in> set fs. \<exists>r. f = secu1_cmd OFF r)"

lemma off_frames_simps [simp]:
  "off_frames []" "off_frames (secu1_cmd OFF r # fs) = off_frames fs"
  "off_frames (fs @ gs) \<longleftrightarrow> off_frames fs \<and> off_frames gs"
  by (auto simp: off_frames_def)

definition ctl_guar :: "'w sys \<Rightarrow> 'w sys \<Rightarrow> bool" where
  "ctl_guar s t \<longleftrightarrow>
     magic (ctx t) = magic (ctx s) \<and> config (ctx t) = config (ctx s) \<and> socket (ctx t) = socket (ctx s) \<and>
     thread_id (ctx t) = thread_id (ctx s) \<and> event_cb (ctx t) = event_cb (ctx s) \<and>
     event_cb_user_data (ctx t) = event_cb_user_data (ctx s) \<and>
     (ctx_inv (ctx s) \<longrightarrow> ctx_inv (ctx t)) \<and>
     (cmd_idle (ctx s) \<longrightarrow> cmd_idle (ctx t) \<and> (\<exists>fs. off_frames fs \<and> tx t = tx s @ fs))"

lemma no_more_frames [simp]: "\<exists>fs. off_frames fs \<and> xs = xs @ fs"
  by (rule exI [of _ "[]"]) simp

lemma ctl_guar_refl [simp, intro]: "ctl_guar s s"
  by (simp add: ctl_guar_def)

lemma ctl_guar_trans [trans]: "ctl_guar s t \<Longrightarrow> ctl_guar t u \<Longrightarrow> ctl_guar s u"
  unfolding ctl_guar_def by (fastforce simp del: no_more_frames)

text \<open>The contract of \<open>usleep\<close> an application thread relies on.\<close>

locale app_os = secu_codec K for K +
  fixes os :: "'w os"
  assumes usleep_rely: "ctl_guar s (os_usleep os n s)"
begin

lemma wait_guar: "ctl_guar s (wait_motor1_pos os n s)"
proof (induction n arbitrary: s)
  case 0
  show ?case by simp
next
  case (Suc n)
  show ?case
  proof (cases "motor1_pos (ctx s) = MOTOR_POS_INVALID")
    case True
    have "ctl_guar s (os_usleep os (100 * 1000) s)" by (rule usleep_rely)
    also have "ctl_guar \<dots> (wait_motor1_pos os n (os_usleep os (100 * 1000) s))" by (rule Suc.IH)
    finally show ?thesis using True by simp
  next
    case False
    then show ?thesis by simp
  qed
qed

lemma wait_frame:
  "magic (ctx (wait_motor1_pos os n s)) = magic (ctx s)"
  "config (ctx (wait_motor1_pos os n s)) = config (ctx s)"
  "socket (ctx (wait_motor1_pos os n s)) = socket (ctx s)"
  "ctx_inv (ctx s) \<Longrightarrow> ctx_inv (ctx (wait_motor1_pos os n s))"
  using wait_guar [of s n] by (simp_all add: ctl_guar_def)

text \<open>The state in which \<open>seatctrl_set_position()\<close> reads the position the second time.\<close>

lemma paused:
  fixes s
  defines "t \<equiv> os_usleep os (100 * 1000) (snd (seatctrl_stop_movement K os s))"
  assumes "ctx_inv (ctx s)" and "socket (ctx s) \<noteq> SOCKET_INVALID"
  shows "cmd_idle (ctx t)" "ctx_inv (ctx t)" "socket (ctx t) = socket (ctx s)"
    "config (ctx t) = config (ctx s)" "magic (ctx t) = magic (ctx s)"
    "\<exists>fs. off_frames fs \<and> tx t = tx s @ secu1_cmd OFF 0 # fs"
  using usleep_rely [of "snd (seatctrl_stop_movement K os s)" "100 * 1000"] assms
  by (simp_all add: t_def ctl_guar_def send_off_tx ctx_inv_invalidate)

lemma move_spec:
  fixes s
  defines "t \<equiv> os_usleep os (100 * 1000) (snd (seatctrl_stop_movement K os s))"
  assumes "ctx_inv (ctx s)" and "socket (ctx s) \<noteq> SOCKET_INVALID" and "0 \<le> d" and "d \<le> 100"
    and res: "set_position_move K os d s = (rc, s')"
  shows "ctx_inv (ctx s') \<and> socket (ctx s') = socket (ctx s) \<and> config (ctx s') = config (ctx s) \<and>
    (if uint (motor1_pos (ctx t)) = d
     then rc = SEAT_CTRL_OK \<and> cmd_idle (ctx s') \<and>
       (\<exists>fs. off_frames fs \<and> tx s' = tx s @ secu1_cmd OFF 0 # fs)
     else
       let dir = (if uint (motor1_pos (ctx t)) < d then INC else DEC) in
       cmd_active (ctx s') \<and> uint (desired_position (ctx s')) = d \<and> desired_direction (ctx s') = dir \<and>
       command_ts (ctx s') = get_ts os t \<and>
       (\<exists>fs. off_frames fs \<and>
          tx s' = tx s @ secu1_cmd OFF 0 # fs @ [secu1_cmd dir (to_u8 (motor_rpm (config (ctx s))))]) \<and>
       (rc = SEAT_CTRL_OK \<or> rc = SEAT_CTRL_ERR_CAN_IO))"
proof -
  note t = paused [OF assms(2,3), folded t_def]
  obtain fs where fs: "off_frames fs" "tx t = tx s @ secu1_cmd OFF 0 # fs" using t(6) by blast
  have res': "set_position_resume K os d t = (rc, s')"
    using res by (simp add: set_position_move_def t_def)
  show ?thesis
  proof (cases "uint (motor1_pos (ctx t)) = d")
    case True
    then show ?thesis
      using res' t(1-5) fs assms(3)
      by (fastforce simp: set_position_resume_def send_off_tx ctx_inv_invalidate split: if_splits)
  next
    case False
    define u where "u = upd_ctx (\<lambda>c. c\<lparr>command_ts := get_ts os t,
        desired_direction := if uint (motor1_pos (ctx t)) < d then INC else DEC,
        desired_position := to_u8 d\<rparr>) t"
    define dir where "dir = (if uint (motor1_pos (ctx t)) < d then INC else DEC)"
    have snt: "seatctrl_send_cmd1 K os (MotorDirection_val dir) (to_u8 (motor_rpm (config (ctx s)))) u = (rc, s')"
      using res' False t by (simp add: set_position_resume_def set_position_start_def u_def dir_def Let_def split: if_splits)
    have c: "ctx s' = ctx u"
      using snt send_cmd1_frame(1) by (metis snd_conv)
    have x: "tx s' = tx s @ secu1_cmd OFF 0 # fs @ [secu1_cmd dir (to_u8 (motor_rpm (config (ctx s))))]"
      using send_cmd1_tx [of os dir "to_u8 (motor_rpm (config (ctx s)))" u] snt t(1-5) fs assms(3)
      by (simp add: u_def)
    have r: "rc = SEAT_CTRL_OK \<or> rc = SEAT_CTRL_ERR_CAN_IO"
      using send_cmd1_rc [of os dir "to_u8 (motor_rpm (config (ctx s)))" u] snt t assms(3)
      by (auto simp: u_def split: if_splits)
    show ?thesis
      using False t(1-5) c x fs(1) r assms(3-5)
      by (fastforce simp: u_def dir_def cmd_active_def intro!: ctx_inv_start)
  qed
qed

text \<open>The whole call, on a position in range.\<close>

lemma set_position_spec:
  assumes "magic (ctx s) = SEAT_CTRL_CONTEXT_MAGIC" and "ctx_inv (ctx s)"
    and "socket (ctx s) \<noteq> SOCKET_INVALID" and "0 \<le> d" and "d \<le> 100"
    and "seatctrl_set_position K os CTX d s = (rc, s')"
  shows "let s1 = wait_motor1_pos os 30 s;
    pos = uint (motor1_pos (ctx (os_usleep os 100000 (snd (seatctrl_stop_movement K os s1)))));
    dir = (if pos < d then INC else DEC) in
    if motor1_pos (ctx s1) = MOTOR_POS_INVALID then rc = SEAT_CTRL_ERR_NO_FRAMES \<and> s' = s1
    else ctx_inv (ctx s') \<and> socket (ctx s') = socket (ctx s) \<and> config (ctx s') = config (ctx s) \<and>
      (if pos = d
       then rc = SEAT_CTRL_OK \<and> cmd_idle (ctx s') \<and>
         (\<exists>fs. off_frames fs \<and> tx s' = tx s1 @ secu1_cmd OFF 0 # fs)
       else (rc = SEAT_CTRL_OK \<or> rc = SEAT_CTRL_ERR_CAN_IO) \<and>
         uint (desired_position (ctx s')) = d \<and> desired_direction (ctx s') = dir \<and>
         (\<exists>fs. off_frames fs \<and>
            tx s' = tx s1 @ secu1_cmd OFF 0 # fs @ [secu1_cmd dir (to_u8 (motor_rpm (config (ctx s))))]))"
proof -
  define s1 where "s1 = wait_motor1_pos os 30 s"
  note eq = set_position_in_range [OF assms(1,4,5), of K os, folded s1_def]
  note w = wait_frame [where n = 30 and s = s, folded s1_def]
  show ?thesis
  proof (cases "motor1_pos (ctx s1) = MOTOR_POS_INVALID")
    case True
    then show ?thesis using assms(6) eq by (simp add: Let_def s1_def)
  next
    case False
    then have "set_position_move K os d s1 = (rc, s')"
      using assms(6) eq by (simp add: Let_def)
    from move_spec [OF w(4) _ assms(4,5) this] show ?thesis
      using False assms(2,3) w by (auto simp: Let_def s1_def [symmetric] split: if_splits)
  qed
qed

end

section \<open>Status frames\<close>

lemma ctl_guar_call_event_cb [inv_intros]: "ctl_guar s (call_event_cb ev v s)"
  by (simp add: ctl_guar_def)

context secu_codec
begin

lemma handle_secu_stat_eq:
  assumes "length (fdata f) = 8"
  shows "handle_secu_stat K f s =
    (if can_id f \<noteq> CAN_SECU1_STAT_FRAME_ID then (SEAT_CTRL_ERR_INVALID, s)
     else if unat (can_dlc f) < 8 then (SEAT_CTRL_ERR, s)
     else if motor_pos_valid (fdata f ! 2) then
       (SEAT_CTRL_OK, upd_ctx (\<lambda>c. c\<lparr>motor1_mov_state := fdata f ! 0 AND 3,
            motor1_learning_state := drop_bit 2 (fdata f ! 0) AND 3, motor1_pos := fdata f ! 2\<rparr>)
          (if running (ctx s) \<and> event_cb (ctx s) \<noteq> None \<and> motor1_pos (ctx s) \<noteq> fdata f ! 2
           then call_event_cb Motor1Pos (uint (fdata f ! 2)) s else s))
     else (SEAT_CTRL_ERR_INVALID, s))"
proof (cases "unat (can_dlc f) < 8")
  case True
  then show ?thesis by (simp add: handle_secu_stat_def unpack_short)
next
  case False
  then obtain st where st: "stat_unpack K (fdata f) (unat (can_dlc f)) = Some st"
    using unpack_layout [of "fdata f" "unat (can_dlc f)"] assms by auto
  note m = unpack_motor1 [OF st assms]
  show ?thesis
    using False st m(4,5)
    by (auto simp: handle_secu_stat_def m(1-3) pos_range motor_pos_valid_def Let_def)
qed

lemma handle_secu_stat_guar:
  assumes "length (fdata f) = 8"
  shows "ctl_guar s (snd (handle_secu_stat K f s))"
proof -
  have "ctx_inv (ctx s) \<Longrightarrow> motor_pos_valid (fdata f ! 2) \<Longrightarrow>
      ctx_inv ((ctx s)\<lparr>motor1_mov_state := fdata f ! 0 AND 3,
        motor1_learning_state := drop_bit 2 (fdata f ! 0) AND 3, motor1_pos := fdata f ! 2\<rparr>)"
    by (simp add: ctx_inv_stat u8_mask2_le)
  then show ?thesis
    by (auto simp: handle_secu_stat_eq [OF assms] ctl_guar_def cmd_idle_def)
qed

end

section \<open>The CTL thread, undisturbed\<close>

text \<open>
  A system in which nothing but the outside world changes while the CTL thread sleeps or reads:
  the thread between two actions of an application thread.
\<close>

locale ctl_os = secu_codec K for K +
  fixes os :: "'w os"
  assumes usleep_quiet: "\<exists>w. os_usleep os n s = s\<lparr>world := w\<rparr>"
    and read_quiet: "os_read os fd s = (r, s') \<Longrightarrow> \<exists>w. s' = s\<lparr>world := w\<rparr>"
    and read_buffer: "os_read os fd s = ((cnt, err, f), s') \<Longrightarrow> length (fdata f) = 8"
begin

lemma usleep_frame [simp]:
  "ctx (os_usleep os n s) = ctx s" "tx (os_usleep os n s) = tx s" "cbs (os_usleep os n s) = cbs s"
  "last_ctl_pos (os_usleep os n s) = last_ctl_pos s" "last_ctl_dir (os_usleep os n s) = last_ctl_dir s"
  "learned_mode (os_usleep os n s) = learned_mode s"
  using usleep_quiet [of n s] by auto

lemma usleep_guar: "ctl_guar s (os_usleep os n s)"
  by (simp add: ctl_guar_def)

lemma ctl_resend_ctx [simp]: "ctx (ctl_resend K os s) = ctx s"
  by (simp add: ctl_resend_def)

lemma ctl_resend_tx:
  "socket (ctx s) \<noteq> SOCKET_INVALID \<Longrightarrow>
   tx (ctl_resend K os s) = tx s @ [secu1_cmd OFF 0,
     secu1_cmd (desired_direction (ctx s)) (to_u8 (motor_rpm (config (ctx s))))]"
  by (simp add: ctl_resend_def ctl_resend_cmd_def send_cmd1_tx send_off_tx)

lemma ctl_state_changed_ctx [simp]: "ctx (ctl_state_changed K os s) = ctx s"
  by (simp add: ctl_state_changed_def)

lemma ctl_state_changed_tx:
  "socket (ctx s) \<noteq> SOCKET_INVALID \<Longrightarrow>
   tx (ctl_state_changed K os s) = tx s @
     (if ctl_changed s \<and> ctl_stalled (ctx s)
      then [secu1_cmd OFF 0, secu1_cmd (desired_direction (ctx s)) (to_u8 (motor_rpm (config (ctx s))))]
      else [])"
  by (simp add: ctl_state_changed_def ctl_resend_tx)

lemma ctl_check_end_ctx:
  "ctx (ctl_check_end K os e s) =
     (if target_reached (ctx s) \<or> command_timeout (config (ctx s)) < e
      then invalidate_command (ctx s) else ctx s)"
  by (simp add: ctl_check_end_def)

lemma ctl_check_end_tx:
  "socket (ctx s) \<noteq> SOCKET_INVALID \<Longrightarrow>
   tx (ctl_check_end K os e s) = tx s @
     (if target_reached (ctx s) \<or> command_timeout (config (ctx s)) < e then [secu1_cmd OFF 0] else [])"
  by (simp add: ctl_check_end_def send_off_tx)

lemma control_loop_idle:
  "\<not> is_ctl_running (ctx s) \<Longrightarrow> seatctrl_control_loop K os s = (SEAT_CTRL_OK, update_learned_mode os s)"
  by (simp add: seatctrl_control_loop_def)

text \<open>The control loop on a pending command: what it does to the context and what it sends.\<close>

lemma control_loop_active:
  assumes "is_ctl_running (ctx s)"
  defines "e \<equiv> get_ts os s - command_ts (ctx s)"
  defines "fin \<equiv> target_reached (ctx s) \<or> command_timeout (config (ctx s)) < e"
  shows "ctx (snd (seatctrl_control_loop K os s)) =
      (if \<not> ctl_preliminary e (ctx s) \<and> fin then invalidate_command (ctx s) else ctx s)"
    and "tx (snd (seatctrl_control_loop K os s)) = tx s @
      (if ctl_preliminary e (ctx s) then []
       else (if ctl_changed s \<and> ctl_stalled (ctx s)
             then [secu1_cmd OFF 0,
                   secu1_cmd (desired_direction (ctx s)) (to_u8 (motor_rpm (config (ctx s))))]
             else [])
            @ (if fin then [secu1_cmd OFF 0] else []))"
proof -
  let ?u = "update_learned_mode os s"
  have e: "get_ts os ?u - command_ts (ctx ?u) = e"
    by (simp add: e_def get_ts_def)
  have sock: "socket (ctx s) \<noteq> SOCKET_INVALID"
    using assms(1) by (simp add: is_ctl_running_def)
  have ch: "ctl_changed ?u = ctl_changed s"
    by (simp add: ctl_changed_def)
  have eq: "seatctrl_control_loop K os s = (SEAT_CTRL_OK,
      if ctl_preliminary e (ctx s) then os_usleep os 1000 ?u
      else ctl_check_end K os e (ctl_state_changed K os ?u))"
    using assms(1) e by (simp add: seatctrl_control_loop_def)
  show "ctx (snd (seatctrl_control_loop K os s)) =
      (if \<not> ctl_preliminary e (ctx s) \<and> fin then invalidate_command (ctx s) else ctx s)"
    by (simp add: eq ctl_check_end_ctx fin_def)
  show "tx (snd (seatctrl_control_loop K os s)) = tx s @
      (if ctl_preliminary e (ctx s) then []
       else (if ctl_changed s \<and> ctl_stalled (ctx s)
             then [secu1_cmd OFF 0,
                   secu1_cmd (desired_direction (ctx s)) (to_u8 (motor_rpm (config (ctx s))))]
             else [])
            @ (if fin then [secu1_cmd OFF 0] else []))"
    using sock by (simp add: eq ctl_check_end_tx ctl_state_changed_tx fin_def ch)
qed

lemma control_loop_rc: "fst (seatctrl_control_loop K os s) = SEAT_CTRL_OK"
  by (simp add: seatctrl_control_loop_def Let_def)

lemma control_loop_ctx:
  "ctx (snd (seatctrl_control_loop K os s)) = ctx s \<or>
   ctx (snd (seatctrl_control_loop K os s)) = invalidate_command (ctx s)"
  by (cases "is_ctl_running (ctx s)") (auto simp: control_loop_active control_loop_idle)

lemma control_loop_guar: "ctl_guar s (snd (seatctrl_control_loop K os s))"
proof (cases "is_ctl_running (ctx s)")
  case True
  then have "\<not> cmd_idle (ctx s)" using idle_not_running by auto
  then show ?thesis
    using control_loop_ctx [of s] by (auto simp: ctl_guar_def ctx_inv_invalidate)
next
  case False
  then show ?thesis by (simp add: control_loop_idle ctl_guar_def)
qed

lemma read_guar: "os_read os fd s = (r, s') \<Longrightarrow> ctl_guar s s'"
  using read_quiet [of fd s r s'] by (auto simp: ctl_guar_def)

text \<open>The guarantee that the contract of \<open>usleep\<close> in \<open>app_os\<close> asks for.\<close>

lemma threadFunc_body_guar: "ctl_guar s (snd (threadFunc_body K os s))"
proof -
  obtain cnt err f s1 where rd: "os_read os (socket (ctx s)) s = ((cnt, err, f), s1)"
    by (cases "os_read os (socket (ctx s)) s") (metis prod_cases3)
  note g1 = read_guar [OF rd]
  have g2: "ctl_guar s1 (call_event_cb CanError err (os_usleep os n s1))" for n
    using usleep_guar ctl_guar_call_event_cb ctl_guar_trans by blast
  define s2 where "s2 = (if can_id f = CAN_SECU1_STAT_FRAME_ID then
       (case handle_secu_stat K f s1 of
          (rc, s') \<Rightarrow> if rc = SEAT_CTRL_OK then snd (seatctrl_control_loop K os s') else s')
     else s1)"
  have g3: "ctl_guar s1 s2"
    using handle_secu_stat_guar [OF read_buffer [OF rd], of s1] control_loop_guar
    by (auto simp: s2_def split: prod.split intro: ctl_guar_trans)
  have "ctl_guar s1 (snd (threadFunc_body K os s))"
    using g2 usleep_guar [of s1] ctl_guar_trans [OF g3 usleep_guar]
    by (simp add: threadFunc_body_def rd s2_def [symmetric] Let_def)
  with g1 show ?thesis by (rule ctl_guar_trans)
qed

end

section \<open>The application thread above the CTL thread\<close>

text \<open>At most \<open>n\<close> passes of the CTL thread, as the scheduler may grant them during a sleep.\<close>

fun ctl_slices :: "can_codec \<Rightarrow> 'w os \<Rightarrow> nat \<Rightarrow> 'w sys \<Rightarrow> 'w sys" where
  "ctl_slices K os 0 s = s"
| "ctl_slices K os (Suc n) s =
     (if threadFunc_guard s then
        (case threadFunc_body K os s of
           (Break, t) \<Rightarrow> t
         | (Continue, t) \<Rightarrow> ctl_slices K os n t)
      else s)"

text \<open>The system as an application thread sees it: while it sleeps, the CTL thread makes passes.\<close>

definition app_view :: "can_codec \<Rightarrow> 'w os \<Rightarrow> nat \<Rightarrow> 'w os" where
  "app_view K os n = os\<lparr>os_usleep := \<lambda>us s. ctl_slices K os n (os_usleep os us s)\<rparr>"

context ctl_os
begin

lemma ctl_slices_guar: "ctl_guar s (ctl_slices K os n s)"
proof (induction n arbitrary: s)
  case 0
  show ?case by simp
next
  case (Suc n)
  have "ctl_guar s (snd (threadFunc_body K os s))" by (rule threadFunc_body_guar)
  then show ?case
    using Suc.IH by (auto split: prod.split loop_exit.split intro: ctl_guar_trans)
qed

end

sublocale ctl_os \<subseteq> app: app_os K "app_view K os n" for n
proof unfold_locales
  fix s :: "'w sys" and us :: int
  have "ctl_guar s (os_usleep os us s)" by (rule usleep_guar)
  also have "ctl_guar \<dots> (ctl_slices K os n (os_usleep os us s))" by (rule ctl_slices_guar)
  finally show "ctl_guar s (os_usleep (app_view K os n) us s)" by (simp add: app_view_def)
qed

end
