(* ===== verification/Seat_Interleaving.thy ===== *)
theory Seat_Interleaving
  imports Seat_Control_Laws
begin

text \<open>
  The seat controller as a concurrent program: any number of application threads call the API of one
  context while CTL threads run. A step is the code of one thread between two blocking calls
  (\<open>usleep\<close>, \<open>read\<close>, \<open>pthread_join\<close>); where a thread blocks is its program counter. Every step may see
  different results of the system calls, so the step relation ranges over all operating systems.
\<close>

section \<open>Program counters\<close>

text \<open>
  \<open>AppReady rc\<close>: an application thread outside the API whose last call returned \<open>rc\<close>.
  \<open>PosWait d n\<close>, \<open>PosPause d\<close>: asleep in \<open>seatctrl_set_position(ctx, d)\<close>, in the retry loop with \<open>n\<close>
  retries left, or after the stop command. \<open>CloseSleep\<close>, \<open>CloseJoin rc tid\<close>: in \<open>seatctrl_close\<close>.
  The others are the places of \<open>seatctrl_threadFunc\<close>: \<open>CtlErrSleep\<close> is the pause after a
  failed \<open>read()\<close>, \<open>CtlResend\<close> the pause inside the control loop, \<open>CtlSleep\<close> each pause that only leads
  back to the head of the loop.
\<close>

datatype pc =
    Unused
  | AppReady int
  | PosWait int nat
  | PosPause int
  | CloseSleep
  | CloseJoin int nat
  | CtlCreated
  | CtlTop
  | CtlReading
  | CtlErrSleep int int
  | CtlResend int
  | CtlSleep
  | Exited

fun ctl_pc :: "pc \<Rightarrow> bool" where
  "ctl_pc CtlCreated = True"
| "ctl_pc CtlTop = True"
| "ctl_pc CtlReading = True"
| "ctl_pc (CtlErrSleep _ _) = True"
| "ctl_pc (CtlResend _) = True"
| "ctl_pc CtlSleep = True"
| "ctl_pc _ = False"

section \<open>The code between two blocking calls\<close>

definition pos_poll :: "can_codec \<Rightarrow> 'w os \<Rightarrow> int \<Rightarrow> nat \<Rightarrow> 'w sys \<Rightarrow> pc \<times> 'w sys" where
  "pos_poll K os d n s =
     (if motor1_pos (ctx s) = MOTOR_POS_INVALID then
        (case n of 0 \<Rightarrow> (AppReady SEAT_CTRL_ERR_NO_FRAMES, s) | Suc m \<Rightarrow> (PosWait d m, s))
      else (PosPause d, snd (seatctrl_stop_movement K os s)))"

definition pos_enter :: "can_codec \<Rightarrow> 'w os \<Rightarrow> ctx_ptr \<Rightarrow> int \<Rightarrow> 'w sys \<Rightarrow> pc \<times> 'w sys" where
  "pos_enter K os p d s =
     (if p = NULL \<or> magic (ctx s) \<noteq> SEAT_CTRL_CONTEXT_MAGIC then (AppReady SEAT_CTRL_ERR_INVALID, s)
      else if d < 0 \<or> d > 100 then (AppReady SEAT_CTRL_ERR_INVALID, s)
      else pos_poll K os d 30 s)"

definition close_enter :: "ctx_ptr \<Rightarrow> 'w sys \<Rightarrow> pc \<times> 'w sys" where
  "close_enter p s =
     (if p = NULL \<or> magic (ctx s) \<noteq> SEAT_CTRL_CONTEXT_MAGIC then (AppReady SEAT_CTRL_ERR_INVALID, s)
      else (CloseSleep, upd_ctx (\<lambda>c. c\<lparr>running := False\<rparr>) s))"

definition close_wake :: "'w os \<Rightarrow> nat \<Rightarrow> 'w sys \<Rightarrow> pc \<times> 'w sys" where
  "close_wake os self s =
     (case close_socket os s of (rc, s1) \<Rightarrow>
        if thread_id (ctx s1) \<noteq> 0 then
          (if self = thread_id (ctx s1) then (AppReady rc, upd_ctx (\<lambda>c. c\<lparr>thread_id := 0\<rparr>) s1)
           else (CloseJoin rc (thread_id (ctx s1)), s1))
        else (AppReady rc, s1))"

definition close_joined :: "int \<Rightarrow> int \<Rightarrow> 'w sys \<Rightarrow> pc \<times> 'w sys" where
  "close_joined rc res s =
     (AppReady (if res \<noteq> 0 then SEAT_CTRL_ERR else rc), upd_ctx (\<lambda>c. c\<lparr>thread_id := 0\<rparr>) s)"

definition ctl_enter :: "can_codec \<Rightarrow> 'w os \<Rightarrow> 'w sys \<Rightarrow> pc \<times> 'w sys" where
  "ctl_enter K os s0 =
     (let s = update_learned_mode os s0
      in if is_ctl_running (ctx s) then
           let elapsed = get_ts os s - command_ts (ctx s)
           in if ctl_preliminary elapsed (ctx s) then (CtlSleep, s)
              else if ctl_changed s \<and> ctl_stalled (ctx s)
              then (CtlResend elapsed, snd (seatctrl_send_cmd1 K os (MotorDirection_val OFF) 0 s))
              else (CtlSleep, ctl_check_end K os elapsed (if ctl_changed s then ctl_note_state s else s))
         else (CtlSleep, s))"

definition ctl_reenter :: "can_codec \<Rightarrow> 'w os \<Rightarrow> int \<Rightarrow> 'w sys \<Rightarrow> 'w sys" where
  "ctl_reenter K os elapsed s =
     ctl_check_end K os elapsed (ctl_note_state (ctl_resend_cmd K os s))"

definition ctl_received ::
    "can_codec \<Rightarrow> 'w os \<Rightarrow> int \<Rightarrow> int \<Rightarrow> can_frame \<Rightarrow> 'w sys \<Rightarrow> pc \<times> 'w sys" where
  "ctl_received K os cnt err frame s =
     (if cnt < 0 \<and> err = EAGAIN then (if \<not> running (ctx s) then (Exited, s) else (CtlSleep, s))
      else if cnt < 0 \<and> err = EINTR then (CtlSleep, s)
      else if cnt < 0 then (CtlErrSleep cnt err, s)
      else if can_id frame = CAN_SECU1_STAT_FRAME_ID then
        (case handle_secu_stat K frame s of
           (rc, s') \<Rightarrow> if rc = SEAT_CTRL_OK then ctl_enter K os s' else (CtlSleep, s'))
      else (CtlSleep, s))"

definition ctl_err_wake :: "int \<Rightarrow> int \<Rightarrow> 'w sys \<Rightarrow> pc \<times> 'w sys" where
  "ctl_err_wake cnt err s =
     (if cnt = ENETDOWN then CtlTop else Exited, call_event_cb CanError err s)"

section \<open>The step relation\<close>

record 'w conc =
  sh :: "'w sys"
  pcs :: "nat \<Rightarrow> pc"

definition goto :: "nat \<Rightarrow> pc \<times> 'w sys \<Rightarrow> 'w conc \<Rightarrow> 'w conc" where
  "goto i r c = c\<lparr>sh := snd r, pcs := (pcs c)(i := fst r)\<rparr>"

lemma goto_simps [simp]:
  "sh (goto i r c) = snd r" "pcs (goto i r c) = (pcs c)(i := fst r)"
  by (simp_all add: goto_def)

inductive step :: "can_codec \<Rightarrow> nat \<Rightarrow> 'w conc \<Rightarrow> 'w conc \<Rightarrow> bool" for K :: can_codec and i :: nat where
  world: "step K i c (c\<lparr>sh := (sh c)\<lparr>world := w\<rparr>\<rparr>)"
| set_position: "pcs c i = AppReady r \<Longrightarrow> step K i c (goto i (pos_enter K os p d (sh c)) c)"
| pos_wake: "pcs c i = PosWait d n \<Longrightarrow> step K i c (goto i (pos_poll K os d n (sh c)) c)"
| pos_resume: "pcs c i = PosPause d \<Longrightarrow> set_position_resume K os d (sh c) = (rc, s) \<Longrightarrow>
    step K i c (goto i (AppReady rc, s) c)"
| stop: "pcs c i = AppReady r \<Longrightarrow> seatctrl_stop_movement K os (sh c) = (rc, s) \<Longrightarrow>
    step K i c (goto i (AppReady rc, s) c)"
| set_callback: "pcs c i = AppReady r \<Longrightarrow> seatctrl_set_event_callback p cb u (sh c) = (rc, s) \<Longrightarrow>
    step K i c (goto i (AppReady rc, s) c)"
| open_failed: "pcs c i = AppReady r \<Longrightarrow> seatctrl_open os p (sh c) = (rc, s) \<Longrightarrow> rc \<noteq> SEAT_CTRL_OK \<Longrightarrow>
    step K i c (goto i (AppReady rc, s) c)"
| opened: "pcs c i = AppReady r \<Longrightarrow> seatctrl_open os p (sh c) = (SEAT_CTRL_OK, s) \<Longrightarrow>
    thread_id (ctx s) = tid \<Longrightarrow> tid \<noteq> 0 \<Longrightarrow> pcs c tid = Unused \<Longrightarrow>
    step K i c (goto i (AppReady SEAT_CTRL_OK, s) (c\<lparr>pcs := (pcs c)(tid := CtlCreated)\<rparr>))"
| close: "pcs c i = AppReady r \<Longrightarrow> step K i c (goto i (close_enter p (sh c)) c)"
| close_wake: "pcs c i = CloseSleep \<Longrightarrow> step K i c (goto i (close_wake os i (sh c)) c)"
| close_joined: "pcs c i = CloseJoin rc tid \<Longrightarrow> pcs c tid = Exited \<Longrightarrow>
    step K i c (goto i (close_joined rc 0 (sh c)) c)"
| close_join_failed: "pcs c i = CloseJoin rc tid \<Longrightarrow> res \<noteq> 0 \<Longrightarrow>
    step K i c (goto i (close_joined rc res (sh c)) c)"
| ctl_start: "pcs c i = CtlCreated \<Longrightarrow> step K i c (goto i (CtlTop, threadFunc_start (sh c)) c)"
| ctl_top: "pcs c i = CtlTop \<Longrightarrow>
    step K i c (goto i (if threadFunc_guard (sh c) then CtlReading else Exited, sh c) c)"
| ctl_read: "pcs c i = CtlReading \<Longrightarrow> length (fdata frame) = 8 \<Longrightarrow>
    step K i c (goto i (ctl_received K os cnt err frame (sh c)) c)"
| ctl_err_wake: "pcs c i = CtlErrSleep cnt err \<Longrightarrow> step K i c (goto i (ctl_err_wake cnt err (sh c)) c)"
| ctl_resume: "pcs c i = CtlResend elapsed \<Longrightarrow>
    step K i c (goto i (CtlSleep, ctl_reenter K os elapsed (sh c)) c)"
| ctl_wake: "pcs c i = CtlSleep \<Longrightarrow> step K i c (goto i (CtlTop, sh c) c)"

definition some_step :: "can_codec \<Rightarrow> 'w conc \<Rightarrow> 'w conc \<Rightarrow> bool" where
  "some_step K c c' \<longleftrightarrow> (\<exists>i. step K i c c')"

lemma some_stepI: "step K i c c' \<Longrightarrow> some_step K c c'"
  by (auto simp: some_step_def)

lemma path_step: "(some_step K)\<^sup>*\<^sup>* c c1 \<Longrightarrow> step K i c1 c2 \<Longrightarrow> (some_step K)\<^sup>*\<^sup>* c c2"
  by (rule rtranclp.rtrancl_into_rtrancl) (auto intro: some_stepI)

text \<open>Steps of all threads but \<open>i\<close>: what thread \<open>i\<close> experiences while it blocks.\<close>

definition other_step :: "can_codec \<Rightarrow> nat \<Rightarrow> 'w conc \<Rightarrow> 'w conc \<Rightarrow> bool" where
  "other_step K i c c' \<longleftrightarrow> (\<exists>j. j \<noteq> i \<and> step K j c c' \<and> pcs c' i = pcs c i)"

text \<open>Initially the context comes from \<open>seatctrl_init_ctx\<close> and every thread is an application thread or unused.\<close>

definition initial :: "seatctrl_config_t \<Rightarrow> 'w conc \<Rightarrow> bool" where
  "initial cfg c \<longleftrightarrow>
     (\<exists>s. seatctrl_init_ctx CTX (Some cfg) s = (SEAT_CTRL_OK, sh c)) \<and> tx (sh c) = [] \<and> cbs (sh c) = [] \<and>
     (\<forall>i. pcs c i = Unused \<or> (\<exists>rc. pcs c i = AppReady rc))"

definition reachable :: "can_codec \<Rightarrow> seatctrl_config_t \<Rightarrow> 'w conc \<Rightarrow> bool" where
  "reachable K cfg c \<longleftrightarrow> (\<exists>c0. initial cfg c0 \<and> (some_step K)\<^sup>*\<^sup>* c0 c)"

lemma reachable_induct [consumes 1, case_names initial step]:
  assumes "reachable K cfg c" and "\<And>c. initial cfg c \<Longrightarrow> P c"
    and "\<And>c c' i. reachable K cfg c \<Longrightarrow> P c \<Longrightarrow> step K i c c' \<Longrightarrow> P c'"
  shows "P c"
proof -
  obtain c0 where "initial cfg c0" and "(some_step K)\<^sup>*\<^sup>* c0 c"
    using assms(1) by (auto simp: reachable_def)
  from this(2) show ?thesis
  proof (induction rule: rtranclp_induct)
    case base
    show ?case using \<open>initial cfg c0\<close> by (rule assms(2))
  next
    case (step c c')
    then show ?case
      using assms(3) \<open>initial cfg c0\<close> unfolding some_step_def reachable_def by blast
  qed
qed

section \<open>The safety invariant\<close>

text \<open>
  The context satisfies its invariant and keeps its configuration; every frame sent commands motor 1 with a
  defined direction, and with the configured speed unless it switches the motor off; every
  reported position is a percentage or the invalid marker.
\<close>

definition frame_ok :: "seatctrl_config_t \<Rightarrow> can_frame \<Rightarrow> bool" where
  "frame_ok cfg f \<longleftrightarrow> (\<exists>d r. f = secu1_cmd d r \<and> d \<noteq> INV \<and>
     (d = OFF \<and> r = 0 \<or> r = to_u8 (motor_rpm cfg)))"

fun cb_ok :: "cb_call \<Rightarrow> bool" where
  "cb_ok (CbCall f Motor1Pos v u) \<longleftrightarrow> 0 \<le> v \<and> (v \<le> 100 \<or> v = 255)"
| "cb_ok (CbCall f CanError v u) \<longleftrightarrow> True"

definition sys_safe :: "seatctrl_config_t \<Rightarrow> 'w sys \<Rightarrow> bool" where
  "sys_safe cfg s \<longleftrightarrow>
     magic (ctx s) = SEAT_CTRL_CONTEXT_MAGIC \<and> config (ctx s) = cfg \<and> ctx_inv (ctx s) \<and>
     list_all (frame_ok cfg) (tx s) \<and> list_all cb_ok (cbs s)"

fun pc_ok :: "pc \<Rightarrow> bool" where
  "pc_ok (PosWait d n) \<longleftrightarrow> 0 \<le> d \<and> d \<le> 100 \<and> n < 30"
| "pc_ok (PosPause d) \<longleftrightarrow> 0 \<le> d \<and> d \<le> 100"
| "pc_ok _ \<longleftrightarrow> True"

definition safe :: "seatctrl_config_t \<Rightarrow> 'w conc \<Rightarrow> bool" where
  "safe cfg c \<longleftrightarrow> sys_safe cfg (sh c) \<and> (\<forall>i. pc_ok (pcs c i))"

lemma safe_goto: "safe cfg c \<Longrightarrow> sys_safe cfg (snd r) \<Longrightarrow> pc_ok (fst r) \<Longrightarrow> safe cfg (goto i r c)"
  by (simp add: safe_def)

lemma frame_ok_off [simp]: "frame_ok cfg (secu1_cmd OFF 0)"
  unfolding frame_ok_def by (intro exI [of _ OFF] exI [of _ 0]) simp

lemma ctx_inv_direction: "ctx_inv c \<Longrightarrow> desired_direction c \<noteq> INV"
  by (auto simp: ctx_inv_def cmd_idle_def cmd_active_def)

lemma sys_safe_ctx:
  "sys_safe cfg s \<Longrightarrow> magic c = magic (ctx s) \<Longrightarrow> config c = config (ctx s) \<Longrightarrow> ctx_inv c \<Longrightarrow>
   sys_safe cfg (s\<lparr>ctx := c\<rparr>)"
  by (simp add: sys_safe_def)

lemma sys_safe_world [simp]: "sys_safe cfg (s\<lparr>world := w\<rparr>) = sys_safe cfg s"
  by (simp add: sys_safe_def)

lemma sys_safe_invalidate [inv_intros]: "sys_safe cfg s \<Longrightarrow> sys_safe cfg (s\<lparr>ctx := invalidate_command (ctx s)\<rparr>)"
  by (auto simp: sys_safe_def inv_intros)

lemma sys_safe_can_error [inv_intros]: "sys_safe cfg s \<Longrightarrow> sys_safe cfg (call_event_cb CanError v s)"
  by (simp add: sys_safe_def) (simp add: call_event_cb_def split: option.split)

lemma sys_safe_motor1_pos: "sys_safe cfg s \<Longrightarrow> motor_pos_valid v \<Longrightarrow> sys_safe cfg (call_event_cb Motor1Pos (uint v) s)"
  by (simp add: sys_safe_def) (auto simp: call_event_cb_def motor_pos_valid_def split: option.split)

lemma sys_safe_statics [simp]:
  "sys_safe cfg (s\<lparr>last_ctl_dir := a, last_ctl_pos := b\<rparr>) = sys_safe cfg s"
  by (simp add: sys_safe_def)

lemma sys_safe_learned [inv_intros]: "sys_safe cfg s \<Longrightarrow> sys_safe cfg (update_learned_mode os s)"
  by (simp add: sys_safe_def)

lemma sys_safe_note [inv_intros]: "sys_safe cfg s \<Longrightarrow> sys_safe cfg (ctl_note_state s)"
  by (simp add: ctl_note_state_def)

context secu_codec
begin

lemma send_cmd1_safe:
  assumes "sys_safe cfg s" and "d \<noteq> INV" and "d = OFF \<and> r = 0 \<or> r = to_u8 (motor_rpm cfg)"
  shows "sys_safe cfg (snd (seatctrl_send_cmd1 K os (MotorDirection_val d) r s))"
proof (cases "socket (ctx s) = SOCKET_INVALID")
  case True
  then show ?thesis using assms(1) by simp
next
  case False
  have "frame_ok cfg (secu1_cmd d r)"
    using assms(2,3) by (auto simp: frame_ok_def)
  then have "sys_safe cfg (s\<lparr>tx := tx s @ [secu1_cmd d r], world := w\<rparr>)" for w
    using assms(1) by (simp add: sys_safe_def)
  then show ?thesis
    using False by (auto simp: send_cmd1_eq split: prod.split intro: sys_safe_can_error)
qed

lemma send_off_safe [inv_intros]: "sys_safe cfg s \<Longrightarrow> sys_safe cfg (snd (seatctrl_send_cmd1 K os 0 0 s))"
  using send_cmd1_safe [of cfg s OFF 0 os] by simp

lemma stop_movement_safe [inv_intros]: "sys_safe cfg s \<Longrightarrow> sys_safe cfg (snd (seatctrl_stop_movement K os s))"
  using sys_safe_invalidate [OF send_off_safe]
  by (simp add: seatctrl_stop_movement_def case_prod_unfold)

lemma set_position_start_safe [inv_intros]:
  assumes "sys_safe cfg s" and "0 \<le> d" and "d \<le> 100"
  shows "sys_safe cfg (snd (set_position_start K os p d s))"
  unfolding set_position_start_def Let_def
proof (rule send_cmd1_safe)
  show "sys_safe cfg (upd_ctx (\<lambda>c. c\<lparr>command_ts := get_ts os s,
      desired_direction := if p < d then INC else DEC, desired_position := to_u8 d\<rparr>) s)"
    using assms by (auto simp: sys_safe_def intro!: ctx_inv_start)
qed (use assms(1) in \<open>auto simp: sys_safe_def\<close>)

lemma set_position_resume_safe [inv_intros]:
  "sys_safe cfg s \<Longrightarrow> 0 \<le> d \<Longrightarrow> d \<le> 100 \<Longrightarrow> sys_safe cfg (snd (set_position_resume K os d s))"
  by (auto simp: set_position_resume_def Let_def inv_intros)

lemma ctl_check_end_safe [inv_intros]: "sys_safe cfg s \<Longrightarrow> sys_safe cfg (ctl_check_end K os e s)"
  by (auto simp: ctl_check_end_def ctl_stop_def inv_intros)

lemma ctl_resend_cmd_safe [inv_intros]: "sys_safe cfg s \<Longrightarrow> sys_safe cfg (ctl_resend_cmd K os s)"
  unfolding ctl_resend_cmd_def
  by (rule send_cmd1_safe) (auto simp: sys_safe_def ctx_inv_direction)

lemma ctl_reenter_safe [inv_intros]: "sys_safe cfg s \<Longrightarrow> sys_safe cfg (ctl_reenter K os e s)"
  by (simp add: ctl_reenter_def inv_intros)

lemma ctl_enter_safe [inv_intros]: "sys_safe cfg s \<Longrightarrow> sys_safe cfg (snd (ctl_enter K os s))"
  by (auto simp: ctl_enter_def Let_def inv_intros)

lemma handle_secu_stat_safe [inv_intros]:
  assumes "length (fdata f) = 8" and "sys_safe cfg s"
  shows "sys_safe cfg (snd (handle_secu_stat K f s))"
proof -
  have "ctx_inv (ctx s)" using assms(2) by (simp add: sys_safe_def)
  then show ?thesis
    using assms(2)
    by (auto simp: handle_secu_stat_eq [OF assms(1)] u8_mask2_le
        intro!: sys_safe_ctx sys_safe_motor1_pos ctx_inv_stat)
qed

lemma ctl_received_safe [inv_intros]:
  assumes "length (fdata f) = 8" and "sys_safe cfg s"
  shows "sys_safe cfg (snd (ctl_received K os cnt err f s))"
  using handle_secu_stat_safe [OF assms] assms(2)
  by (auto simp: ctl_received_def inv_intros split: prod.split)

end

lemma open_bind_safe [inv_intros]: "sys_safe cfg s \<Longrightarrow> sys_safe cfg (snd (open_bind os dev s))"
  by (auto simp: open_bind_def sys_safe_def Let_def split: prod.split)

lemma seatctrl_open_safe [inv_intros]: "sys_safe cfg s \<Longrightarrow> sys_safe cfg (snd (seatctrl_open os p s))"
  by (auto simp: seatctrl_open_def split: prod.split option.split intro!: open_bind_safe sys_safe_ctx)
     (auto simp: sys_safe_def)

lemma set_event_callback_safe [inv_intros]:
  "sys_safe cfg s \<Longrightarrow> sys_safe cfg (snd (seatctrl_set_event_callback p cb u s))"
  by (simp add: seatctrl_set_event_callback_def sys_safe_def)

lemma close_enter_safe [inv_intros]: "sys_safe cfg s \<Longrightarrow> sys_safe cfg (snd (close_enter p s))"
  by (simp add: close_enter_def sys_safe_def)

lemma close_wake_safe [inv_intros]: "sys_safe cfg s \<Longrightarrow> sys_safe cfg (snd (close_wake os i s))"
  by (auto simp: close_wake_def close_socket_def sys_safe_def split: prod.split)

lemma close_joined_safe [inv_intros]: "sys_safe cfg s \<Longrightarrow> sys_safe cfg (snd (close_joined rc res s))"
  by (simp add: close_joined_def sys_safe_def)

lemma threadFunc_start_safe [inv_intros]: "sys_safe cfg s \<Longrightarrow> sys_safe cfg (threadFunc_start s)"
  by (simp add: threadFunc_start_def sys_safe_def)

lemma pc_ok_segments [simp]:
  "pc_ok (fst (close_enter p s))" "pc_ok (fst (close_wake os i s))" "pc_ok (fst (close_joined rc res s))"
  "pc_ok (fst (ctl_enter K os s))" "pc_ok (fst (ctl_err_wake cnt err s))"
  by (simp_all add: close_enter_def close_wake_def close_joined_def ctl_enter_def ctl_err_wake_def Let_def
      split: prod.split)

lemma pc_ok_received [simp]: "pc_ok (fst (ctl_received K os cnt err f s))"
  by (simp add: ctl_received_def split: prod.split)

lemma init_ctx_ok:
  assumes "seatctrl_init_ctx p (Some cfg) s = (SEAT_CTRL_OK, t)"
  shows "ctx_inv (ctx t)" "config (ctx t) = cfg" "magic (ctx t) = SEAT_CTRL_CONTEXT_MAGIC" "cmd_idle (ctx t)"
  using assms
  by (auto simp: seatctrl_init_ctx_def ctx_inv_def motor_pos_valid_def cmd_idle_def SEAT_CTRL_defs
      split: if_splits)

context secu_codec
begin

lemma pos_poll_safe:
  assumes "sys_safe cfg s" and "0 \<le> d" and "d \<le> 100" and "n \<le> 30"
  shows "sys_safe cfg (snd (pos_poll K os d n s)) \<and> pc_ok (fst (pos_poll K os d n s))"
  using assms by (auto simp: pos_poll_def inv_intros split: nat.split)

lemma pos_enter_safe:
  "sys_safe cfg s \<Longrightarrow> sys_safe cfg (snd (pos_enter K os p d s)) \<and> pc_ok (fst (pos_enter K os p d s))"
  by (simp add: pos_enter_def pos_poll_safe)

lemma pos_wake_safe:
  assumes "safe cfg c" and "pcs c i = PosWait d n"
  shows "sys_safe cfg (snd (pos_poll K os d n (sh c))) \<and> pc_ok (fst (pos_poll K os d n (sh c)))"
proof (rule pos_poll_safe)
  have "pc_ok (pcs c i)" using assms(1) by (simp add: safe_def)
  then show "0 \<le> d" "d \<le> 100" "n \<le> 30" using assms(2) by simp_all
qed (use assms(1) in \<open>simp add: safe_def\<close>)

lemma step_safe:
  assumes "step K i c c'" and "safe cfg c"
  shows "safe cfg c'"
proof -
  have s: "sys_safe cfg (sh c)" and pc: "pc_ok (pcs c j)" for j
    using assms(2) by (simp_all add: safe_def)
  note go = safe_goto [OF assms(2)]
  from assms(1) show ?thesis
  proof cases
    case (world w)
    then show ?thesis using assms(2) by (simp add: safe_def)
  next
    case (set_position r os p d)
    then show ?thesis using pos_enter_safe [OF s] by (auto intro: go)
  next
    case (pos_wake d n os)
    then show ?thesis using pos_wake_safe [OF assms(2)] by (auto intro: go)
  next
    case (pos_resume d os rc t)
    then show ?thesis
      using set_position_resume_safe [OF s, of d os] pc [of i] by (auto intro!: go)
  next
    case (opened r os p t tid)
    have "safe cfg (c\<lparr>pcs := (pcs c)(tid := CtlCreated)\<rparr>)" using assms(2) by (simp add: safe_def)
    then show ?thesis
      using opened seatctrl_open_safe [OF s, of os p] by (auto intro: safe_goto)
  next
    case (stop r os rc t)
    then show ?thesis using stop_movement_safe [OF s, of os] by (auto intro!: go)
  next
    case (set_callback r p cb u rc t)
    then show ?thesis using set_event_callback_safe [OF s, of p cb u] by (auto intro!: go)
  next
    case (open_failed r os p rc t)
    then show ?thesis using seatctrl_open_safe [OF s, of os p] by (auto intro!: go)
  qed (auto intro!: go s inv_intros simp: ctl_err_wake_def)
qed

lemma initial_safe:
  assumes i: "initial cfg c"
  shows "safe cfg c"
proof -
  have "pc_ok (pcs c j)" for j
  proof -
    have "pcs c j = Unused \<or> (\<exists>rc. pcs c j = AppReady rc)" using i by (simp add: initial_def)
    then show ?thesis by auto
  qed
  moreover have "ctx_inv (ctx (sh c)) \<and> config (ctx (sh c)) = cfg \<and> magic (ctx (sh c)) = SEAT_CTRL_CONTEXT_MAGIC"
    using i by (auto simp: initial_def dest: init_ctx_ok)
  ultimately show ?thesis
    using i by (simp add: safe_def sys_safe_def initial_def)
qed

theorem reachable_safe: "reachable K cfg c \<Longrightarrow> safe cfg c"
  by (induction rule: reachable_induct) (auto intro: initial_safe step_safe)

end

section \<open>What the CTL thread guarantees to the application\<close>

lemma ctl_guar_active:
  assumes "\<not> cmd_idle (ctx s)" and "ctx t = ctx s \<or> ctx t = invalidate_command (ctx s)"
  shows "ctl_guar s t"
  using assms by (auto simp: ctl_guar_def ctx_inv_invalidate)

lemma check_end_ctx:
  "ctx (ctl_check_end K os e s) = ctx s \<or> ctx (ctl_check_end K os e s) = invalidate_command (ctx s)"
  by (simp add: ctl_check_end_def)

lemma ctl_enter_ctx:
  "ctx (snd (ctl_enter K os s)) = ctx s \<or> ctx (snd (ctl_enter K os s)) = invalidate_command (ctx s)"
  using check_end_ctx [of K os] by (simp add: ctl_enter_def Let_def split: if_split) (metis ctl_note_state_frame(1) update_learned_mode_frame(1))

lemma ctl_enter_guar: "ctl_guar s (snd (ctl_enter K os s))"
proof (cases "cmd_idle (ctx s)")
  case True
  then show ?thesis
    using idle_not_running [OF True] by (simp add: ctl_enter_def ctl_guar_def)
next
  case False
  then show ?thesis using ctl_enter_ctx by (rule ctl_guar_active)
qed

context secu_codec
begin

lemma ctl_reenter_idle:
  assumes "cmd_idle (ctx s)"
  shows "cmd_idle (ctx (ctl_reenter K os e s))" and "\<exists>fs. off_frames fs \<and> tx (ctl_reenter K os e s) = tx s @ fs"
proof -
  let ?r = "ctl_note_state (ctl_resend_cmd K os s)"
  have d: "desired_direction (ctx s) = OFF" using assms by (simp add: cmd_idle_def)
  show "cmd_idle (ctx (ctl_reenter K os e s))"
    using assms by (simp add: ctl_reenter_def ctl_check_end_def)
  have "\<exists>fs. off_frames fs \<and> tx ?r = tx s @ fs"
    using send_cmd1_tx [of os OFF "to_u8 (motor_rpm (config (ctx s)))" s] d
    by (auto simp: ctl_resend_cmd_def)
  moreover have "\<exists>fs. off_frames fs \<and> tx (ctl_check_end K os e ?r) = tx ?r @ fs"
    by (auto simp: ctl_check_end_def send_off_tx)
  ultimately show "\<exists>fs. off_frames fs \<and> tx (ctl_reenter K os e s) = tx s @ fs"
    unfolding ctl_reenter_def by (metis append.assoc off_frames_simps(3))
qed

lemma ctl_reenter_guar: "ctl_guar s (ctl_reenter K os e s)"
proof (cases "cmd_idle (ctx s)")
  case True
  note r = ctl_reenter_idle [OF True, of os e]
  have "ctx (ctl_reenter K os e s) = ctx s \<or> ctx (ctl_reenter K os e s) = invalidate_command (ctx s)"
    using check_end_ctx [of K os e "ctl_note_state (ctl_resend_cmd K os s)"] by (simp add: ctl_reenter_def)
  then show ?thesis using r by (auto simp: ctl_guar_def ctx_inv_invalidate)
next
  case False
  then show ?thesis
    using check_end_ctx [of K os e "ctl_note_state (ctl_resend_cmd K os s)"]
    by (intro ctl_guar_active) (simp_all add: ctl_reenter_def)
qed

lemma ctl_received_guar:
  assumes "length (fdata f) = 8"
  shows "ctl_guar s (snd (ctl_received K os cnt err f s))"
proof -
  obtain rc t where h: "handle_secu_stat K f s = (rc, t)" by fastforce
  then have t: "ctl_guar s t" using handle_secu_stat_guar [OF assms, of s] by simp
  then have "ctl_guar s (snd (ctl_enter K os t))" using ctl_enter_guar by (rule ctl_guar_trans)
  then show ?thesis using h t by (simp add: ctl_received_def)
qed

lemma ctl_step_guar:
  assumes "step K i c c'" and "ctl_pc (pcs c i)"
  shows "ctl_guar (sh c) (sh c')"
  using assms
proof cases
  case (world w)
  then show ?thesis by (simp add: ctl_guar_def)
next
  case ctl_start
  then show ?thesis by (simp add: threadFunc_start_def ctl_guar_def cmd_idle_def)
qed (auto simp: ctl_err_wake_def intro: ctl_received_guar ctl_reenter_guar ctl_guar_call_event_cb)

end

section \<open>The API functions are paths of the step relation\<close>

text \<open>
  \<open>seatctrl_set_position\<close> as a whole function, over a \<open>usleep\<close> in which the other threads make any steps,
  does what thread \<open>i\<close> does in the step relation.
\<close>

locale blocking_os =
  fixes K :: can_codec and os :: "'w os" and i :: nat
  assumes usleep_others: "\<exists>c'. (other_step K i)\<^sup>*\<^sup>* c c' \<and> sh c' = os_usleep os us (sh c)"
begin

lemma others_pc: "(other_step K i)\<^sup>*\<^sup>* c c' \<Longrightarrow> pcs c' i = pcs c i"
  by (induction rule: rtranclp_induct) (auto simp: other_step_def)

lemma others_path: "(other_step K i)\<^sup>*\<^sup>* c c' \<Longrightarrow> (some_step K)\<^sup>*\<^sup>* c c'"
  by (erule rtranclp_mono [THEN predicate2D, rotated]) (auto simp: other_step_def some_step_def)

lemma asleep:
  obtains c' where "(some_step K)\<^sup>*\<^sup>* c c'" and "pcs c' i = pcs c i" and "sh c' = os_usleep os us (sh c)"
  using usleep_others [of c us] others_pc others_path by blast

lemma pause_path:
  assumes "pcs c i = PosPause d" and "r = set_position_resume K os d (os_usleep os (100 * 1000) (sh c))"
  shows "\<exists>c'. (some_step K)\<^sup>*\<^sup>* c c' \<and> (AppReady (fst r), snd r) = (pcs c' i, sh c')"
proof -
  obtain c1 where c1: "(some_step K)\<^sup>*\<^sup>* c c1" "pcs c1 i = pcs c i" "sh c1 = os_usleep os (100 * 1000) (sh c)"
    by (rule asleep)
  have "step K i c1 (goto i (AppReady (fst r), snd r) c1)"
    using c1 assms by (intro pos_resume [where os = os and d = d]) simp_all
  then have "(some_step K)\<^sup>*\<^sup>* c (goto i (AppReady (fst r), snd r) c1)"
    using c1(1) by (rule path_step [rotated])
  then show ?thesis by (intro exI [of _ "goto i (AppReady (fst r), snd r) c1"]) simp
qed

lemma poll_path:
  assumes "r = (let s = wait_motor1_pos os n (sh c) in
      if motor1_pos (ctx s) = MOTOR_POS_INVALID then (SEAT_CTRL_ERR_NO_FRAMES, s)
      else set_position_move K os d s)"
  shows "\<exists>c'. (some_step K)\<^sup>*\<^sup>* (goto i (pos_poll K os d n (sh c)) c) c' \<and>
    (AppReady (fst r), snd r) = (pcs c' i, sh c')"
  using assms
proof (induction n arbitrary: c)
  case 0
  let ?c = "goto i (pos_poll K os d 0 (sh c)) c"
  show ?case
  proof (cases "motor1_pos (ctx (sh c)) = MOTOR_POS_INVALID")
    case True
    have "(AppReady (fst r), snd r) = (pcs ?c i, sh ?c)" using 0 True by (simp add: pos_poll_def)
    then show ?thesis by (blast intro: rtranclp.rtrancl_refl)
  next
    case False
    then show ?thesis
      using 0 by (intro pause_path [where d = d]) (simp_all add: pos_poll_def set_position_move_def)
  qed
next
  case (Suc n)
  show ?case
  proof (cases "motor1_pos (ctx (sh c)) = MOTOR_POS_INVALID")
    case True
    let ?c = "goto i (pos_poll K os d (Suc n) (sh c)) c"
    obtain c1 where c1: "(some_step K)\<^sup>*\<^sup>* ?c c1" "pcs c1 i = pcs ?c i" "sh c1 = os_usleep os (100 * 1000) (sh ?c)"
      by (rule asleep)
    have at: "pcs c1 i = PosWait d n" and s: "sh c1 = os_usleep os (100 * 1000) (sh c)"
      using c1 True by (simp_all add: pos_poll_def)
    have p: "(some_step K)\<^sup>*\<^sup>* ?c (goto i (pos_poll K os d n (sh c1)) c1)"
      using c1(1) pos_wake [OF at] by (rule path_step)
    have "r = (let s = wait_motor1_pos os n (sh c1) in
        if motor1_pos (ctx s) = MOTOR_POS_INVALID then (SEAT_CTRL_ERR_NO_FRAMES, s)
        else set_position_move K os d s)"
      using Suc.prems True s by simp
    from Suc.IH [OF this] p show ?thesis by (meson rtranclp_trans)
  next
    case False
    then show ?thesis
      using Suc.prems by (intro pause_path [where d = d]) (simp_all add: pos_poll_def set_position_move_def)
  qed
qed

lemma set_position_path:
  assumes "pcs c i = AppReady r" and "seatctrl_set_position K os p d (sh c) = (rc, s)"
  shows "\<exists>c'. (some_step K)\<^sup>*\<^sup>* c c' \<and> pcs c' i = AppReady rc \<and> sh c' = s"
proof -
  let ?c = "goto i (pos_enter K os p d (sh c)) c"
  have first: "some_step K c ?c"
    using set_position [OF assms(1)] by (rule some_stepI)
  show ?thesis
  proof (cases "p = NULL \<or> magic (ctx (sh c)) \<noteq> SEAT_CTRL_CONTEXT_MAGIC \<or> d < 0 \<or> d > 100")
    case True
    then have "pcs ?c i = AppReady rc" "sh ?c = s"
      using assms(2) by (auto simp: pos_enter_def seatctrl_set_position_def split: if_splits)
    with first show ?thesis by blast
  next
    case False
    have "(rc, s) = (let t = wait_motor1_pos os 30 (sh c) in
        if motor1_pos (ctx t) = MOTOR_POS_INVALID then (SEAT_CTRL_ERR_NO_FRAMES, t)
        else set_position_move K os d t)"
      using assms(2) False set_position_in_range [of "sh c" d K os] by (cases p) (simp_all add: Let_def)
    from poll_path [OF this] obtain c' where
      "(some_step K)\<^sup>*\<^sup>* (goto i (pos_poll K os d 30 (sh c)) c) c'" "pcs c' i = AppReady rc" "sh c' = s"
      by auto
    then show ?thesis
      using first False by (auto simp: pos_enter_def intro: converse_rtranclp_into_rtranclp)
  qed
qed

end

text \<open>A system whose sleep changes only the outside world is one in which another thread moves the world.\<close>

sublocale ctl_os \<subseteq> quiet: blocking_os K os i for i
proof unfold_locales
  fix c :: "'w conc" and us :: int
  obtain w where w: "os_usleep os us (sh c) = (sh c)\<lparr>world := w\<rparr>" using usleep_quiet by blast
  have "other_step K i c (c\<lparr>sh := (sh c)\<lparr>world := w\<rparr>\<rparr>)"
    unfolding other_step_def by (rule exI [of _ "Suc i"]) (simp add: step.world)
  then show "\<exists>c'. (other_step K i)\<^sup>*\<^sup>* c c' \<and> sh c' = os_usleep os us (sh c)"
    using w by (intro exI [of _ "c\<lparr>sh := (sh c)\<lparr>world := w\<rparr>\<rparr>"]) auto
qed

section \<open>A close that overtakes the start of the CTL thread\<close>

text \<open>An operating system in which every call succeeds at once; the socket is 3, the new thread 1.\<close>

definition ok_os :: "'w os" where
  "ok_os = \<lparr> os_clock = (\<lambda>w. (1, 0)), os_socket = (\<lambda>w. (3, w)), os_ioctl_ifindex = (\<lambda>_ _ w. (Some 0, w)),
     os_bind = (\<lambda>_ _ w. (0, w)), os_setsockopt = (\<lambda>_ w. (0, w)),
     os_write = (\<lambda>_ _ w. ((sizeof_can_frame, 0), w)), os_close = (\<lambda>_ w. (0, w)),
     os_pthread_create = (\<lambda>w. ((0, 1), w)), os_read = (\<lambda>_ s. ((-1, EAGAIN, can_frame_zero), s)),
     os_usleep = (\<lambda>_ s. s), os_pthread_join = (\<lambda>_ s. (0, s)) \<rparr>"

lemma ok_os_ctl_os: "secu_codec K \<Longrightarrow> ctl_os K ok_os"
  by (auto simp: ctl_os_def ctl_os_axioms_def ok_os_def can_frame_zero_def intro: sys_world_self)

definition two_threads :: "'w sys \<Rightarrow> pc \<Rightarrow> pc \<Rightarrow> 'w conc" where
  "two_threads s p q = \<lparr> sh = s, pcs = (\<lambda>i. if i = 0 then p else if i = 1 then q else Unused) \<rparr>"

lemma two_threads_simps [simp]:
  "sh (two_threads s p q) = s" "pcs (two_threads s p q) 0 = p" "pcs (two_threads s p q) (Suc 0) = q"
  "goto 0 r (two_threads s p q) = two_threads (snd r) (fst r) q"
  "goto (Suc 0) r (two_threads s p q) = two_threads (snd r) p (fst r)"
  "(two_threads s p q)\<lparr>pcs := (pcs (two_threads s p q))(Suc 0 := q')\<rparr> = two_threads s p q'"
  by (auto simp: two_threads_def goto_def)

text \<open>The context after \<open>seatctrl_init_ctx\<close>, with other life cycle fields.\<close>

definition life :: "seatctrl_config_t \<Rightarrow> 'w sys \<Rightarrow> bool \<Rightarrow> int \<Rightarrow> nat \<Rightarrow> 'w sys" where
  "life cfg s r fd tid =
     upd_ctx (\<lambda>c. c\<lparr>running := r, socket := fd, thread_id := tid\<rparr>) (snd (seatctrl_init_ctx CTX (Some cfg) s))"

lemma ctl_overtaken:
  assumes dev: "can_device cfg = Some dev" and "tx s = []" and "cbs s = []"
  shows "reachable K cfg (two_threads (life cfg s True SOCKET_INVALID 0) (AppReady SEAT_CTRL_OK) Exited)"
proof -
  let ?ok = "AppReady SEAT_CTRL_OK"
  note defs = life_def seatctrl_init_ctx_def assms SEAT_CTRL_defs SOCKET_INVALID_def ok_os_def
  let ?c0 = "two_threads (life cfg s False SOCKET_INVALID 0) ?ok Unused"
  have ini: "initial cfg ?c0"
    by (auto simp: initial_def defs two_threads_def)
  have "seatctrl_open ok_os CTX (sh ?c0) = (SEAT_CTRL_OK, life cfg s False 3 1)"
    by (simp add: seatctrl_open_def open_bind_def defs)
  from step.opened [OF _ this, of 0 _ "Suc 0"]
  have s1: "step K 0 ?c0 (two_threads (life cfg s False 3 1) ?ok CtlCreated)"
    by (simp add: life_def)
  have s2: "step K 0 (two_threads (life cfg s False 3 1) ?ok CtlCreated)
      (two_threads (life cfg s False 3 1) CloseSleep CtlCreated)"
    using step.close [of "two_threads (life cfg s False 3 1) ?ok CtlCreated" 0 SEAT_CTRL_OK K CTX]
    by (simp add: close_enter_def defs)
  have s3: "step K 0 (two_threads (life cfg s False 3 1) CloseSleep CtlCreated)
      (two_threads (life cfg s False SOCKET_INVALID 1) (CloseJoin SEAT_CTRL_OK 1) CtlCreated)"
    using step.close_wake [of "two_threads (life cfg s False 3 1) CloseSleep CtlCreated" 0 K ok_os]
    by (simp add: close_wake_def close_socket_def defs)
  have s4: "step K 1 (two_threads (life cfg s False SOCKET_INVALID 1) (CloseJoin SEAT_CTRL_OK 1) CtlCreated)
      (two_threads (life cfg s True SOCKET_INVALID 1) (CloseJoin SEAT_CTRL_OK 1) CtlTop)"
    using step.ctl_start [of "two_threads (life cfg s False SOCKET_INVALID 1) (CloseJoin SEAT_CTRL_OK 1) CtlCreated" 1 K]
    by (simp add: threadFunc_start_def defs)
  have s5: "step K 1 (two_threads (life cfg s True SOCKET_INVALID 1) (CloseJoin SEAT_CTRL_OK 1) CtlTop)
      (two_threads (life cfg s True SOCKET_INVALID 1) (CloseJoin SEAT_CTRL_OK 1) Exited)"
    using step.ctl_top [of "two_threads (life cfg s True SOCKET_INVALID 1) (CloseJoin SEAT_CTRL_OK 1) CtlTop" 1 K]
    by (simp add: threadFunc_guard_def defs)
  have s6: "step K 0 (two_threads (life cfg s True SOCKET_INVALID 1) (CloseJoin SEAT_CTRL_OK 1) Exited)
      (two_threads (life cfg s True SOCKET_INVALID 0) ?ok Exited)"
    using step.close_joined [of "two_threads (life cfg s True SOCKET_INVALID 1) (CloseJoin SEAT_CTRL_OK 1) Exited" 0 SEAT_CTRL_OK 1 K]
    by (simp add: close_joined_def defs)
  have "(some_step K)\<^sup>*\<^sup>* ?c0 (two_threads (life cfg s True SOCKET_INVALID 0) ?ok Exited)"
    by (intro path_step [OF _ s6] path_step [OF _ s5] path_step [OF _ s4] path_step [OF _ s3]
        path_step [OF _ s2] path_step [OF _ s1] rtranclp.rtrancl_refl)
  with ini show ?thesis by (auto simp: reachable_def)
qed

end
