(* ===== verification/Seat_Control_Liveness.thy ===== *)
theory Seat_Control_Liveness
  imports Seat_Interleaving
begin

text \<open>
  Every movement ends: while the ECU keeps sending status frames, whatever they report, a pending
  command is stopped after a bounded number of passes through the loop of the CTL thread.
\<close>

section \<open>One pass through the loop\<close>

text \<open>A complete \<open>SECU1_STAT\<close> frame with a position the controller accepts.\<close>

definition stat_frame :: "can_frame \<Rightarrow> bool" where
  "stat_frame f \<longleftrightarrow>
     can_id f = CAN_SECU1_STAT_FRAME_ID \<and> 8 \<le> unat (can_dlc f) \<and> length (fdata f) = 8 \<and>
     motor_pos_valid (fdata f ! 2)"

definition stat_ctx :: "can_frame \<Rightarrow> seatctrl_context_t \<Rightarrow> seatctrl_context_t" where
  "stat_ctx f c =
     c\<lparr>motor1_mov_state := fdata f ! 0 AND 3, motor1_learning_state := drop_bit 2 (fdata f ! 0) AND 3,
       motor1_pos := fdata f ! 2\<rparr>"

lemma stat_ctx_frame [simp, frame_simps]:
  "magic (stat_ctx f c) = magic c" "config (stat_ctx f c) = config c" "socket (stat_ctx f c) = socket c"
  "running (stat_ctx f c) = running c" "thread_id (stat_ctx f c) = thread_id c"
  "command_ts (stat_ctx f c) = command_ts c" "desired_position (stat_ctx f c) = desired_position c"
  "desired_direction (stat_ctx f c) = desired_direction c" "event_cb (stat_ctx f c) = event_cb c"
  "event_cb_user_data (stat_ctx f c) = event_cb_user_data c"
  "motor1_pos (stat_ctx f c) = fdata f ! 2" "motor1_mov_state (stat_ctx f c) = fdata f ! 0 AND 3"
  by (simp_all add: stat_ctx_def)

lemma is_ctl_running_stat_ctx [simp]: "is_ctl_running (stat_ctx f c) = is_ctl_running c"
  by (simp add: is_ctl_running_def)

text \<open>The time stamp at a state of the outside world.\<close>

definition world_ts :: "'w os \<Rightarrow> 'w \<Rightarrow> int" where
  "world_ts os w = (case os_clock os w of (sec, nsec) \<Rightarrow> sec * 1000 + nsec div 1000000)"

lemma get_ts_world: "get_ts os s = world_ts os (world s)"
  by (simp add: get_ts_def world_ts_def)

text \<open>
  The contract of a live ECU and a monotonic clock. \<open>alive fd w\<close> says that \<open>fd\<close> is connected to an ECU
  that keeps sending: then every \<open>read()\<close> delivers a status frame and no call disconnects it; a
  \<open>usleep()\<close> of \<open>n\<close> microseconds takes at least that long.
\<close>

locale live_os = ctl_os K os for K and os :: "'w os" +
  fixes alive :: "int \<Rightarrow> 'w \<Rightarrow> bool"
  assumes read_alive: "alive fd (world s) \<Longrightarrow> os_read os fd s = ((cnt, err, f), s') \<Longrightarrow>
      0 \<le> cnt \<and> stat_frame f \<and> alive fd (world s') \<and> get_ts os s \<le> get_ts os s'"
    and write_alive: "alive fd w \<Longrightarrow> os_write os fd f w = (res, w') \<Longrightarrow>
      alive fd w' \<and> world_ts os w \<le> world_ts os w'"
    and usleep_alive: "alive fd (world s) \<Longrightarrow> 0 \<le> n \<Longrightarrow>
      alive fd (world (os_usleep os n s)) \<and> get_ts os s + n div 1000 \<le> get_ts os (os_usleep os n s)"
begin

text \<open>\<open>advances s t\<close>: from \<open>s\<close> to \<open>t\<close> the ECU stays connected, the socket is kept and time passes.\<close>

definition advances :: "'w sys \<Rightarrow> 'w sys \<Rightarrow> bool" where
  "advances s t \<longleftrightarrow> socket (ctx t) = socket (ctx s) \<and>
     (alive (socket (ctx s)) (world s) \<longrightarrow>
      alive (socket (ctx s)) (world t) \<and> get_ts os s \<le> get_ts os t)"

lemma advances_refl [simp]: "advances s s"
  by (simp add: advances_def)

lemma advances_trans [trans]: "advances s t \<Longrightarrow> advances t u \<Longrightarrow> advances s u"
  by (auto simp: advances_def)

lemma advances_same: "socket (ctx t) = socket (ctx s) \<Longrightarrow> world t = world s \<Longrightarrow> advances s t"
  by (simp add: advances_def get_ts_world)

lemma send_cmd1_advances: "advances s (snd (seatctrl_send_cmd1 K os d r s))"
  using write_alive [of "socket (ctx s)" "world s"]
  by (fastforce simp: advances_def seatctrl_send_cmd1_def get_ts_world Let_def
      split: option.split prod.split)

lemma usleep_advances: "0 \<le> n \<Longrightarrow> advances s (os_usleep os n s)"
  using usleep_alive [of "socket (ctx s)" s n] by (fastforce simp: advances_def)

lemma stop_movement_advances: "advances s (snd (seatctrl_stop_movement K os s))"
proof -
  have "advances s (snd (seatctrl_send_cmd1 K os 0 0 s))" by (rule send_cmd1_advances)
  also have "advances \<dots> (snd (seatctrl_stop_movement K os s))"
    by (rule advances_same) (simp_all add: seatctrl_stop_movement_def case_prod_unfold)
  finally show ?thesis .
qed

lemma ctl_check_end_advances: "advances s (ctl_check_end K os e s)"
proof -
  have "advances s (ctl_stop K os s)"
    using stop_movement_advances [of s] by (simp add: ctl_stop_def advances_def get_ts_world)
  then show ?thesis by (simp add: ctl_check_end_def)
qed

lemma ctl_state_changed_advances: "advances s (ctl_state_changed K os s)"
proof -
  let ?t = "snd (seatctrl_send_cmd1 K os (MotorDirection_val OFF) 0 s)"
  have "advances s ?t" by (rule send_cmd1_advances)
  also have "advances \<dots> (os_usleep os (100 * 1000) ?t)" by (rule usleep_advances) simp
  also have "advances \<dots> (ctl_resend K os s)"
    unfolding ctl_resend_def ctl_resend_cmd_def by (rule send_cmd1_advances)
  finally have r: "advances s (ctl_resend K os s)" .
  have "advances u (ctl_note_state u)" for u by (simp add: advances_same)
  with r show ?thesis by (auto simp: ctl_state_changed_def intro: advances_trans)
qed

lemma control_loop_advances: "advances s (snd (seatctrl_control_loop K os s))"
proof -
  let ?u = "update_learned_mode os s"
  have "advances s ?u" by (simp add: advances_same)
  moreover have "advances ?u (os_usleep os 1000 ?u)" by (rule usleep_advances) simp
  moreover have "advances ?u (ctl_check_end K os e (ctl_state_changed K os ?u))" for e
    using ctl_state_changed_advances ctl_check_end_advances by (rule advances_trans)
  ultimately show ?thesis
    by (auto simp: seatctrl_control_loop_def Let_def intro: advances_trans)
qed

lemma handle_stat_frame:
  assumes "stat_frame f"
  shows "fst (handle_secu_stat K f s) = SEAT_CTRL_OK"
    and "ctx (snd (handle_secu_stat K f s)) = stat_ctx f (ctx s)"
    and "world (snd (handle_secu_stat K f s)) = world s"
  using assms by (simp_all add: handle_secu_stat_eq stat_frame_def stat_ctx_def)

lemma body_pass:
  assumes al: "alive (socket (ctx s)) (world s)"
  obtains f t where "stat_frame f" and "ctx t = stat_ctx f (ctx s)" and "advances s t"
    and "threadFunc_body K os s = (Continue, os_usleep os 1000 (snd (seatctrl_control_loop K os t)))"
proof -
  obtain cnt err f s1 where rd: "os_read os (socket (ctx s)) s = ((cnt, err, f), s1)"
    by (cases "os_read os (socket (ctx s)) s") (metis prod_cases3)
  from read_alive [OF al rd] have cnt: "0 \<le> cnt" and f: "stat_frame f" by auto
  from read_quiet [OF rd] have s1: "ctx s1 = ctx s" by auto
  let ?t = "snd (handle_secu_stat K f s1)"
  have "advances s ?t"
    using read_alive [OF al rd] handle_stat_frame(2,3) [OF f, of s1] s1
    by (simp add: advances_def get_ts_world)
  moreover have "threadFunc_body K os s = (Continue, os_usleep os 1000 (snd (seatctrl_control_loop K os ?t)))"
    using cnt handle_stat_frame(1) [OF f, of s1] f
    by (simp add: threadFunc_body_def rd stat_frame_def Let_def case_prod_unfold)
  ultimately show ?thesis
    using that [of f ?t] f handle_stat_frame(2) [OF f, of s1] s1 by simp
qed

text \<open>A pass takes time, keeps the thread in its loop, and ends a command that is past its time.\<close>

lemma body_progress:
  assumes run: "is_ctl_running (ctx s)" and g: "threadFunc_guard s" and al: "alive (socket (ctx s)) (world s)"
  defines "t \<equiv> snd (threadFunc_body K os s)"
  shows "fst (threadFunc_body K os s) = Continue" and "threadFunc_guard t"
    and "alive (socket (ctx t)) (world t)" and "get_ts os s + 1 \<le> get_ts os t"
    and "cmd_idle (ctx t) \<or> is_ctl_running (ctx t) \<and> command_ts (ctx t) = command_ts (ctx s) \<and>
         config (ctx t) = config (ctx s)"
    and "max 500 (command_timeout (config (ctx s)) + 1) \<le> get_ts os s - command_ts (ctx s) \<Longrightarrow>
         cmd_idle (ctx t)"
proof -
  obtain f u where f: "stat_frame f" and u: "ctx u = stat_ctx f (ctx s)" and adv: "advances s u"
    and body: "threadFunc_body K os s = (Continue, os_usleep os 1000 (snd (seatctrl_control_loop K os u)))"
    using al by (rule body_pass)
  have t: "t = os_usleep os 1000 (snd (seatctrl_control_loop K os u))" by (simp add: t_def body)
  have run_u: "is_ctl_running (ctx u)" using run u by simp
  show "fst (threadFunc_body K os s) = Continue" by (simp add: body)
  show "threadFunc_guard t"
    using g u control_loop_ctx [of u] by (auto simp: t threadFunc_guard_def)
  have adv_l: "advances s (snd (seatctrl_control_loop K os u))"
    using adv control_loop_advances by (rule advances_trans)
  then have al_l: "alive (socket (ctx s)) (world (snd (seatctrl_control_loop K os u)))"
    and ts_l: "get_ts os s \<le> get_ts os (snd (seatctrl_control_loop K os u))"
    using al by (simp_all add: advances_def)
  show "alive (socket (ctx t)) (world t)"
    using usleep_alive [OF al_l, of 1000] adv_l by (simp add: t advances_def)
  show "get_ts os s + 1 \<le> get_ts os t"
    using usleep_alive [OF al_l, of 1000] ts_l by (simp add: t)
  show "cmd_idle (ctx t) \<or> is_ctl_running (ctx t) \<and> command_ts (ctx t) = command_ts (ctx s) \<and>
         config (ctx t) = config (ctx s)"
    using control_loop_ctx [of u] run u by (auto simp: t)
  show "cmd_idle (ctx t)"
    if "max 500 (command_timeout (config (ctx s)) + 1) \<le> get_ts os s - command_ts (ctx s)"
    using that adv al u control_loop_active(1) [OF run_u]
    by (simp add: t ctl_preliminary_def advances_def)
qed

end

section \<open>The bound\<close>

fun passes :: "can_codec \<Rightarrow> 'w os \<Rightarrow> nat \<Rightarrow> 'w sys \<Rightarrow> 'w sys" where
  "passes K os 0 s = s"
| "passes K os (Suc n) s = passes K os n (snd (threadFunc_body K os s))"

text \<open>Time left, in milliseconds, until the control loop gives up on the command of \<open>c\<close>.\<close>

definition time_left :: "'w os \<Rightarrow> 'w sys \<Rightarrow> nat" where
  "time_left os s =
     nat (max 500 (command_timeout (config (ctx s)) + 1) - (get_ts os s - command_ts (ctx s)))"

context live_os
begin

lemma command_ends:
  assumes "is_ctl_running (ctx s)" and "threadFunc_guard s" and "alive (socket (ctx s)) (world s)"
  shows "\<exists>k \<le> Suc (time_left os s).
    cmd_idle (ctx (passes K os k s)) \<and>
    (\<forall>j < k. threadFunc_guard (passes K os j s) \<and> fst (threadFunc_body K os (passes K os j s)) = Continue)"
  using assms
proof (induction "time_left os s" arbitrary: s rule: less_induct)
  case less
  let ?s = "snd (threadFunc_body K os s)"
  note p = body_progress [OF less.prems]
  show ?case
  proof (cases "cmd_idle (ctx ?s)")
    case True
    then show ?thesis
      using p(1) less.prems(2) by (intro exI [of _ "Suc 0"]) simp
  next
    case False
    with p(5) have run: "is_ctl_running (ctx ?s)"
      and eq: "command_ts (ctx ?s) = command_ts (ctx s)" "config (ctx ?s) = config (ctx s)" by auto
    from False p(6) have "\<not> max 500 (command_timeout (config (ctx s)) + 1) \<le> get_ts os s - command_ts (ctx s)"
      by blast
    then have lt: "time_left os ?s < time_left os s"
      using p(4) eq unfolding time_left_def by (simp add: nat_less_eq_zless) linarith
    obtain k where k: "k \<le> Suc (time_left os ?s)" "cmd_idle (ctx (passes K os k ?s))"
      "\<forall>j < k. threadFunc_guard (passes K os j ?s) \<and> fst (threadFunc_body K os (passes K os j ?s)) = Continue"
      using less.hyps [OF lt run p(2,3)] by blast
    have "\<forall>j < Suc k. threadFunc_guard (passes K os j s) \<and>
        fst (threadFunc_body K os (passes K os j s)) = Continue"
      using k(3) p(1) less.prems(2) by (auto simp: less_Suc_eq_0_disj)
    with k(1,2) lt show ?thesis
      by (intro exI [of _ "Suc k"]) simp
  qed
qed

end

end
