(* ===== verification/Cansim.thy ===== *)
theory Cansim
  imports Seat_Control_Liveness "HOL-Library.Signed_Division"
begin

text \<open>
  The simulator that the service is shipped with (\<open>tests/cansim\<close>): the seat adjuster engine, which
  answers the frames of the controller like the ECU does, and the \<open>LD_PRELOAD\<close> hooks that put it in
  the place of SocketCAN. The hooks are an \<open>os\<close> over the \<open>os\<close> they hook, which serves all calls on other
  descriptors. The struct members of the four motors are grouped in \<open>sae_motor\<close>; C \<open>int\<close> is
  \<open>int\<close> (the products of \<open>sae_pos_increment\<close> stay in range for delays below 20 seconds).
\<close>

section \<open>The seat adjuster engine (seatadjuster_engine.c)\<close>

definition SAE_POS_INVALID :: int where "SAE_POS_INVALID = -1"
definition MotorLRN_OK :: int where "MotorLRN_OK = 1"

definition MotorDirection_OFF :: int where "MotorDirection_OFF = 0"
definition MotorDirection_DEC :: int where "MotorDirection_DEC = 1"
definition MotorDirection_INC :: int where "MotorDirection_INC = 2"

lemmas sae_const_defs = SAE_POS_INVALID_def MotorLRN_OK_def MotorDirection_OFF_def
  MotorDirection_DEC_def MotorDirection_INC_def

record sae_motor =
  sae_pos :: int
  sae_rpm :: int
  sae_lrn :: int
  sae_status :: int

record sae_context_t =
  sim_fd :: int
  sim_active :: bool
  sim_delay :: int
  sim_motor1 :: sae_motor
  sim_motor2 :: sae_motor
  sim_motor3 :: sae_motor
  sim_motor4 :: sae_motor
  sim_threshold_enabled :: bool
  sim_threshold_hi_stop :: bool
  sim_threshold_lo_stop :: bool
  sim_motor1_oldpos :: int
  sim_motor1_ts :: int
  sim_motor1_inc :: int

definition POS_SHIFT :: nat where "POS_SHIFT = 10"

definition sae_pos_raw :: "int \<Rightarrow> int" where
  "sae_pos_raw percent = push_bit POS_SHIFT percent"

definition sae_pos_percent :: "int \<Rightarrow> int" where
  "sae_pos_percent raw = drop_bit POS_SHIFT raw"

definition sae_motor_init :: sae_motor where
  "sae_motor_init = \<lparr> sae_pos = SAE_POS_INVALID, sae_rpm = 0, sae_lrn = MotorLRN_OK,
     sae_status = MotorDirection_OFF \<rparr>"

definition sae_init :: "environ \<Rightarrow> sae_context_t" where
  "sae_init env =
     \<lparr> sim_fd = -1, sim_active = False, sim_delay = env_int env ''SAE_DELAY'' 10,
       sim_motor1 = sae_motor_init
         \<lparr>sae_pos := (case env ''SAE_POS'' of
              None \<Rightarrow> SAE_POS_INVALID
            | Some v \<Rightarrow> (let pos = atoi v in
                if pos = -1 \<or> pos = 255 then SAE_POS_INVALID else sae_pos_raw pos)),
          sae_lrn := env_int env ''SAE_LRN'' MotorLRN_OK\<rparr>,
       sim_motor2 = sae_motor_init, sim_motor3 = sae_motor_init, sim_motor4 = sae_motor_init,
       sim_threshold_enabled = env_bool env ''SAE_STOP'' True,
       sim_threshold_hi_stop = False, sim_threshold_lo_stop = False,
       sim_motor1_oldpos = -2, sim_motor1_ts = -1, sim_motor1_inc = 0 \<rparr>"

definition sae_start :: "int \<Rightarrow> sae_context_t \<Rightarrow> sae_context_t" where
  "sae_start fd c = c\<lparr>sim_fd := fd, sim_active := True\<rparr>"

definition sae_close :: "sae_context_t \<Rightarrow> sae_context_t" where
  "sae_close c = c\<lparr>sim_fd := -1, sim_active := False\<rparr>"

definition sae_estimate_move_time :: "int \<Rightarrow> int" where
  "sae_estimate_move_time rpm =
     (if rpm < 30 then 0 else if rpm > 130 then 1000 else 8000 + 200 * (100 - rpm))"

definition sae_pos_increment :: "sae_context_t \<Rightarrow> int" where
  "sae_pos_increment c =
     (if sim_fd c = -1 then 0
      else if \<not> sim_active c then 0
      else let move_time = sae_estimate_move_time (sae_rpm (sim_motor1 c))
           in if move_time = 0 then 0
              else (push_bit POS_SHIFT 1 * 100 * (sim_delay c + 10)) sdiv move_time)"

text \<open>\<open>sae_read_cb()\<close>, part by part: a first position, the threshold flags, one tick of movement.\<close>

definition upd_motor1 :: "(sae_motor \<Rightarrow> sae_motor) \<Rightarrow> sae_context_t \<Rightarrow> sae_context_t" where
  "upd_motor1 f c = c\<lparr>sim_motor1 := f (sim_motor1 c)\<rparr>"

definition sae_leave_invalid :: "sae_context_t \<Rightarrow> sae_context_t" where
  "sae_leave_invalid c =
     (if sae_pos (sim_motor1 c) = SAE_POS_INVALID
      then upd_motor1 (\<lambda>m. m\<lparr>sae_pos := sae_pos_raw 42\<rparr>) c else c)"

definition sae_reset_thresholds :: "sae_context_t \<Rightarrow> sae_context_t" where
  "sae_reset_thresholds c =
     (if sim_threshold_enabled c then
        c\<lparr>sim_threshold_lo_stop := sim_threshold_lo_stop c \<and> \<not> sae_pos_percent (sae_pos (sim_motor1 c)) > 14,
          sim_threshold_hi_stop := sim_threshold_hi_stop c \<and> \<not> sae_pos_percent (sae_pos (sim_motor1 c)) < 85\<rparr>
      else c)"

definition sae_move_inc :: "int \<Rightarrow> sae_context_t \<Rightarrow> sae_context_t" where
  "sae_move_inc next_pos c =
     (let c1 = (if sae_pos_percent next_pos \<le> 100
                then upd_motor1 (\<lambda>m. m\<lparr>sae_pos := next_pos\<rparr>) c
                else upd_motor1 (\<lambda>m. m\<lparr>sae_status := MotorDirection_OFF\<rparr>) c)
      in if sim_threshold_enabled c1 \<and> sae_pos_percent (sae_pos (sim_motor1 c1)) \<ge> 85 \<and>
            \<not> sim_threshold_hi_stop c1
         then (upd_motor1 (\<lambda>m. m\<lparr>sae_status := MotorDirection_OFF\<rparr>) c1)\<lparr>sim_threshold_hi_stop := True\<rparr>
         else c1)"

definition sae_move_dec :: "int \<Rightarrow> sae_context_t \<Rightarrow> sae_context_t" where
  "sae_move_dec next_pos c =
     (let c1 = (if sae_pos_percent next_pos \<ge> 0
                then upd_motor1 (\<lambda>m. m\<lparr>sae_pos := next_pos\<rparr>) c
                else upd_motor1 (\<lambda>m. m\<lparr>sae_status := MotorDirection_OFF\<rparr>) c)
      in if sim_threshold_enabled c1 \<and> sae_pos_percent (sae_pos (sim_motor1 c1)) \<le> 14 \<and>
            \<not> sim_threshold_lo_stop c1
         then (upd_motor1 (\<lambda>m. m\<lparr>sae_status := MotorDirection_OFF\<rparr>) c1)\<lparr>sim_threshold_lo_stop := True\<rparr>
         else c1)"

definition sae_move_motor1 :: "sae_context_t \<Rightarrow> sae_context_t" where
  "sae_move_motor1 c =
     (let next_pos = sae_pos (sim_motor1 c) + sim_motor1_inc c
      in if sae_status (sim_motor1 c) = MotorDirection_INC then sae_move_inc next_pos c
         else if sae_status (sim_motor1 c) = MotorDirection_DEC then sae_move_dec next_pos c
         else c)"

text \<open>The generated \<open>SECU1_STAT\<close> frame; \<open>all_motors\<close> is the global \<open>_sae_all_motors\<close>.\<close>

definition sae_stat_frame :: "bool \<Rightarrow> sae_context_t \<Rightarrow> can_frame" where
  "sae_stat_frame all_motors c =
     (let m1 = sim_motor1 c; m2 = sim_motor2 c; m3 = sim_motor3 c; m4 = sim_motor4 c;
          p1 = sae_pos_percent (sae_pos m1);
          p = (\<lambda>m. if all_motors then p1 else sae_pos_percent (sae_pos m))
      in \<lparr> can_id = 0x712, can_dlc = 8,
           fdata = [(to_u8 (sae_status m1) AND 3) OR push_bit 2 (to_u8 (sae_lrn m1) AND 3)
                      OR push_bit 4 (to_u8 (sae_status m2) AND 3) OR push_bit 6 (to_u8 (sae_lrn m2) AND 3),
                    (to_u8 (sae_status m3) AND 3) OR push_bit 2 (to_u8 (sae_lrn m3) AND 3)
                      OR push_bit 4 (to_u8 (sae_status m4) AND 3) OR push_bit 6 (to_u8 (sae_lrn m4) AND 3),
                    to_u8 p1, to_u8 (p m2), to_u8 (p m3), to_u8 (p m4), 0, 0] \<rparr>)"

text \<open>The result: count, \<open>errno\<close>, buffer, the time slept in milliseconds, the new engine state.\<close>

definition sae_read_cb ::
    "bool \<Rightarrow> sae_context_t \<Rightarrow> (int \<times> int \<times> can_frame) \<times> int \<times> sae_context_t" where
  "sae_read_cb all_motors c =
     (if sim_fd c = -1 then ((-1, EINVAL, can_frame_zero), 0, c)
      else if \<not> sim_active c then ((-1, EAGAIN, can_frame_zero), sim_delay c, c)
      else
        let slept = (if sae_pos (sim_motor1 c) = SAE_POS_INVALID then 2 * sim_delay c else sim_delay c);
            c1 = sae_move_motor1 (sae_reset_thresholds (sae_leave_invalid c));
            frame = sae_stat_frame all_motors c1
        in ((sizeof_can_frame, 0, frame), slept,
            c1\<lparr>sim_motor1_oldpos := sae_pos_percent (sae_pos (sim_motor1 c1))\<rparr>))"

definition sae_command :: "int \<Rightarrow> u8 \<Rightarrow> u8 \<Rightarrow> sae_context_t \<Rightarrow> sae_context_t" where
  "sae_command now motor1_dir motor1_rpm c =
     (let motor_inc = sae_pos_increment c
      in if uint motor1_dir = MotorDirection_OFF then
           (upd_motor1 (\<lambda>m. m\<lparr>sae_status := MotorDirection_OFF, sae_rpm := 0\<rparr>) c)
             \<lparr>sim_motor1_ts := -1, sim_motor1_inc := 0\<rparr>
         else if uint motor1_dir = MotorDirection_INC \<and> motor1_rpm > 0 then
           (upd_motor1 (\<lambda>m. m\<lparr>sae_status := MotorDirection_INC\<rparr>) c)
             \<lparr>sim_motor1_inc := motor_inc, sim_motor1_ts := now\<rparr>
         else if uint motor1_dir = MotorDirection_DEC \<and> motor1_rpm > 0 then
           (upd_motor1 (\<lambda>m. m\<lparr>sae_status := MotorDirection_DEC\<rparr>) c)
             \<lparr>sim_motor1_inc := - motor_inc, sim_motor1_ts := now\<rparr>
         else c)"

definition sae_set_rpms :: "can_frame \<Rightarrow> sae_context_t \<Rightarrow> sae_context_t" where
  "sae_set_rpms cf c =
     c\<lparr>sim_motor1 := (sim_motor1 c)\<lparr>sae_rpm := uint (fdata cf ! 1)\<rparr>,
       sim_motor2 := (sim_motor2 c)\<lparr>sae_rpm := uint (fdata cf ! 2)\<rparr>,
       sim_motor3 := (sim_motor3 c)\<lparr>sae_rpm := uint (fdata cf ! 3)\<rparr>,
       sim_motor4 := (sim_motor4 c)\<lparr>sae_rpm := uint (fdata cf ! 4)\<rparr>\<rparr>"

definition sae_write_cb :: "int \<Rightarrow> can_frame \<Rightarrow> sae_context_t \<Rightarrow> (int \<times> int) \<times> sae_context_t" where
  "sae_write_cb now cf c =
     (if sim_fd c = -1 then ((-1, EINVAL), c)
      else if can_id cf = 0x705 then
        ((sizeof_can_frame, 0),
         sae_command now (fdata cf ! 0 AND 3) (fdata cf ! 1) (sae_set_rpms cf c))
      else ((sizeof_can_frame, 0), c))"

section \<open>The hooks (cansim_lib.c)\<close>

definition MOCKFD :: int where "MOCKFD = 1023"

text \<open>The simulation context, the process environment, the global flag and the clock (microseconds).\<close>

record sim_world =
  mock_socket :: int
  mock_active :: bool
  sae :: sae_context_t
  sim_environ :: environ
  sae_all_motors :: bool
  now_us :: int

definition sim_init_context :: "sim_world \<Rightarrow> sim_world" where
  "sim_init_context w =
     w\<lparr>mock_socket := SOCKET_INVALID, mock_active := False, sae := sae_init (sim_environ w),
       sae_all_motors := env_bool (sim_environ w) ''SAE_ALL'' (sae_all_motors w)\<rparr>"

definition sim_is_mocked_fd :: "sim_world \<Rightarrow> int \<Rightarrow> bool" where
  "sim_is_mocked_fd w fd \<longleftrightarrow> fd = mock_socket w \<and> mock_active w"

definition sim_alloc_fd :: "sim_world \<Rightarrow> int \<times> sim_world" where
  "sim_alloc_fd w =
     (if mock_socket w = SOCKET_INVALID then
        (MOCKFD, w\<lparr>mock_socket := MOCKFD, mock_active := True,
           sae := sae_start MOCKFD (sae_init (sim_environ w)),
           sae_all_motors := env_bool (sim_environ w) ''SAE_ALL'' (sae_all_motors w)\<rparr>)
      else (-1, w))"

definition sim_close_fd :: "sim_world \<Rightarrow> int \<Rightarrow> int \<times> sim_world" where
  "sim_close_fd w fd =
     (if mock_socket w = fd then (0, w\<lparr>sae := sae_close (sae w), mock_socket := SOCKET_INVALID\<rparr>)
      else (-1, w))"

definition hook_bind :: "sim_world os \<Rightarrow> int \<Rightarrow> int \<Rightarrow> sim_world \<Rightarrow> int \<times> sim_world" where
  "hook_bind hook fd ifindex w =
     (if sim_is_mocked_fd w fd then (0, w) else os_bind hook fd ifindex w)"

definition hook_ioctl :: "int \<Rightarrow> string \<Rightarrow> sim_world \<Rightarrow> int option \<times> sim_world" where
  "hook_ioctl fd name w = (Some 0, w)"

definition hook_write :: "sim_world os \<Rightarrow> int \<Rightarrow> can_frame \<Rightarrow> sim_world \<Rightarrow> (int \<times> int) \<times> sim_world" where
  "hook_write hook fd frame w =
     (if sim_is_mocked_fd w fd then
        (if sim_fd (sae w) \<noteq> fd then ((-1, ENODEV), w)
         else (case sae_write_cb (now_us w div 1000) frame (sae w) of
                 (res, c) \<Rightarrow> (res, w\<lparr>sae := c\<rparr>)))
      else os_write hook fd frame w)"

definition hook_read ::
    "sim_world os \<Rightarrow> int \<Rightarrow> sim_world sys \<Rightarrow> (int \<times> int \<times> can_frame) \<times> sim_world sys" where
  "hook_read hook fd s =
     (let w = world s
      in if sim_is_mocked_fd w fd then
           (if sim_fd (sae w) \<noteq> fd then ((-1, ENODEV, can_frame_zero), s)
            else (case sae_read_cb (sae_all_motors w) (sae w) of
                    (res, slept, c) \<Rightarrow>
                      (res, s\<lparr>world := w\<lparr>sae := c, now_us := now_us w + slept * 1000\<rparr>\<rparr>)))
         else os_read hook fd s)"

definition hook_setsockopt :: "sim_world os \<Rightarrow> int \<Rightarrow> sim_world \<Rightarrow> int \<times> sim_world" where
  "hook_setsockopt hook fd w = (if sim_is_mocked_fd w fd then (0, w) else os_setsockopt hook fd w)"

definition hook_close :: "sim_world os \<Rightarrow> int \<Rightarrow> sim_world \<Rightarrow> int \<times> sim_world" where
  "hook_close hook fd w =
     (if sim_is_mocked_fd w fd then (0, snd (sim_close_fd w fd)) else os_close hook fd w)"

text \<open>A process under cansim, one of whose threads runs alone; sleeping only lets time pass.\<close>

definition sim_os :: "sim_world os \<Rightarrow> sim_world os" where
  "sim_os hook =
     \<lparr> os_clock = (\<lambda>w. (now_us w div 1000000, (now_us w mod 1000000) * 1000)),
       os_socket = sim_alloc_fd,
       os_ioctl_ifindex = hook_ioctl,
       os_bind = hook_bind hook,
       os_setsockopt = hook_setsockopt hook,
       os_write = hook_write hook,
       os_close = hook_close hook,
       os_pthread_create = os_pthread_create hook,
       os_read = hook_read hook,
       os_usleep = (\<lambda>n s. s\<lparr>world := (world s)\<lparr>now_us := now_us (world s) + n\<rparr>\<rparr>),
       os_pthread_join = os_pthread_join hook \<rparr>"

section \<open>The engine keeps the seat in range\<close>

definition sae_ok :: "sae_context_t \<Rightarrow> bool" where
  "sae_ok c \<longleftrightarrow>
     0 \<le> sim_delay c \<and>
     (sae_pos (sim_motor1 c) = SAE_POS_INVALID \<or>
      0 \<le> sae_pos_percent (sae_pos (sim_motor1 c)) \<and> sae_pos_percent (sae_pos (sim_motor1 c)) \<le> 100) \<and>
     (sae_status (sim_motor1 c) = MotorDirection_INC \<longrightarrow> 0 \<le> sim_motor1_inc c) \<and>
     (sae_status (sim_motor1 c) = MotorDirection_DEC \<longrightarrow> sim_motor1_inc c \<le> 0)"

lemma sae_pos_percent_eq: "sae_pos_percent raw = raw div 1024"
  by (simp add: sae_pos_percent_def POS_SHIFT_def drop_bit_eq_div)

lemma sae_pos_raw_eq: "sae_pos_raw p = p * 1024"
  by (simp add: sae_pos_raw_def POS_SHIFT_def push_bit_eq_mult)

lemma sae_percent_raw [simp]: "sae_pos_percent (sae_pos_raw p) = p"
  by (simp add: sae_pos_percent_eq sae_pos_raw_eq)

lemma sae_percent_mono: "a \<le> b \<Longrightarrow> sae_pos_percent a \<le> sae_pos_percent b"
  by (simp add: sae_pos_percent_eq zdiv_mono1)

lemma sae_pos_increment_nonneg: "0 \<le> sim_delay c \<Longrightarrow> 0 \<le> sae_pos_increment c"
  by (auto simp: sae_pos_increment_def sae_estimate_move_time_def Let_def POS_SHIFT_def
      signed_divide_int_def sgn_if intro!: mult_nonneg_nonneg pos_imp_zdiv_nonneg_iff [THEN iffD2])

lemma upd_motor1_frame [simp]:
  "sim_motor1 (upd_motor1 f c) = f (sim_motor1 c)" "sim_fd (upd_motor1 f c) = sim_fd c"
  "sim_active (upd_motor1 f c) = sim_active c" "sim_delay (upd_motor1 f c) = sim_delay c"
  "sim_motor1_inc (upd_motor1 f c) = sim_motor1_inc c"
  "sim_threshold_enabled (upd_motor1 f c) = sim_threshold_enabled c"
  "sim_threshold_hi_stop (upd_motor1 f c) = sim_threshold_hi_stop c"
  "sim_threshold_lo_stop (upd_motor1 f c) = sim_threshold_lo_stop c"
  by (simp_all add: upd_motor1_def)

lemma sae_leave_invalid_ok:
  assumes "sae_ok c"
  shows "sae_ok (sae_leave_invalid c)" and "sae_pos (sim_motor1 (sae_leave_invalid c)) \<noteq> SAE_POS_INVALID"
  using assms by (simp_all add: sae_leave_invalid_def sae_ok_def sae_const_defs sae_pos_raw_eq)
     (auto simp: sae_pos_percent_eq)

lemma sae_reset_thresholds_frame [simp]:
  "sim_motor1 (sae_reset_thresholds c) = sim_motor1 c" "sim_delay (sae_reset_thresholds c) = sim_delay c"
  "sim_motor1_inc (sae_reset_thresholds c) = sim_motor1_inc c" "sim_fd (sae_reset_thresholds c) = sim_fd c"
  "sim_active (sae_reset_thresholds c) = sim_active c"
  by (simp_all add: sae_reset_thresholds_def)

lemma sae_in_range:
  assumes "sae_ok c" and "sae_pos (sim_motor1 c) \<noteq> SAE_POS_INVALID"
  shows "0 \<le> sae_pos_percent (sae_pos (sim_motor1 c))" "sae_pos_percent (sae_pos (sim_motor1 c)) \<le> 100"
    "0 \<le> sae_pos (sim_motor1 c)"
  using assms by (auto simp: sae_ok_def sae_pos_percent_eq)

lemma sae_move_motor1_pos:
  defines "next_pos c \<equiv> sae_pos (sim_motor1 c) + sim_motor1_inc c"
  shows "sae_pos (sim_motor1 (sae_move_motor1 c)) =
    (if sae_status (sim_motor1 c) = MotorDirection_INC \<and> sae_pos_percent (next_pos c) \<le> 100 \<or>
        sae_status (sim_motor1 c) = MotorDirection_DEC \<and> 0 \<le> sae_pos_percent (next_pos c)
     then next_pos c else sae_pos (sim_motor1 c))"
  by (simp add: sae_move_motor1_def sae_move_inc_def sae_move_dec_def Let_def next_pos_def sae_const_defs)

lemma sae_move_motor1_range:
  assumes "sae_ok c" and "sae_pos (sim_motor1 c) \<noteq> SAE_POS_INVALID"
  shows "0 \<le> sae_pos_percent (sae_pos (sim_motor1 (sae_move_motor1 c)))"
    and "sae_pos_percent (sae_pos (sim_motor1 (sae_move_motor1 c))) \<le> 100"
proof -
  note r = sae_in_range [OF assms]
  have up: "0 \<le> sae_pos_percent (sae_pos (sim_motor1 c) + i)" if "0 \<le> i" for i
    using r(3) that by (simp add: sae_pos_percent_eq)
  have down: "sae_pos_percent (sae_pos (sim_motor1 c) + i) \<le> 100" if "i \<le> 0" for i
    using r(2) sae_percent_mono [of "sae_pos (sim_motor1 c) + i" "sae_pos (sim_motor1 c)"] that by linarith
  show "0 \<le> sae_pos_percent (sae_pos (sim_motor1 (sae_move_motor1 c)))"
    and "sae_pos_percent (sae_pos (sim_motor1 (sae_move_motor1 c))) \<le> 100"
    using assms(1) r up down by (auto simp: sae_move_motor1_pos sae_ok_def)
qed

lemma sae_move_motor1_frame [simp]:
  "sim_delay (sae_move_motor1 c) = sim_delay c" "sim_motor1_inc (sae_move_motor1 c) = sim_motor1_inc c"
  "sim_fd (sae_move_motor1 c) = sim_fd c" "sim_active (sae_move_motor1 c) = sim_active c"
  by (simp_all add: sae_move_motor1_def sae_move_inc_def sae_move_dec_def Let_def)

lemma sae_move_motor1_status:
  "sae_status (sim_motor1 (sae_move_motor1 c)) = sae_status (sim_motor1 c) \<or>
   sae_status (sim_motor1 (sae_move_motor1 c)) = MotorDirection_OFF"
  by (simp add: sae_move_motor1_def sae_move_inc_def sae_move_dec_def Let_def)

lemma sae_move_motor1_ok:
  assumes "sae_ok c" and "sae_pos (sim_motor1 c) \<noteq> SAE_POS_INVALID"
  shows "sae_ok (sae_move_motor1 c)"
  using sae_move_motor1_range [OF assms] sae_move_motor1_status [of c] assms(1)
  by (auto simp: sae_ok_def sae_const_defs)


lemma sae_read_cb_active:
  assumes "sae_ok c" and "sim_fd c \<noteq> -1" and "sim_active c"
    and rd: "sae_read_cb am c = (res, slept, c')"
  shows "sae_ok c'" and "0 \<le> slept" and "sim_fd c' = sim_fd c" and "sim_active c'"
    and "res = (sizeof_can_frame, 0, sae_stat_frame am c')"
    and "0 \<le> sae_pos_percent (sae_pos (sim_motor1 c'))"
    and "sae_pos_percent (sae_pos (sim_motor1 c')) \<le> 100"
proof -
  let ?b = "sae_reset_thresholds (sae_leave_invalid c)"
  let ?d = "sae_move_motor1 ?b"
  have b: "sae_ok ?b" "sae_pos (sim_motor1 ?b) \<noteq> SAE_POS_INVALID"
    using sae_leave_invalid_ok [OF assms(1)] by (simp_all add: sae_ok_def)
  have fd: "sim_fd (sae_leave_invalid c) = sim_fd c" "sim_active (sae_leave_invalid c) = sim_active c"
    by (simp_all add: sae_leave_invalid_def)
  have c': "c' = ?d\<lparr>sim_motor1_oldpos := sae_pos_percent (sae_pos (sim_motor1 ?d))\<rparr>"
    "res = (sizeof_can_frame, 0, sae_stat_frame am ?d)"
    "slept = (if sae_pos (sim_motor1 c) = SAE_POS_INVALID then 2 * sim_delay c else sim_delay c)"
    using rd assms(2,3) by (simp_all add: sae_read_cb_def Let_def)
  show "sae_ok c'" using sae_move_motor1_ok [OF b] by (simp add: c' sae_ok_def)
  show "0 \<le> slept" using assms(1) by (simp add: c' sae_ok_def)
  show "sim_fd c' = sim_fd c" and "sim_active c'" using assms(3) fd by (simp_all add: c')
  show "res = (sizeof_can_frame, 0, sae_stat_frame am c')" by (simp add: c' sae_stat_frame_def)
  show "0 \<le> sae_pos_percent (sae_pos (sim_motor1 c'))"
    and "sae_pos_percent (sae_pos (sim_motor1 c')) \<le> 100"
    using sae_move_motor1_range [OF b] by (simp_all add: c')
qed

lemma sae_stat_frame_stat:
  assumes "0 \<le> sae_pos_percent (sae_pos (sim_motor1 c))" and "sae_pos_percent (sae_pos (sim_motor1 c)) \<le> 100"
  shows "stat_frame (sae_stat_frame am c)"
  using assms
  by (simp add: stat_frame_def sae_stat_frame_def Let_def CAN_SECU1_STAT_FRAME_ID_def motor_pos_valid_def)

lemma sae_command_ok:
  assumes "sae_ok c"
  shows "sae_ok (sae_command now d r c)" and "sim_fd (sae_command now d r c) = sim_fd c"
    and "sim_active (sae_command now d r c) = sim_active c"
  using assms sae_pos_increment_nonneg [of c]
  by (auto simp: sae_command_def Let_def sae_ok_def sae_const_defs)

lemma sae_write_cb_ok:
  assumes "sae_ok c" and "sae_write_cb now cf c = (res, c')"
  shows "sae_ok c'" and "sim_fd c' = sim_fd c" and "sim_active c' = sim_active c"
proof -
  have ok: "sae_ok (sae_set_rpms cf c)" "sim_fd (sae_set_rpms cf c) = sim_fd c"
    "sim_active (sae_set_rpms cf c) = sim_active c"
    using assms(1) by (simp_all add: sae_set_rpms_def sae_ok_def)
  show "sae_ok c'" and "sim_fd c' = sim_fd c" and "sim_active c' = sim_active c"
    using assms sae_command_ok [OF ok(1)] ok by (auto simp: sae_write_cb_def split: if_splits)
qed

section \<open>The simulator as the ECU of the controller\<close>

definition sim_alive :: "int \<Rightarrow> sim_world \<Rightarrow> bool" where
  "sim_alive fd w \<longleftrightarrow>
     fd \<noteq> SOCKET_INVALID \<and> sim_is_mocked_fd w fd \<and> sim_fd (sae w) = fd \<and> sim_active (sae w) \<and> sae_ok (sae w)"

lemma sim_world_ts: "world_ts (sim_os hook) w = now_us w div 1000"
  by (simp add: world_ts_def sim_os_def us_as_ms)

lemma sim_get_ts: "get_ts (sim_os hook) s = now_us (world s) div 1000"
  by (simp add: get_ts_world sim_world_ts)

text \<open>The hooks over a C library that is itself undisturbed.\<close>

locale hooked_os = ctl_os K hook for K and hook :: "sim_world os"
begin

sublocale sim: ctl_os K "sim_os hook"
proof unfold_locales
  fix n :: int and s s' :: "sim_world sys" and fd cnt err :: int and r f
  show "\<exists>w. os_usleep (sim_os hook) n s = s\<lparr>world := w\<rparr>"
    by (auto simp: sim_os_def)
  show "os_read (sim_os hook) fd s = (r, s') \<Longrightarrow> \<exists>w. s' = s\<lparr>world := w\<rparr>"
    using read_quiet [of fd s r s']
    by (auto simp: sim_os_def hook_read_def Let_def split: if_splits prod.splits intro: sys_world_self)
  show "os_read (sim_os hook) fd s = ((cnt, err, f), s') \<Longrightarrow> length (fdata f) = 8"
    using read_buffer [of fd s cnt err f s']
    by (auto simp: sim_os_def hook_read_def sae_read_cb_def can_frame_zero_def sae_stat_frame_def Let_def
        split: if_splits prod.splits)
qed

sublocale sim: live_os K "sim_os hook" sim_alive
proof unfold_locales
  fix n :: int and s s' :: "sim_world sys" and fd cnt err :: int and f res and w w' :: sim_world
  show "0 \<le> cnt \<and> stat_frame f \<and> sim_alive fd (world s') \<and> get_ts (sim_os hook) s \<le> get_ts (sim_os hook) s'"
    if al: "sim_alive fd (world s)" and rd: "os_read (sim_os hook) fd s = ((cnt, err, f), s')"
  proof -
    obtain slept c where c: "sae_read_cb (sae_all_motors (world s)) (sae (world s)) = ((cnt, err, f), slept, c)"
      and s': "s' = s\<lparr>world := (world s)\<lparr>sae := c, now_us := now_us (world s) + slept * 1000\<rparr>\<rparr>"
      using al rd by (auto simp: sim_alive_def sim_os_def hook_read_def Let_def split: prod.splits)
    have a: "sae_ok (sae (world s))" "sim_fd (sae (world s)) \<noteq> -1" "sim_active (sae (world s))"
      using al by (auto simp: sim_alive_def SOCKET_INVALID_def)
    note p = sae_read_cb_active [OF a c]
    show ?thesis
      using p al sae_stat_frame_stat [OF p(6,7)]
      by (auto simp: s' sim_get_ts sim_alive_def sim_is_mocked_fd_def sizeof_can_frame_def)
  qed
  show "sim_alive fd w' \<and> world_ts (sim_os hook) w \<le> world_ts (sim_os hook) w'"
    if al: "sim_alive fd w" and wr: "os_write (sim_os hook) fd f w = (res, w')"
  proof -
    obtain c where c: "sae_write_cb (now_us w div 1000) f (sae w) = (res, c)" and w': "w' = w\<lparr>sae := c\<rparr>"
      using al wr by (auto simp: sim_alive_def sim_os_def hook_write_def split: prod.splits)
    have "sae_ok (sae w)" using al by (simp add: sim_alive_def)
    from sae_write_cb_ok [OF this c] al show ?thesis
      by (simp add: w' sim_alive_def sim_is_mocked_fd_def sim_world_ts)
  qed
  show "sim_alive fd (world (os_usleep (sim_os hook) n s)) \<and>
      get_ts (sim_os hook) s + n div 1000 \<le> get_ts (sim_os hook) (os_usleep (sim_os hook) n s)"
    if "sim_alive fd (world s)" and "0 \<le> n"
  proof -
    show ?thesis
      using that div_add_ge [of 1000 "now_us (world s)" n]
      by (simp add: sim_get_ts sim_alive_def sim_is_mocked_fd_def) (simp add: sim_os_def)
  qed
qed

end

text \<open>A process without any other socket: the hooked calls fail with \<open>EBADF\<close>, threads start.\<close>

definition EBADF :: int where "EBADF = 9"

definition plain_libc :: "sim_world os" where
  "plain_libc =
     \<lparr> os_clock = (\<lambda>w. (now_us w div 1000000, (now_us w mod 1000000) * 1000)),
       os_socket = (\<lambda>w. (-1, w)),
       os_ioctl_ifindex = (\<lambda>_ _ w. (None, w)),
       os_bind = (\<lambda>_ _ w. (-1, w)),
       os_setsockopt = (\<lambda>_ w. (-1, w)),
       os_write = (\<lambda>_ _ w. ((-1, EBADF), w)),
       os_close = (\<lambda>_ w. (-1, w)),
       os_pthread_create = (\<lambda>w. ((0, 1), w)),
       os_read = (\<lambda>_ s. ((-1, EBADF, can_frame_zero), s)),
       os_usleep = (\<lambda>n s. s\<lparr>world := (world s)\<lparr>now_us := now_us (world s) + n\<rparr>\<rparr>),
       os_pthread_join = (\<lambda>_ s. (0, s)) \<rparr>"

interpretation cansim: hooked_os dbc_codec plain_libc
  by unfold_locales (auto simp: plain_libc_def can_frame_zero_def intro: sys_world_self)

end
