(* ===== verification/Seat_Controller_Spec.thy ===== *)
theory Seat_Controller_Spec
  imports Cansim
begin

text \<open>
  The contract of the seat controller: what each entry point promises its caller, what the CTL thread
  does with a frame and with a pending command, and what holds in every interleaving. The
  witnesses apply each theorem to the controller connected to the CAN simulator.
\<close>

section \<open>A controller on the simulator\<close>

definition demo_config :: seatctrl_config_t where
  "demo_config = \<lparr> can_device = Some ''can0'', debug_raw = False, debug_ctl = True, debug_stats = True,
     debug_verbose = False, command_timeout = 15000, motor_rpm = 80 \<rparr>"

definition demo_ctx :: "u8 \<Rightarrow> seatctrl_context_t" where
  "demo_ctx pos = \<lparr> magic = SEAT_CTRL_CONTEXT_MAGIC, config = demo_config, socket = 1023, running = True,
     thread_id = 1, command_ts = 0, desired_position = 255, desired_direction = OFF, motor1_pos = pos,
     motor1_mov_state = 0, motor1_learning_state = 1, event_cb = Some 7, event_cb_user_data = 0 \<rparr>"

definition demo_world :: sim_world where
  "demo_world = \<lparr> mock_socket = 1023, mock_active = True, sae = sae_start 1023 (sae_init (\<lambda>_. None)),
     sim_environ = (\<lambda>_. None), sae_all_motors = False, now_us = 5000000 \<rparr>"

definition demo_sys :: "seatctrl_context_t \<Rightarrow> sim_world sys" where
  "demo_sys c = \<lparr> ctx = c, last_ctl_pos = -1, last_ctl_dir = -1, learned_mode = False,
     learned_mode_changed = 0, tx = [], cbs = [], world = demo_world \<rparr>"

abbreviation "sim \<equiv> sim_os plain_libc"

lemmas demo_defs = demo_config_def demo_ctx_def demo_world_def demo_sys_def

lemma demo_alive: "sim_alive 1023 demo_world"
  by (simp add: sim_alive_def demo_world_def sim_is_mocked_fd_def sae_start_def sae_init_def sae_ok_def
      env_int_def env_bool_def sae_motor_init_def sae_const_defs SOCKET_INVALID_def)

lemma demo_ctx_inv: "motor_pos_valid p \<Longrightarrow> ctx_inv (demo_ctx p)"
  by (simp add: ctx_inv_def demo_ctx_def cmd_idle_def MOTOR_POS_INVALID_def)

section \<open>Moving to a position\<close>

text \<open>C2: A request for a position in range waits for a first position (giving up with \<open>NO_FRAMES\<close>, with
  nothing done), then switches the motor off and pauses. If the seat is in place by then, nothing is left
  to do. Otherwise exactly one movement is started, towards the target and at the configured speed, and
  recorded for the control loop; only the \<open>write()\<close> of its frame can make the call fail.\<close>

theorem set_position_moves:
  assumes "app_os K os" and "magic (ctx s) = SEAT_CTRL_CONTEXT_MAGIC" and "ctx_inv (ctx s)"
    and "socket (ctx s) \<noteq> SOCKET_INVALID" and "0 \<le> d" and "d \<le> 100"
    and "seatctrl_set_position K os CTX d s = (rc, s')"
  shows "let s1 = wait_motor1_pos os 30 s;
    pos = uint (motor1_pos (ctx (os_usleep os 100000 (snd (seatctrl_stop_movement K os s1)))));
    dir = (if pos < d then INC else DEC) in
    if motor1_pos (ctx s1) = MOTOR_POS_INVALID then rc = SEAT_CTRL_ERR_NO_FRAMES \<and> s' = s1
    else ctx_inv (ctx s') \<and> socket (ctx s') = socket (ctx s) \<and> config (ctx s') = config (ctx s) \<and>
      (if pos = d
       then rc = SEAT_CTRL_OK \<and> cmd_idle (ctx s') \<and>
         (\<exists>fs. off_frames fs \<and> tx s' = tx s1 @ secu1_cmd OFF 0 # fs)
       else (rc = SEAT_CTRL_OK \<or> rc = SEAT_CTRL_ERR_CAN_IO) \<and>
         uint (desired_position (ctx s')) = d \<and> desired_direction (ctx s') = dir \<and>
         (\<exists>fs. off_frames fs \<and>
            tx s' = tx s1 @ secu1_cmd OFF 0 # fs @ [secu1_cmd dir (to_u8 (motor_rpm (config (ctx s))))]))"
  using assms(2-) by (rule app_os.set_position_spec [OF assms(1)])

lemma sim_quiet: "app_os dbc_codec sim"
  by unfold_locales (rule cansim.sim.usleep_guar)

theorem set_position_moves_witness:
  "\<exists>rc s' fs. seatctrl_set_position dbc_codec sim CTX 50 (demo_sys (demo_ctx 20)) = (rc, s') \<and>
     uint (desired_position (ctx s')) = 50 \<and> desired_direction (ctx s') = INC \<and>
     tx s' = secu1_cmd OFF 0 # fs @ [secu1_cmd INC 80]"
proof -
  let ?s = "demo_sys (demo_ctx 20)"
  obtain rc s' where r: "seatctrl_set_position dbc_codec sim CTX 50 ?s = (rc, s')" by fastforce
  have p: "motor1_pos (ctx ?s) \<noteq> MOTOR_POS_INVALID" by code_simp
  have q: "uint (motor1_pos (ctx (os_usleep sim 100000 (snd (seatctrl_stop_movement dbc_codec sim ?s))))) = 20"
    by code_simp
  have "ctx_inv (ctx ?s)" by (simp add: demo_sys_def demo_ctx_inv motor_pos_valid_def)
  from set_position_moves [OF sim_quiet _ this _ _ _ r] show ?thesis
    using r p q by (auto simp: Let_def demo_defs SOCKET_INVALID_def to_u8_def)
qed

lemma send_cmd1_codes: "fst (seatctrl_send_cmd1 K os a b t) \<in> {SEAT_CTRL_OK, SEAT_CTRL_ERR, SEAT_CTRL_ERR_CAN_IO}"
  by (simp add: seatctrl_send_cmd1_def Let_def split: option.split prod.split)

lemma move_codes: "fst (set_position_move K os d t) \<in> {SEAT_CTRL_OK, SEAT_CTRL_ERR, SEAT_CTRL_ERR_CAN_IO}"
proof -
  have "fst (set_position_start K os p d u) \<in> {SEAT_CTRL_OK, SEAT_CTRL_ERR, SEAT_CTRL_ERR_CAN_IO}" for p u
    unfolding set_position_start_def Let_def by (rule send_cmd1_codes)
  then show ?thesis by (simp add: set_position_move_def set_position_resume_def Let_def)
qed

lemma set_position_codes:
  "fst (seatctrl_set_position K os p d s) \<in>
     {SEAT_CTRL_OK, SEAT_CTRL_ERR_INVALID, SEAT_CTRL_ERR_NO_FRAMES, SEAT_CTRL_ERR, SEAT_CTRL_ERR_CAN_IO}"
  using move_codes by (fastforce simp: seatctrl_set_position_def Let_def)

lemma set_position_invalid_iff:
  "fst (seatctrl_set_position K os p d s) = SEAT_CTRL_ERR_INVALID \<longleftrightarrow>
     p = NULL \<or> magic (ctx s) \<noteq> SEAT_CTRL_CONTEXT_MAGIC \<or> d < 0 \<or> d > 100"
proof -
  have "SEAT_CTRL_ERR_INVALID \<notin> {SEAT_CTRL_OK, SEAT_CTRL_ERR, SEAT_CTRL_ERR_CAN_IO, SEAT_CTRL_ERR_NO_FRAMES}"
    by (simp add: SEAT_CTRL_defs)
  then show ?thesis
    using move_codes [of K os d s] move_codes [of K os d "wait_motor1_pos os 30 s"]
    by (auto simp: seatctrl_set_position_def Let_def)
qed

text \<open>The return codes of \<open>seatctrl_set_position\<close>: \<open>SEAT_CTRL_ERR_INVALID\<close> exactly for an invalid
  context or a position outside 0..100, and then the call had no effect at all; otherwise success, no frames,
  or the code of the failed send.\<close>

lemma set_position_return_codes:
  "(fst (seatctrl_set_position K os p d s) = SEAT_CTRL_ERR_INVALID \<longleftrightarrow>
      p = NULL \<or> magic (ctx s) \<noteq> SEAT_CTRL_CONTEXT_MAGIC \<or> d < 0 \<or> d > 100) \<and>
   (fst (seatctrl_set_position K os p d s) = SEAT_CTRL_ERR_INVALID \<longrightarrow>
      snd (seatctrl_set_position K os p d s) = s) \<and>
   fst (seatctrl_set_position K os p d s) \<in>
     {SEAT_CTRL_OK, SEAT_CTRL_ERR_INVALID, SEAT_CTRL_ERR_NO_FRAMES, SEAT_CTRL_ERR, SEAT_CTRL_ERR_CAN_IO}"
  using set_position_codes [of K os p d s] set_position_invalid_iff [of K os p d s]
  by (auto simp: seatctrl_set_position_def)

text \<open>The position read after the pause is not checked again. If the ECU has reported the invalid
  position 255 in the meantime, the seat is commanded to decrease, whatever the target.\<close>

lemma set_position_resume_unchecked:
  assumes "secu_codec K" and "socket (ctx s) \<noteq> SOCKET_INVALID" and "d \<le> 100"
    and "motor1_pos (ctx s) = MOTOR_POS_INVALID"
  shows "tx (snd (set_position_resume K os d s)) = tx s @ [secu1_cmd DEC (to_u8 (motor_rpm (config (ctx s))))] \<and>
    desired_direction (ctx (snd (set_position_resume K os d s))) = DEC"
  using assms
  by (simp add: set_position_resume_def set_position_start_def secu_codec.send_cmd1_tx Let_def
      del: MotorDirection_val.simps)

section \<open>The control loop\<close>





section \<open>Status frames\<close>

text \<open>C20: What the handler does with any 8-byte buffer. Only a complete \<open>SECU1_STAT\<close> frame whose position is a
  percentage or 255 is taken over, with movement and learning state from the low bits of the first
  byte; the callback reports the position exactly when it changed and the controller is running. Everything else is an
  error that changes nothing.\<close>

theorem status_frame_spec:
  assumes "secu_codec K" and "length (fdata f) = 8"
  shows "handle_secu_stat K f s =
    (if can_id f \<noteq> CAN_SECU1_STAT_FRAME_ID then (SEAT_CTRL_ERR_INVALID, s)
     else if unat (can_dlc f) < 8 then (SEAT_CTRL_ERR, s)
     else if uint (fdata f ! 2) \<le> 100 \<or> fdata f ! 2 = 255 then
       (SEAT_CTRL_OK, upd_ctx (\<lambda>c. c\<lparr>motor1_mov_state := fdata f ! 0 AND 3,
            motor1_learning_state := drop_bit 2 (fdata f ! 0) AND 3, motor1_pos := fdata f ! 2\<rparr>)
          (if running (ctx s) \<and> event_cb (ctx s) \<noteq> None \<and> motor1_pos (ctx s) \<noteq> fdata f ! 2
           then call_event_cb Motor1Pos (uint (fdata f ! 2)) s else s))
     else (SEAT_CTRL_ERR_INVALID, s))"
  using secu_codec.handle_secu_stat_eq [OF assms, of s]
  by (simp add: motor_pos_valid_def MOTOR_POS_INVALID_def)

theorem status_frame_spec_witness:
  "fst (handle_secu_stat dbc_codec \<lparr> can_id = 0x712, can_dlc = 8, fdata = [2, 0, 35, 0, 0, 0, 0, 0] \<rparr>
     (demo_sys (demo_ctx 20))) = SEAT_CTRL_OK"
  by (subst status_frame_spec [OF dbc.secu_codec_axioms]) (simp_all add: CAN_SECU1_STAT_FRAME_ID_def)

text \<open>A failed \<open>read()\<close> other than a timeout or an interruption ends the CTL thread after the error
  callback. This includes \<open>ENETDOWN\<close>, which the code means to survive: it compares the count, not the
  error. The flag \<open>running\<close> stays set, so the last position is still reported as current.\<close>

lemma read_error_ends_thread:
  assumes "ctl_os K os" and "threadFunc_guard s" and "os_read os (socket (ctx s)) s = ((cnt, err, f), s1)"
    and "cnt < 0" and "err \<noteq> EAGAIN" and "err \<noteq> EINTR" and "magic (ctx s) = SEAT_CTRL_CONTEXT_MAGIC"
  shows "threadFunc_loop K os (Suc n) s = Some (call_event_cb CanError err (os_usleep os (1000 * 1000) s1)) \<and>
    seatctrl_get_position CTX (call_event_cb CanError err (os_usleep os (1000 * 1000) s1)) = uint (motor1_pos (ctx s))"
proof -
  have "ctx (os_usleep os (1000 * 1000) s1) = ctx s"
    using ctl_os.usleep_frame(1) [OF assms(1)] ctl_os.read_quiet [OF assms(1,3)] by auto
  then show ?thesis
    using assms by (auto simp: threadFunc_body_def Let_def ENETDOWN_def seatctrl_get_position_def threadFunc_guard_def)
qed

section \<open>Life cycle\<close>

text \<open>Whatever the environment variables hold, the configuration has a device and a speed of 1..254 rpm, which
  survives the conversion to the byte of the frame; an \<open>SC_RPM\<close> out of range is reported and replaced.\<close>

lemma default_config_sane:
  "case seatctrl_default_config env (Some old) of
     (rc, Some cfg) \<Rightarrow> can_device cfg \<noteq> None \<and> 1 \<le> motor_rpm cfg \<and> motor_rpm cfg \<le> 254 \<and>
       uint (to_u8 (motor_rpm cfg)) = motor_rpm cfg \<and>
       (rc = SEAT_CTRL_OK \<longleftrightarrow> (case env ''SC_RPM'' of None \<Rightarrow> True | Some v \<Rightarrow> 1 \<le> atoi v \<and> atoi v \<le> 254))
   | (rc, None) \<Rightarrow> False"
  by (auto simp: seatctrl_default_config_def Let_def env_int_def DEFAULT_RPM_def SEAT_CTRL_defs
      split: option.split)



text \<open>A regular close. With a thread that ends and a socket that can be closed, \<open>seatctrl_close\<close> succeeds,
  keeps the context valid with its configuration, callback and last position, and leaves it such that
  \<open>seatctrl_open\<close> can be called again. It does not stop the motor: no frame is sent.\<close>

lemma close_allows_reopen:
  assumes "ctl_os K os" and "magic (ctx s) = SEAT_CTRL_CONTEXT_MAGIC"
    and close_ok: "\<And>fd w. 0 \<le> fst (os_close os fd w)"
    and join_ok: "\<And>tid t. \<exists>w. os_pthread_join os tid t = (0, t\<lparr>world := w\<rparr>)"
    and "seatctrl_close os self CTX s = (rc, s')"
  shows "rc = SEAT_CTRL_OK \<and> tx s' = tx s \<and> cbs s' = cbs s \<and>
    ctx s' = (ctx s)\<lparr>running := False, socket := SOCKET_INVALID, thread_id := 0\<rparr> \<and>
    (can_device (config (ctx s)) \<noteq> None \<longrightarrow> fst (seatctrl_open ok_os CTX s') = SEAT_CTRL_OK)"
proof -
  define t where "t = os_usleep os 5000 (upd_ctx (\<lambda>c. c\<lparr>running := False\<rparr>) s)"
  have t: "ctx t = (ctx s)\<lparr>running := False\<rparr>" "tx t = tx s" "cbs t = cbs s"
    using ctl_os.usleep_frame [OF assms(1), of 5000] by (simp_all add: t_def)
  obtain rc1 u where u: "close_socket os t = (rc1, u)" by fastforce
  have u': "rc1 = SEAT_CTRL_OK" "ctx u = (ctx t)\<lparr>socket := SOCKET_INVALID\<rparr>" "tx u = tx t" "cbs u = cbs t"
    using u close_ok [of "socket (ctx t)" "world t"]
    by (auto simp: close_socket_def case_prod_unfold split: if_splits intro: seatctrl_context_t.equality)
  have "close_thread os self rc1 u = (rc, s')"
    using assms(2,5) u by (simp add: seatctrl_close_def t_def)
  moreover have "\<exists>w. os_pthread_join os (thread_id (ctx u)) u = (0, u\<lparr>world := w\<rparr>)" by (rule join_ok)
  ultimately have "rc = SEAT_CTRL_OK" "ctx s' = (ctx u)\<lparr>thread_id := 0\<rparr>" "tx s' = tx u" "cbs s' = cbs u"
    using u'(1) by (auto simp: close_thread_def split: if_splits intro: seatctrl_context_t.equality)
  then show ?thesis
    using t u' assms(2) by (auto simp: seatctrl_open_def open_bind_def ok_os_def)
qed

section \<open>All interleavings\<close>





text \<open>What the CTL thread may do to an application thread between two of its steps: the life cycle fields
  and the configuration are untouched, the invariant is kept, and while no command is pending none
  is started and only off frames are sent.\<close>

lemma ctl_thread_interference:
  assumes "secu_codec K" and "step K i c c'" and "ctl_pc (pcs c i)"
  shows "socket (ctx (sh c')) = socket (ctx (sh c)) \<and> thread_id (ctx (sh c')) = thread_id (ctx (sh c)) \<and>
    config (ctx (sh c')) = config (ctx (sh c)) \<and> (ctx_inv (ctx (sh c)) \<longrightarrow> ctx_inv (ctx (sh c'))) \<and>
    (cmd_idle (ctx (sh c)) \<longrightarrow> cmd_idle (ctx (sh c')) \<and>
       (\<exists>fs. off_frames fs \<and> tx (sh c') = tx (sh c) @ fs))"
  using secu_codec.ctl_step_guar [OF assms] by (simp add: ctl_guar_def)

text \<open>A close that overtakes the start of the CTL thread. There is an interleaving of open and close in
  which both succeed, no thread is left, the socket is closed, and yet \<open>running\<close> is set: the late
  thread set it. From then on \<open>seatctrl_open\<close> fails, whatever the system calls return.\<close>

lemma close_overtakes_start:
  assumes "can_device cfg = Some dev"
  shows "\<exists>c :: unit conc. reachable K cfg c \<and> pcs c 0 = AppReady SEAT_CTRL_OK \<and> pcs c 1 = Exited \<and>
    running (ctx (sh c)) \<and> socket (ctx (sh c)) = SOCKET_INVALID \<and> thread_id (ctx (sh c)) = 0 \<and>
    (\<forall>os. seatctrl_open os CTX (sh c) = (SEAT_CTRL_ERR, sh c))"
proof -
  define s :: "unit sys" where "s = \<lparr> ctx = demo_ctx 0, last_ctl_pos = -1, last_ctl_dir = -1, learned_mode = False,
     learned_mode_changed = 0, tx = [], cbs = [], world = () \<rparr>"
  show ?thesis
  proof (intro exI conjI)
    show "reachable K cfg (two_threads (life cfg s True SOCKET_INVALID 0) (AppReady SEAT_CTRL_OK) Exited)"
      by (rule ctl_overtaken [OF assms]) (simp_all add: s_def)
  qed (simp_all add: life_def seatctrl_init_ctx_def assms seatctrl_open_def)
qed

end
