(* ===== verification/Seat_Adjuster.thy ===== *)
theory Seat_Adjuster
  imports Seat_Controller_Spec
begin

text \<open>
  \<open>seat_adjuster.h\<close> and \<open>seat_adjuster.cc\<close>: the interface \<open>SeatAdjuster\<close> as a locale, its implementation
  \<open>SeatAdjusterImpl\<close> over the seat controller, and the callback that hands positions on. A call of
  \<open>abort_service\<close> ends the process: \<open>Exit rc\<close>.
\<close>

section \<open>Data types\<close>

definition SEAT_POSITION_INVALID :: int where "SEAT_POSITION_INVALID = -1"

datatype SetResult = ResOK | UNSPECIFIC_ERROR | NO_CAN | CAN_IF_INDEX_ERROR | CAN_BIND_ERROR
  | CAN_IO_ERROR | INVALID_ARG | NO_FRAMES

datatype 'a process = Done 'a | Exit int

text \<open>\<open>adj_self\<close> is the address of the object; \<open>adj_cb\<close> stands for the stored \<open>std::function\<close>.\<close>

record 'w SeatAdjusterImpl =
  adj_ctx :: "'w sys"
  adj_can_if_name :: string
  adj_cb :: "nat option"
  adj_self :: nat

definition exit_on_error :: "environ \<Rightarrow> bool" where
  "exit_on_error env \<longleftrightarrow> env ''SA_EXIT'' \<noteq> None \<and> atoi (the (env ''SA_EXIT'')) \<noteq> 0"

text \<open>The address of the static member function that serves as event callback.\<close>

definition SEATCTRL_EVENT_CB :: nat where "SEATCTRL_EVENT_CB = 1"

section \<open>SeatAdjusterImpl\<close>

definition abort_service :: "int \<Rightarrow> 'a process" where
  "abort_service rc = Exit rc"

text \<open>The constructor; \<open>s\<close> and \<open>cfg\<close> are the memory the context and the configuration are built in.\<close>

definition SeatAdjusterImpl_new ::
    "environ \<Rightarrow> 'w os \<Rightarrow> nat \<Rightarrow> string \<Rightarrow> seatctrl_config_t \<Rightarrow> 'w sys \<Rightarrow> 'w SeatAdjusterImpl process" where
  "SeatAdjusterImpl_new env os self can_if_name cfg s =
     (let mk = (\<lambda>t. \<lparr> adj_ctx = t, adj_can_if_name = can_if_name, adj_cb = None, adj_self = self \<rparr>);
          (_, config0) = seatctrl_default_config env (Some cfg);
          config1 = map_option (\<lambda>c. c\<lparr>can_device := Some can_if_name\<rparr>) config0;
          (rc, s1) = seatctrl_init_ctx CTX config1 s
      in if rc \<noteq> SEAT_CTRL_OK then (if exit_on_error env then abort_service rc else Done (mk s1))
         else
           let (rc, s2) = seatctrl_set_event_callback CTX (Some SEATCTRL_EVENT_CB) self s1
           in if rc \<noteq> SEAT_CTRL_OK then (if exit_on_error env then abort_service rc else Done (mk s2))
              else
                let (rc, s3) = seatctrl_open os CTX s2
                in if rc \<noteq> SEAT_CTRL_OK
                   then (if exit_on_error env then abort_service rc else Done (mk s3))
                   else Done (mk s3))"

definition SeatAdjusterImpl_delete :: "'w os \<Rightarrow> nat \<Rightarrow> 'w SeatAdjusterImpl \<Rightarrow> 'w sys" where
  "SeatAdjusterImpl_delete os thread a = snd (seatctrl_close os thread CTX (adj_ctx a))"

definition GetSeatPosition :: "'w SeatAdjusterImpl \<Rightarrow> int" where
  "GetSeatPosition a =
     (let pos = seatctrl_get_position CTX (adj_ctx a)
      in if pos = uint MOTOR_POS_INVALID \<or> pos < 0 then SEAT_POSITION_INVALID else pos)"

definition SetResult_of :: "int \<Rightarrow> SetResult" where
  "SetResult_of rc =
     (if rc = SEAT_CTRL_OK then ResOK
      else if rc = SEAT_CTRL_ERR then UNSPECIFIC_ERROR
      else if rc = SEAT_CTRL_ERR_NO_CAN then NO_CAN
      else if rc = SEAT_CTRL_ERR_IFR then CAN_IF_INDEX_ERROR
      else if rc = SEAT_CTRL_ERR_CAN_BIND then CAN_BIND_ERROR
      else if rc = SEAT_CTRL_ERR_CAN_IO then CAN_IO_ERROR
      else if rc = SEAT_CTRL_ERR_INVALID then INVALID_ARG
      else if rc = SEAT_CTRL_ERR_NO_FRAMES then NO_FRAMES
      else UNSPECIFIC_ERROR)"

definition SetSeatPosition ::
    "can_codec \<Rightarrow> 'w os \<Rightarrow> int \<Rightarrow> 'w SeatAdjusterImpl \<Rightarrow> SetResult \<times> 'w SeatAdjusterImpl" where
  "SetSeatPosition K os positionInPercent a =
     (case seatctrl_set_position K os CTX positionInPercent (adj_ctx a) of
        (rc, s) \<Rightarrow> (SetResult_of rc, a\<lparr>adj_ctx := s\<rparr>))"

definition SubscribePosition :: "nat option \<Rightarrow> 'w SeatAdjusterImpl \<Rightarrow> 'w SeatAdjusterImpl" where
  "SubscribePosition cb a = a\<lparr>adj_cb := cb\<rparr>"

text \<open>What the static callback does: call \<open>cb_\<close> with a position, nothing, or end the process.\<close>

datatype cb_effect = CallCb nat int | NoEffect

definition seatctrl_event_cb ::
    "environ \<Rightarrow> 'w SeatAdjusterImpl \<Rightarrow> SeatCtrlEvent \<Rightarrow> int \<Rightarrow> nat \<Rightarrow> cb_effect process" where
  "seatctrl_event_cb env a event value user_data =
     (case event of
        CanError \<Rightarrow> if exit_on_error env then abort_service value else Done NoEffect
      | Motor1Pos \<Rightarrow>
          if user_data \<noteq> 0 then
            (case adj_cb a of
               Some f \<Rightarrow> Done (CallCb f (if value = uint MOTOR_POS_INVALID then -1 else value))
             | None \<Rightarrow> Done NoEffect)
          else Done NoEffect)"

section \<open>The interface\<close>

text \<open>
  What a client of the abstract class \<open>SeatAdjuster\<close> may rely on: a position is a percentage or
  \<open>SEAT_POSITION_INVALID\<close>, and a target out of range is refused without any effect.
\<close>

locale adjuster_interface =
  fixes get_position :: "'s \<Rightarrow> int" and set_position :: "int \<Rightarrow> 's \<Rightarrow> SetResult \<times> 's"
    and ok :: "'s \<Rightarrow> bool"
  assumes get_range: "ok s \<Longrightarrow> get_position s = SEAT_POSITION_INVALID \<or> 0 \<le> get_position s \<and> get_position s \<le> 100"
    and set_ok: "ok s \<Longrightarrow> ok (snd (set_position d s))"
    and set_invalid: "ok s \<Longrightarrow> d < 0 \<or> 100 < d \<Longrightarrow> set_position d s = (INVALID_ARG, s)"

context app_os
begin

lemma start_inv:
  assumes "ctx_inv (ctx s)" and "0 \<le> d" and "d \<le> 100"
  shows "ctx_inv (ctx (snd (set_position_start K os p d s)))"
    and "magic (ctx (snd (set_position_start K os p d s))) = magic (ctx s)"
  using assms by (auto simp: set_position_start_def Let_def intro!: ctx_inv_start)

lemma move_inv:
  assumes "ctx_inv (ctx s)" and "0 \<le> d" and "d \<le> 100"
  shows "ctx_inv (ctx (snd (set_position_move K os d s)))"
    and "magic (ctx (snd (set_position_move K os d s))) = magic (ctx s)"
proof -
  let ?t = "os_usleep os (100 * 1000) (snd (seatctrl_stop_movement K os s))"
  have t: "ctx_inv (ctx ?t)" "magic (ctx ?t) = magic (ctx s)"
    using usleep_rely [of "snd (seatctrl_stop_movement K os s)" "100 * 1000"] assms(1)
    by (simp_all add: ctl_guar_def ctx_inv_invalidate)
  show "ctx_inv (ctx (snd (set_position_move K os d s)))"
    using start_inv(1) [OF t(1) assms(2,3)] t
    by (simp add: set_position_move_def set_position_resume_def Let_def ctx_inv_invalidate)
  show "magic (ctx (snd (set_position_move K os d s))) = magic (ctx s)"
    using start_inv(2) [OF t(1) assms(2,3)] t
    by (simp add: set_position_move_def set_position_resume_def Let_def)
qed

lemma set_position_inv:
  assumes "ctx_inv (ctx s)"
  shows "ctx_inv (ctx (snd (seatctrl_set_position K os p d s)))"
    and "magic (ctx (snd (seatctrl_set_position K os p d s))) = magic (ctx s)"
  using assms move_inv wait_frame [where n = 30 and s = s]
  by (auto simp: seatctrl_set_position_def Let_def)

end

definition adjuster_ok :: "'w SeatAdjusterImpl \<Rightarrow> bool" where
  "adjuster_ok a \<longleftrightarrow> magic (ctx (adj_ctx a)) = SEAT_CTRL_CONTEXT_MAGIC \<and> ctx_inv (ctx (adj_ctx a))"

lemma GetSeatPosition_range:
  assumes "ctx_inv (ctx (adj_ctx a))"
  shows "GetSeatPosition a = SEAT_POSITION_INVALID \<or> 0 \<le> GetSeatPosition a \<and> GetSeatPosition a \<le> 100"
  using assms
  by (auto simp: GetSeatPosition_def seatctrl_get_position_def ctx_inv_def motor_pos_valid_def Let_def
      SEAT_CTRL_defs)

context app_os
begin

lemma adjuster_laws: "adjuster_interface GetSeatPosition (SetSeatPosition K os) adjuster_ok"
proof unfold_locales
  fix a :: "'w SeatAdjusterImpl" and d :: int
  assume ok: "adjuster_ok a"
  then show "GetSeatPosition a = SEAT_POSITION_INVALID \<or> 0 \<le> GetSeatPosition a \<and> GetSeatPosition a \<le> 100"
    by (simp add: adjuster_ok_def GetSeatPosition_range)
  show "adjuster_ok (snd (SetSeatPosition K os d a))"
    using ok set_position_inv [of "adj_ctx a" CTX d]
    by (simp add: adjuster_ok_def SetSeatPosition_def case_prod_unfold)
  show "SetSeatPosition K os d a = (INVALID_ARG, a)" if "d < 0 \<or> 100 < d"
    using ok that
    by (simp add: SetSeatPosition_def seatctrl_set_position_def SetResult_of_def SEAT_CTRL_defs adjuster_ok_def)
qed

end

sublocale app_os \<subseteq> impl: adjuster_interface GetSeatPosition "SetSeatPosition K os" adjuster_ok
  by (rule adjuster_laws)

interpretation adj_sim: app_os dbc_codec "sim_os plain_libc"
  by (rule sim_quiet)

section \<open>What the adjuster promises\<close>

lemma open_frame:
  assumes "seatctrl_open os p s = (rc, t)"
  shows "ctx t = (ctx s)\<lparr>socket := socket (ctx t), thread_id := thread_id (ctx t)\<rparr>"
  using assms
  by (auto simp: seatctrl_open_def open_bind_def Let_def split: if_splits option.splits prod.splits
      intro: seatctrl_context_t.equality)

lemma default_config_rpm:
  "\<exists>rc c. seatctrl_default_config env (Some cfg) = (rc, Some c) \<and> 1 \<le> motor_rpm c \<and> motor_rpm c \<le> 254"
  by (auto simp: seatctrl_default_config_def Let_def DEFAULT_RPM_def split: if_split)

text \<open>What the constructor does, on every branch.\<close>

lemma adjuster_new_eq:
  obtains c1 s1 rc s3 fd tid where "1 \<le> motor_rpm c1" "motor_rpm c1 \<le> 254" "can_device c1 = Some can_if_name"
    "seatctrl_init_ctx CTX (Some c1) s = (SEAT_CTRL_OK, s1)"
    "ctx s3 = (ctx s1)\<lparr>event_cb := Some SEATCTRL_EVENT_CB, event_cb_user_data := self, socket := fd, thread_id := tid\<rparr>"
    "rc \<in> {SEAT_CTRL_OK, SEAT_CTRL_ERR, SEAT_CTRL_ERR_NO_CAN, SEAT_CTRL_ERR_CAN_BIND}"
    "SeatAdjusterImpl_new env os self can_if_name cfg s =
       (if rc \<noteq> SEAT_CTRL_OK \<and> exit_on_error env then Exit rc
        else Done \<lparr> adj_ctx = s3, adj_can_if_name = can_if_name, adj_cb = None, adj_self = self \<rparr>)"
proof -
  obtain r0 c0 where c0: "seatctrl_default_config env (Some cfg) = (r0, Some c0)"
    and rpm: "1 \<le> motor_rpm c0" "motor_rpm c0 \<le> 254"
    using default_config_rpm by blast
  define c1 where "c1 = c0\<lparr>can_device := Some can_if_name\<rparr>"
  obtain s1 where s1: "seatctrl_init_ctx CTX (Some c1) s = (SEAT_CTRL_OK, s1)"
    by (simp add: seatctrl_init_ctx_def c1_def)
  have fresh: "socket (ctx s1) = SOCKET_INVALID" "\<not> running (ctx s1)" "thread_id (ctx s1) = 0"
    using s1 by (auto simp: seatctrl_init_ctx_def c1_def)
  define s2 where "s2 = upd_ctx (\<lambda>c. c\<lparr>event_cb := Some SEATCTRL_EVENT_CB, event_cb_user_data := self\<rparr>) s1"
  have s2: "seatctrl_set_event_callback CTX (Some SEATCTRL_EVENT_CB) self s1 = (SEAT_CTRL_OK, s2)"
    by (simp add: seatctrl_set_event_callback_def init_ctx_ok(3) [OF s1] s2_def)
  obtain rc s3 where s3: "seatctrl_open os CTX s2 = (rc, s3)" by fastforce
  obtain fd tid where ctx3: "ctx s3 = (ctx s2)\<lparr>socket := fd, thread_id := tid\<rparr>"
    using open_frame [OF s3] by blast
  have "rc \<in> {SEAT_CTRL_OK, SEAT_CTRL_ERR, SEAT_CTRL_ERR_NO_CAN, SEAT_CTRL_ERR_CAN_BIND}"
    using s3 fresh init_ctx_ok [OF s1]
    by (auto simp: seatctrl_open_def open_bind_def s2_def c1_def Let_def split: if_splits option.splits prod.splits)
  moreover have "SeatAdjusterImpl_new env os self can_if_name cfg s =
      (if rc \<noteq> SEAT_CTRL_OK \<and> exit_on_error env then Exit rc
       else Done \<lparr> adj_ctx = s3, adj_can_if_name = can_if_name, adj_cb = None, adj_self = self \<rparr>)"
    by (simp add: SeatAdjusterImpl_new_def c0 c1_def [symmetric] s1 s2 s3 Let_def abort_service_def)
  ultimately show ?thesis using that [of c1 s1 s3 tid fd rc] rpm s1 ctx3 by (simp add: c1_def s2_def)
qed

lemma adjuster_new_unknown:
  assumes "SeatAdjusterImpl_new env os self can_if_name cfg s = Done a"
  shows "motor1_pos (ctx (adj_ctx a)) = MOTOR_POS_INVALID" "event_cb (ctx (adj_ctx a)) = Some SEATCTRL_EVENT_CB"
    "event_cb_user_data (ctx (adj_ctx a)) = self" "adj_cb a = None" "magic (ctx (adj_ctx a)) = SEAT_CTRL_CONTEXT_MAGIC"
  by (rule adjuster_new_eq [of can_if_name s self env os cfg];
      use assms in \<open>auto simp: seatctrl_init_ctx_def split: if_splits\<close>)+

text \<open>The constructor always yields a usable object or ends the process: the context is valid, idle and
  bound to the given interface with the adjuster's own callback; a failing \<open>seatctrl_open\<close> ends the process
  exactly if \<open>SA_EXIT\<close> asks for it, and is otherwise ignored.\<close>

lemma adjuster_construct:
  "case SeatAdjusterImpl_new env os self can_if_name cfg s of
     Done a \<Rightarrow> adjuster_ok a \<and> cmd_idle (ctx (adj_ctx a)) \<and> adj_cb a = None \<and>
       can_device (config (ctx (adj_ctx a))) = Some can_if_name \<and>
       1 \<le> motor_rpm (config (ctx (adj_ctx a))) \<and> motor_rpm (config (ctx (adj_ctx a))) \<le> 254 \<and>
       event_cb (ctx (adj_ctx a)) = Some SEATCTRL_EVENT_CB \<and> event_cb_user_data (ctx (adj_ctx a)) = self
   | Exit rc \<Rightarrow> exit_on_error env \<and>
       rc \<in> {SEAT_CTRL_ERR, SEAT_CTRL_ERR_NO_CAN, SEAT_CTRL_ERR_CAN_BIND}"
proof -
  obtain c1 s1 rc s3 fd tid where new: "1 \<le> motor_rpm c1" "motor_rpm c1 \<le> 254" "can_device c1 = Some can_if_name"
    "seatctrl_init_ctx CTX (Some c1) s = (SEAT_CTRL_OK, s1)"
    "ctx s3 = (ctx s1)\<lparr>event_cb := Some SEATCTRL_EVENT_CB, event_cb_user_data := self, socket := fd, thread_id := tid\<rparr>"
    "rc \<in> {SEAT_CTRL_OK, SEAT_CTRL_ERR, SEAT_CTRL_ERR_NO_CAN, SEAT_CTRL_ERR_CAN_BIND}"
    "SeatAdjusterImpl_new env os self can_if_name cfg s =
       (if rc \<noteq> SEAT_CTRL_OK \<and> exit_on_error env then Exit rc
        else Done \<lparr> adj_ctx = s3, adj_can_if_name = can_if_name, adj_cb = None, adj_self = self \<rparr>)"
    by (rule adjuster_new_eq)
  show ?thesis
    using init_ctx_ok [OF new(4)] new(1-3,6)
    by (auto simp: new(5,7) adjuster_ok_def ctx_inv_def cmd_idle_def cmd_active_def)
qed

text \<open>\<open>SetSeatPosition\<close> reports the outcome of the controller: success exactly for success,
  \<open>INVALID_ARG\<close> exactly for a target outside 0..100, and never one of the results about opening the
  interface.\<close>

lemma set_seat_position_results:
  assumes "adjuster_ok a" and "SetSeatPosition K os d a = (r, a')"
  shows "(r = ResOK \<longleftrightarrow> fst (seatctrl_set_position K os CTX d (adj_ctx a)) = SEAT_CTRL_OK) \<and>
    (r = INVALID_ARG \<longleftrightarrow> d < 0 \<or> 100 < d) \<and> r \<notin> {NO_CAN, CAN_IF_INDEX_ERROR, CAN_BIND_ERROR} \<and>
    adj_cb a' = adj_cb a"
proof -
  let ?rc = "fst (seatctrl_set_position K os CTX d (adj_ctx a))"
  have codes: "?rc \<in> {SEAT_CTRL_OK, SEAT_CTRL_ERR_INVALID, SEAT_CTRL_ERR_NO_FRAMES, SEAT_CTRL_ERR, SEAT_CTRL_ERR_CAN_IO}"
    by (rule set_position_codes)
  have inv: "?rc = SEAT_CTRL_ERR_INVALID \<longleftrightarrow> d < 0 \<or> 100 < d"
    using assms(1) set_position_invalid_iff [of K os CTX d "adj_ctx a"] by (simp add: adjuster_ok_def)
  have r: "r = SetResult_of ?rc" "adj_cb a' = adj_cb a"
    using assms(2) by (auto simp: SetSeatPosition_def split: prod.splits)
  from codes inv show ?thesis
    unfolding r by (auto simp: SetResult_of_def SEAT_CTRL_defs)
qed

text \<open>\<open>GetSeatPosition\<close> and the position callback agree on the scale: a percentage, or -1 for a position that
  is not known; while the CTL thread is not running nothing is known.\<close>

lemma seat_position_scale:
  assumes "adjuster_ok a" and "self \<noteq> 0"
  shows "GetSeatPosition a =
      (if running (ctx (adj_ctx a)) \<and> motor1_pos (ctx (adj_ctx a)) \<noteq> 255 then uint (motor1_pos (ctx (adj_ctx a))) else -1) \<and>
    (GetSeatPosition a = -1 \<or> 0 \<le> GetSeatPosition a \<and> GetSeatPosition a \<le> 100) \<and>
    (running (ctx (adj_ctx a)) \<longrightarrow>
       seatctrl_event_cb env (SubscribePosition (Some f) a) Motor1Pos (uint (motor1_pos (ctx (adj_ctx a)))) self =
         Done (CallCb f (GetSeatPosition a)))"
proof -
  have "motor_pos_valid (motor1_pos (ctx (adj_ctx a)))" "magic (ctx (adj_ctx a)) = SEAT_CTRL_CONTEXT_MAGIC"
    using assms(1) by (simp_all add: adjuster_ok_def ctx_inv_def)
  moreover have "uint (motor1_pos (ctx (adj_ctx a))) = 255 \<longleftrightarrow> motor1_pos (ctx (adj_ctx a)) = 255"
    by (metis MOTOR_POS_INVALID_def MOTOR_POS_INVALID_uint word_uint_eq_iff)
  ultimately show ?thesis
    using assms(2)
    by (auto simp: GetSeatPosition_def seatctrl_get_position_def SEAT_POSITION_INVALID_def SEAT_CTRL_defs
        motor_pos_valid_def seatctrl_event_cb_def SubscribePosition_def Let_def MOTOR_POS_INVALID_def)
qed

end
