(* ===== verification/Seats_Grpc_Service.thy ===== *)
theory Seats_Grpc_Service
  imports Seat_Adjuster Kuksa_Client
begin

text \<open>
  \<open>seats_grpc_service.cc\<close>: the three handlers of the seat service. They call the abstract class
  \<open>SeatAdjuster\<close>, so its two functions are arguments of the handlers; the locale
  \<open>adjuster_interface\<close> says what they promise. Messages are records of the fields of \<open>seats.proto\<close>: an
  absent submessage reads as its default.
\<close>

section \<open>Messages\<close>

record SeatLocation =
  loc_row :: u32
  loc_index :: u32

record Position =
  pos_base :: int
  pos_cushion :: int
  pos_lumbar :: int
  pos_side_bolster :: int
  pos_head_restraint :: int

record Seat =
  seat_location :: "SeatLocation option"
  seat_position :: "Position option"

definition SeatLocation_default :: SeatLocation where
  "SeatLocation_default = \<lparr> loc_row = 0, loc_index = 0 \<rparr>"

definition Position_default :: Position where
  "Position_default = \<lparr> pos_base = 0, pos_cushion = 0, pos_lumbar = 0, pos_side_bolster = 0, pos_head_restraint = 0 \<rparr>"

definition Seat_default :: Seat where
  "Seat_default = \<lparr> seat_location = None, seat_position = None \<rparr>"

text \<open>The getter of a submessage.\<close>

definition submessage :: "'a \<Rightarrow> 'a option \<Rightarrow> 'a" where
  "submessage d m = (case m of None \<Rightarrow> d | Some x \<Rightarrow> x)"

definition BASE :: int where "BASE = 0"

record MoveRequest =
  move_seat :: "Seat option"

record MoveComponentRequest =
  comp_seat :: "SeatLocation option"
  comp_component :: int
  comp_position :: int

record CurrentPositionRequest =
  cur_row :: u32
  cur_index :: u32

section \<open>The handlers\<close>

definition SetResult_2_grpcStatus :: "SetResult \<Rightarrow> grpc_status" where
  "SetResult_2_grpcStatus result =
     (case result of
        ResOK \<Rightarrow> grpc_OK
      | UNSPECIFIC_ERROR \<Rightarrow> mk_status STATUS_INTERNAL ''Unspecific error''
      | NO_CAN \<Rightarrow> mk_status STATUS_INTERNAL ''SocketCAN not available''
      | CAN_IF_INDEX_ERROR \<Rightarrow> mk_status STATUS_INTERNAL ''CAN interface index error''
      | CAN_BIND_ERROR \<Rightarrow> mk_status STATUS_INTERNAL ''SocketCAN bind() error''
      | CAN_IO_ERROR \<Rightarrow> mk_status STATUS_INTERNAL ''SocketCAN i/o error''
      | INVALID_ARG \<Rightarrow> mk_status STATUS_INTERNAL ''Invalid argument(s)''
      | NO_FRAMES \<Rightarrow> mk_status STATUS_INTERNAL ''Can signals not coming from ECU'')"

definition Move :: "(int \<Rightarrow> 's \<Rightarrow> SetResult \<times> 's) \<Rightarrow> MoveRequest \<Rightarrow> 's \<Rightarrow> grpc_status \<times> 's" where
  "Move set_position request s =
     (let seat = submessage Seat_default (move_seat request);
          location = submessage SeatLocation_default (seat_location seat)
      in if loc_row location \<noteq> 1 \<or> loc_index location \<noteq> 1
         then (mk_status STATUS_OUT_OF_RANGE ''Unknown seat location'', s)
         else
           let position = submessage Position_default (seat_position seat)
           in if pos_base position < 0 \<or> 1000 < pos_base position
              then (mk_status STATUS_INVALID_ARGUMENT ''Invalid base position'', s)
              else
                let position_in_percent = (pos_base position + 5) div 10;
                    (result, s') = set_position position_in_percent s
                in (SetResult_2_grpcStatus result, s'))"

definition MoveComponent ::
    "(int \<Rightarrow> 's \<Rightarrow> SetResult \<times> 's) \<Rightarrow> MoveComponentRequest \<Rightarrow> 's \<Rightarrow> grpc_status \<times> 's" where
  "MoveComponent set_position request s =
     (let location = submessage SeatLocation_default (comp_seat request)
      in if loc_row location \<noteq> 1 \<or> loc_index location \<noteq> 1
         then (mk_status STATUS_OUT_OF_RANGE ''Unknown seat location'', s)
         else if comp_component request \<noteq> BASE
         then (mk_status STATUS_NOT_FOUND ''Unsupported seat component'', s)
         else
           let base_position = comp_position request
           in if base_position < 0 \<or> 1000 < base_position
              then (mk_status STATUS_INVALID_ARGUMENT ''Invalid base position'', s)
              else
                let base_position_in_percent = (base_position + 5) div 10;
                    (result, s') = set_position base_position_in_percent s
                in (SetResult_2_grpcStatus result, s'))"

text \<open>The reply message is empty until the location has been checked.\<close>

definition CurrentPosition ::
    "('s \<Rightarrow> int) \<Rightarrow> CurrentPositionRequest \<Rightarrow> 's \<Rightarrow> grpc_status \<times> Seat option" where
  "CurrentPosition get_position request s =
     (if cur_row request \<noteq> 1 \<or> cur_index request \<noteq> 1
      then (mk_status STATUS_OUT_OF_RANGE ''Unknown seat location'', None)
      else
        let location = \<lparr> loc_row = cur_row request, loc_index = cur_index request \<rparr>;
            position = \<lparr> pos_base = -1, pos_cushion = -1, pos_lumbar = -1, pos_side_bolster = -1,
              pos_head_restraint = -1 \<rparr>;
            base_position_in_percent = get_position s;
            position' = (if base_position_in_percent \<noteq> SEAT_POSITION_INVALID
                         then position\<lparr>pos_base := base_position_in_percent * 10\<rparr> else position)
        in (grpc_OK, Some \<lparr> seat_location = Some location, seat_position = Some position' \<rparr>))"

section \<open>What the service promises over any adjuster\<close>

text \<open>The percentage the handlers derive from a position of 0..1000.\<close>

definition percent_of :: "int \<Rightarrow> int" where
  "percent_of base = (base + 5) div 10"

lemma percent_of_range: "0 \<le> base \<Longrightarrow> base \<le> 1000 \<Longrightarrow> 0 \<le> percent_of base \<and> percent_of base \<le> 100"
  unfolding percent_of_def by linarith

lemma percent_of_near: "\<bar>10 * percent_of base - base\<bar> \<le> 5"
proof -
  have "base + 5 = 10 * percent_of base + (base + 5) mod 10" by (simp add: percent_of_def)
  moreover have "0 \<le> (base + 5) mod 10" "(base + 5) mod 10 < 10" by simp_all
  ultimately show ?thesis by linarith
qed

lemma percent_of_ten [simp]: "percent_of (10 * p) = p"
  by (simp add: percent_of_def)

lemma SetResult_2_grpcStatus_code:
  "error_code (SetResult_2_grpcStatus r) = (if r = ResOK then STATUS_OK else STATUS_INTERNAL)"
  by (cases r) (simp_all add: SetResult_2_grpcStatus_def grpc_OK_def mk_status_def)

context adjuster_interface
begin

lemma move_ok: "ok s \<Longrightarrow> ok (snd (Move set_position request s))"
  using set_ok by (simp add: Move_def Let_def case_prod_unfold)

lemma move_component_ok: "ok s \<Longrightarrow> ok (snd (MoveComponent set_position request s))"
  using set_ok by (simp add: MoveComponent_def Let_def case_prod_unfold)

text \<open>A base position in the reply is unknown (-1) or in 0..1000.\<close>

lemma current_position_base:
  assumes "ok s" and "CurrentPosition get_position request s = (st, Some seat)" and "seat_position seat = Some p"
  shows "pos_base p = -1 \<or> 0 \<le> pos_base p \<and> pos_base p \<le> 1000"
  using assms get_range [OF assms(1)]
  by (auto simp: CurrentPosition_def Let_def SEAT_POSITION_INVALID_def split: if_splits)

end

section \<open>What the service promises\<close>

text \<open>C22: \<open>Move\<close> on any request: a seat other than row 1, index 1 is out of range, a base position outside
  0..1000 an invalid argument, both without any effect; otherwise the adjuster is called once with the nearest percentage
  (off by at most half a percent) and its result is the reply.\<close>

theorem grpc_move_spec:
  "let seat = submessage Seat_default (move_seat request);
     location = submessage SeatLocation_default (seat_location seat);
     base = pos_base (submessage Position_default (seat_position seat)) in
   Move set_position request s =
     (if \<not> (loc_row location = 1 \<and> loc_index location = 1) then (mk_status STATUS_OUT_OF_RANGE ''Unknown seat location'', s)
      else if base < 0 \<or> 1000 < base then (mk_status STATUS_INVALID_ARGUMENT ''Invalid base position'', s)
      else apfst SetResult_2_grpcStatus (set_position (percent_of base) s)) \<and>
   \<bar>10 * percent_of base - base\<bar> \<le> 5 \<and>
   (0 \<le> base \<and> base \<le> 1000 \<longrightarrow> 0 \<le> percent_of base \<and> percent_of base \<le> 100)"
  using percent_of_near percent_of_range
  by (auto simp: Move_def percent_of_def Let_def apfst_def map_prod_def case_prod_unfold)

theorem grpc_move_spec_witness:
  "Move (\<lambda>p s. (ResOK, s @ [p])) \<lparr> move_seat = Some \<lparr> seat_location = Some \<lparr> loc_row = 1, loc_index = 1 \<rparr>,
     seat_position = Some (Position_default\<lparr>pos_base := 996\<rparr>) \<rparr> \<rparr> [] = (grpc_OK, [100])"
  using grpc_move_spec [of "\<lparr> move_seat = Some \<lparr> seat_location = Some \<lparr> loc_row = 1, loc_index = 1 \<rparr>,
     seat_position = Some (Position_default\<lparr>pos_base := 996\<rparr>) \<rparr> \<rparr>" "\<lambda>p s. (ResOK, s @ [p])" "[]"]
  by (simp add: submessage_def percent_of_def SetResult_2_grpcStatus_def)

text \<open>\<open>MoveComponent\<close> supports exactly the component \<open>BASE\<close>, for which it is \<open>Move\<close>; the location is checked
  before the component.\<close>

lemma move_component_is_move:
  "MoveComponent set_position request s =
     (let location = submessage SeatLocation_default (comp_seat request)
      in if loc_row location = 1 \<and> loc_index location = 1 \<and> comp_component request \<noteq> 0
         then (mk_status STATUS_NOT_FOUND ''Unsupported seat component'', s)
         else Move set_position
           \<lparr> move_seat = Some \<lparr> seat_location = comp_seat request,
               seat_position = Some (Position_default\<lparr>pos_base := comp_position request\<rparr>) \<rparr> \<rparr> s)"
  by (simp add: MoveComponent_def Move_def submessage_def BASE_def Let_def)

text \<open>Reading back. When the seat has reached the percentage that a request for \<open>base\<close> stands for, the service reports a
  base position within half a percent of the request, and requesting the reported position again targets
  the same percentage.\<close>

lemma current_position_roundtrip:
  assumes "0 \<le> base" and "base \<le> 1000" and "get_position s = percent_of base"
  shows "\<exists>seat p. CurrentPosition get_position \<lparr> cur_row = 1, cur_index = 1 \<rparr> s = (grpc_OK, Some seat) \<and>
    seat_position seat = Some p \<and> \<bar>pos_base p - base\<bar> \<le> 5 \<and> percent_of (pos_base p) = percent_of base"
proof -
  have "get_position s \<noteq> SEAT_POSITION_INVALID"
    using percent_of_range [OF assms(1,2)] assms(3) by (simp add: SEAT_POSITION_INVALID_def)
  then show ?thesis
    using percent_of_near [of base] percent_of_ten [of "percent_of base"] assms(3)
    by (simp add: CurrentPosition_def Let_def mult.commute)
qed

text \<open>The service on the real adjuster reports, for the driver's seat, the location asked for and a base position
  that is -1 or in 0..1000, and -1 for everything the hardware does not have.\<close>

lemma current_position_reply:
  fixes os :: "'w os" and a :: "'w SeatAdjusterImpl"
  assumes "app_os K os" and "adjuster_ok a"
  shows "\<exists>p. CurrentPosition GetSeatPosition \<lparr> cur_row = 1, cur_index = 1 \<rparr> a =
      (grpc_OK, Some \<lparr> seat_location = Some \<lparr> loc_row = 1, loc_index = 1 \<rparr>, seat_position = Some p \<rparr>) \<and>
    (pos_base p = -1 \<or> 0 \<le> pos_base p \<and> pos_base p \<le> 1000) \<and> (pos_base p = -1 \<longleftrightarrow> GetSeatPosition a = -1) \<and>
    pos_cushion p = -1 \<and> pos_lumbar p = -1 \<and> pos_side_bolster p = -1 \<and> pos_head_restraint p = -1"
proof -
  have impl: "adjuster_interface GetSeatPosition (SetSeatPosition K os) adjuster_ok"
    using assms(1) by (rule app_os.adjuster_laws)
  obtain st seat where r: "CurrentPosition GetSeatPosition \<lparr> cur_row = 1, cur_index = 1 \<rparr> a = (st, Some seat)"
    by (simp add: CurrentPosition_def Let_def)
  show ?thesis
    using r adjuster_interface.current_position_base [OF impl assms(2) r]
      adjuster_interface.get_range [OF impl assms(2)]
    by (auto simp: CurrentPosition_def Let_def SEAT_POSITION_INVALID_def)
qed

end
