(* ===== verification/Create_Datapoint.thy ===== *)
theory Create_Datapoint
  imports Seat_Prelude
begin

text \<open>
  \<open>create_datapoint.h\<close>: the values the services feed to the broker and the helper functions that build
  them. A datapoint is the oneof of \<open>sdv/databroker/v1/types.proto\<close> restricted to the members the code
  sets; a floating point value is kept as its bit pattern, which the code only copies.
\<close>

datatype Failure = INVALID_VALUE | NOT_AVAILABLE | UNKNOWN_DATAPOINT | ACCESS_DENIED | INTERNAL_ERROR

datatype Datapoint =
    failure_value Failure
  | string_value string
  | bool_value bool
  | int32_value "32 word"
  | int64_value "64 word"
  | uint32_value "32 word"
  | uint64_value "64 word"
  | float_value "32 word"
  | double_value "64 word"
  | int32_array "32 word list"
  | uint32_array "32 word list"

definition createInvalidValue :: Datapoint where
  "createInvalidValue = failure_value INVALID_VALUE"

definition createNotAvailableValue :: Datapoint where
  "createNotAvailableValue = failure_value NOT_AVAILABLE"

definition createDatapoint_bool :: "bool \<Rightarrow> Datapoint" where
  "createDatapoint_bool value = bool_value value"

definition createDatapoint_int32 :: "32 word \<Rightarrow> Datapoint" where
  "createDatapoint_int32 value = int32_value value"

definition createDatapoint_uint32 :: "32 word \<Rightarrow> Datapoint" where
  "createDatapoint_uint32 value = uint32_value value"

definition createDatapoint_int64 :: "64 word \<Rightarrow> Datapoint" where
  "createDatapoint_int64 value = int64_value value"

definition createDatapoint_uint64 :: "64 word \<Rightarrow> Datapoint" where
  "createDatapoint_uint64 value = uint64_value value"

definition createDatapoint_float :: "32 word \<Rightarrow> Datapoint" where
  "createDatapoint_float value = float_value value"

definition createDatapoint_double :: "64 word \<Rightarrow> Datapoint" where
  "createDatapoint_double value = double_value value"

definition createDatapoint_string :: "string \<Rightarrow> Datapoint" where
  "createDatapoint_string value = string_value value"

text \<open>The loops that add the elements one by one.\<close>

definition createDatapoint_int32_array :: "32 word list \<Rightarrow> Datapoint" where
  "createDatapoint_int32_array values_array = int32_array (fold (\<lambda>v vs. vs @ [v]) values_array [])"

definition createDatapoint_uint32_array :: "32 word list \<Rightarrow> Datapoint" where
  "createDatapoint_uint32_array values_array = uint32_array (fold (\<lambda>v vs. vs @ [v]) values_array [])"

lemma fold_snoc: "fold (\<lambda>v vs. vs @ [v]) xs ys = ys @ xs"
  by (induction xs arbitrary: ys) simp_all

lemma createDatapoint_arrays:
  "createDatapoint_int32_array xs = int32_array xs" "createDatapoint_uint32_array xs = uint32_array xs"
  by (simp_all add: createDatapoint_int32_array_def createDatapoint_uint32_array_def fold_snoc)

end
