(* ===== verification/Data_Broker_Feeder.thy ===== *)
theory Data_Broker_Feeder
  imports Kuksa_Client Create_Datapoint "HOL-Library.AList"
begin

text \<open>
  \<open>data_broker_feeder.h\<close> and \<open>data_broker_feeder.cc\<close>: the feeder that registers datapoints with the broker
  and sends the values that other threads store in it. The containers are association lists with distinct keys
  (the order stands for the iteration order). A remote call is an argument: the status and the
  reply it returned. \<open>Run\<close> is a step relation, interleaved with \<open>FeedValue\<close>, \<open>FeedValues\<close> and
  \<open>Shutdown\<close> of other threads; the steps are the regions the mutex protects and the remote calls.
\<close>

section \<open>Data\<close>

record DatapointMetadata =
  dp_name :: string
  dp_data_type :: int
  dp_change_type :: int
  dp_initial_value :: Datapoint
  dp_description :: string

text \<open>The entries of the replies to \<open>GetMetadata\<close>.\<close>

record Metadata =
  md_id :: int
  md_name :: string
  md_data_type :: int

type_synonym DatapointConfiguration = "DatapointMetadata list"
type_synonym DatapointValues = "(string \<times> Datapoint) list"

record DataBrokerFeederImpl =
  dp_config :: DatapointConfiguration
  stored_values :: DatapointValues
  id_map :: "(string \<times> int) list"
  dp_meta :: "(string \<times> Metadata) list"
  feeder_active :: bool
  feeder_ready :: bool
  fd_client :: KuksaClient

definition DataBrokerFeederImpl_new :: "KuksaClient \<Rightarrow> DatapointConfiguration \<Rightarrow> DataBrokerFeederImpl" where
  "DataBrokerFeederImpl_new client config =
     \<lparr> dp_config = config, stored_values = [], id_map = [], dp_meta = [], feeder_active = True,
       feeder_ready = False, fd_client = client \<rparr>"

section \<open>Storing values\<close>

text \<open>\<open>operator[]\<close> overwrites; \<open>insert\<close> of a map keeps an entry that is there.\<close>

definition map_insert :: "'k \<times> 'v \<Rightarrow> ('k \<times> 'v) list \<Rightarrow> ('k \<times> 'v) list" where
  "map_insert kv m = (case map_of m (fst kv) of None \<Rightarrow> m @ [kv] | Some _ \<Rightarrow> m)"

definition storeValue :: "string \<Rightarrow> Datapoint \<Rightarrow> DataBrokerFeederImpl \<Rightarrow> DataBrokerFeederImpl" where
  "storeValue name value f = f\<lparr>stored_values := AList.update name value (stored_values f)\<rparr>"

definition storeValues :: "DatapointValues \<Rightarrow> DataBrokerFeederImpl \<Rightarrow> DataBrokerFeederImpl" where
  "storeValues values f = fold (\<lambda>(n, v). storeValue n v) values f"

definition FeedValues :: "DatapointValues \<Rightarrow> DataBrokerFeederImpl \<Rightarrow> DataBrokerFeederImpl" where
  "FeedValues values f = (if feeder_active f then storeValues values f else f)"

definition FeedValue :: "string \<Rightarrow> Datapoint \<Rightarrow> DataBrokerFeederImpl \<Rightarrow> DataBrokerFeederImpl" where
  "FeedValue name value f = (if feeder_active f then storeValue name value f else f)"

definition restoreValues :: "DatapointValues \<Rightarrow> DataBrokerFeederImpl \<Rightarrow> DataBrokerFeederImpl" where
  "restoreValues values f = f\<lparr>stored_values := fold map_insert values (stored_values f)\<rparr>"

definition Shutdown :: "DataBrokerFeederImpl \<Rightarrow> DataBrokerFeederImpl" where
  "Shutdown f = (if feeder_active f then f\<lparr>stored_values := [], feeder_active := False\<rparr> else f)"

definition Ready :: "DataBrokerFeederImpl \<Rightarrow> bool" where
  "Ready f \<longleftrightarrow> feeder_active f \<and> connected (fd_client f) \<and> feeder_ready f"

definition cleanup :: "DataBrokerFeederImpl \<Rightarrow> DataBrokerFeederImpl" where
  "cleanup f = f\<lparr>id_map := [], dp_meta := [], feeder_ready := False\<rparr>"

definition handleError :: "grpc_status \<Rightarrow> DataBrokerFeederImpl \<Rightarrow> DataBrokerFeederImpl" where
  "handleError status f =
     (let f1 = (if error_code status \<in> {STATUS_INTERNAL, STATUS_UNAUTHENTICATED, STATUS_UNIMPLEMENTED}
                then f\<lparr>feeder_active := False\<rparr> else f)
      in f1\<lparr>fd_client := SetDisconnected (fd_client f1)\<rparr>)"

section \<open>Registration\<close>

text \<open>The names asked for in \<open>getMetadata()\<close>, and what it does with the reply.\<close>

definition getMetadata_request :: "DataBrokerFeederImpl \<Rightarrow> string list option" where
  "getMetadata_request f = (if dp_config f = [] then None else Some (map dp_name (dp_config f)))"

definition getMetadata :: "grpc_status \<Rightarrow> Metadata list \<Rightarrow> DataBrokerFeederImpl \<Rightarrow> bool \<times> DataBrokerFeederImpl" where
  "getMetadata status reply f =
     (if dp_config f = [] then (False, f)
      else if status_ok status
      then (True, f\<lparr>dp_meta := fold (\<lambda>m. AList.update (md_name m) m) reply (dp_meta f)\<rparr>)
      else (False, handleError status f))"

definition checkDatapoints :: "DataBrokerFeederImpl \<Rightarrow> bool" where
  "checkDatapoints f = fold (\<lambda>dp result.
     case map_of (dp_meta f) (dp_name dp) of
       None \<Rightarrow> False
     | Some md \<Rightarrow> if dp_data_type dp \<noteq> md_data_type md then False else result) (dp_config f) True"

record RegistrationMetadata =
  reg_name :: string
  reg_data_type :: int
  reg_change_type :: int
  reg_description :: string

definition register_request :: "DataBrokerFeederImpl \<Rightarrow> RegistrationMetadata list" where
  "register_request f = map (\<lambda>dp. \<lparr> reg_name = dp_name dp, reg_data_type = dp_data_type dp,
     reg_change_type = dp_change_type dp, reg_description = dp_description dp \<rparr>) (dp_config f)"

text \<open>\<open>registerDatapoints()\<close> after \<open>getMetadata()\<close>: the ids of known datapoints, or \<open>None\<close> to go on.\<close>

definition register_known :: "DataBrokerFeederImpl \<Rightarrow> DataBrokerFeederImpl option" where
  "register_known f =
     (if checkDatapoints f
      then Some (f\<lparr>id_map := fold (\<lambda>(n, m). AList.update n (md_id m)) (dp_meta f) (id_map f)\<rparr>)
      else None)"

definition register_reply ::
    "grpc_status \<Rightarrow> (string \<times> int) list \<Rightarrow> DataBrokerFeederImpl \<Rightarrow> bool \<times> DataBrokerFeederImpl" where
  "register_reply status results f =
     (if status_ok status then (True, f\<lparr>id_map := results\<rparr>) else (False, handleError status f))"

text \<open>\<open>registerDatapoints()\<close> as a whole; the two remote calls are arguments.\<close>

definition registerDatapoints ::
    "(string list \<Rightarrow> grpc_status \<times> Metadata list) \<Rightarrow> (RegistrationMetadata list \<Rightarrow> grpc_status \<times> (string \<times> int) list) \<Rightarrow>
      DataBrokerFeederImpl \<Rightarrow> bool \<times> DataBrokerFeederImpl" where
  "registerDatapoints get_metadata register_datapoints f =
     (let f1 = (case getMetadata_request f of
            None \<Rightarrow> f
          | Some names \<Rightarrow> (case get_metadata names of (status, reply) \<Rightarrow> snd (getMetadata status reply f)))
      in case register_known f1 of
           Some f2 \<Rightarrow> (True, f2)
         | None \<Rightarrow> (case register_datapoints (register_request f1) of (status, results) \<Rightarrow> register_reply status results f1))"

section \<open>Feeding\<close>

text \<open>The critical section of \<open>feedStoredValues()\<close> and the initial values added to what it took.\<close>

definition feed_take :: "bool \<Rightarrow> DataBrokerFeederImpl \<Rightarrow> DatapointValues \<times> DataBrokerFeederImpl" where
  "feed_take feed_initial_values f =
     ((if feed_initial_values
       then fold (\<lambda>dp. map_insert (dp_name dp, dp_initial_value dp)) (dp_config f) (stored_values f)
       else stored_values f),
      f\<lparr>stored_values := []\<rparr>)"

definition feed_request :: "DatapointValues \<Rightarrow> DataBrokerFeederImpl \<Rightarrow> (int \<times> Datapoint) list" where
  "feed_request values_to_feed f =
     fold (\<lambda>(n, v) req. case map_of (id_map f) n of None \<Rightarrow> req | Some i \<Rightarrow> AList.update i v req) values_to_feed []"

text \<open>
  \<open>feedToBroker()\<close> as a whole. \<open>update\<close> is the remote call: its status, and the errors of single datapoints in the reply.
  The result is what the function returns and the warnings it prints: id, name and error.
\<close>

definition name_of_id :: "DataBrokerFeederImpl \<Rightarrow> int \<Rightarrow> string" where
  "name_of_id f i = (case find (\<lambda>m. snd m = i) (id_map f) of None \<Rightarrow> ''Unknown'' | Some m \<Rightarrow> fst m)"

definition feedToBroker ::
    "((int \<times> Datapoint) list \<Rightarrow> grpc_status \<times> (int \<times> int) list) \<Rightarrow> DatapointValues \<Rightarrow> DataBrokerFeederImpl \<Rightarrow>
      (bool \<times> (int \<times> string \<times> int) list) \<times> DataBrokerFeederImpl" where
  "feedToBroker update values_to_feed f =
     (let (status, errors) = update (feed_request values_to_feed f)
      in if status_ok status then ((True, map (\<lambda>(i, de). (i, name_of_id f i, de)) errors), f)
         else ((False, []), handleError status f))"

text \<open>\<open>feedStoredValues()\<close> as a whole, for a call of the broker that nothing interrupts.\<close>

definition feedStoredValues ::
    "((int \<times> Datapoint) list \<Rightarrow> grpc_status \<times> (int \<times> int) list) \<Rightarrow> bool \<Rightarrow> DataBrokerFeederImpl \<Rightarrow> DataBrokerFeederImpl" where
  "feedStoredValues update feed_initial_values f =
     (let (values_to_feed, f1) = feed_take feed_initial_values f;
          ((successfully_sent, _), f2) = feedToBroker update values_to_feed f1
      in if \<not> successfully_sent then restoreValues values_to_feed f2 else f2)"

section \<open>The thread of Run and the threads that feed\<close>

text \<open>
  Where the thread stands: at the head of the outer loop, connecting, in the call of \<open>GetMetadata\<close> or
  \<open>RegisterDatapoints\<close>, asleep after a failed registration, at the head of the inner loop (with
  \<open>also_feed_initial_values\<close>), in the call of \<open>UpdateDatapoints\<close> with the values taken, before storing
  them back, after \<open>feedStoredValues\<close>, waiting for the condition variable, before the last check of the inner loop, returned.
\<close>

datatype run_pc =
    RunTop
  | RunConnecting
  | RunGetMetadata
  | RunRegister
  | RunSleep
  | RunInner bool
  | RunSending DatapointValues
  | RunRestore DatapointValues
  | RunFed
  | RunWaiting
  | RunCheck
  | RunReturned

text \<open>
  Beside the feeder and its thread the state has two logs that the proofs use: the newest value passed
  in per name, and the values of the calls that the broker answered with OK.
\<close>

record feeding =
  fd :: DataBrokerFeederImpl
  run :: run_pc
  latest :: "string \<Rightarrow> Datapoint option"
  acked :: DatapointValues

definition run_to :: "run_pc \<Rightarrow> DataBrokerFeederImpl \<Rightarrow> feeding \<Rightarrow> feeding" where
  "run_to p f c = c\<lparr>fd := f, run := p\<rparr>"

lemma run_to_simps [simp]:
  "fd (run_to p f c) = f" "run (run_to p f c) = p" "latest (run_to p f c) = latest c"
  "acked (run_to p f c) = acked c"
  by (simp_all add: run_to_def)

text \<open>The code of \<open>Run\<close> between two calls that block.\<close>

definition enter_inner :: "DataBrokerFeederImpl \<Rightarrow> run_pc \<times> DataBrokerFeederImpl" where
  "enter_inner f = (RunInner True, f\<lparr>feeder_ready := True\<rparr>)"

definition run_connected :: "bool \<Rightarrow> DataBrokerFeederImpl \<Rightarrow> run_pc \<times> DataBrokerFeederImpl" where
  "run_connected answer f =
     (let f1 = f\<lparr>fd_client := snd (WaitForConnected answer (fd_client f))\<rparr>
      in if feeder_active f1 \<and> connected (fd_client f1) then (RunGetMetadata, f1) else enter_inner f1)"

definition run_metadata :: "grpc_status \<Rightarrow> Metadata list \<Rightarrow> DataBrokerFeederImpl \<Rightarrow> run_pc \<times> DataBrokerFeederImpl" where
  "run_metadata status reply f =
     (let f1 = snd (getMetadata status reply f)
      in case register_known f1 of Some f2 \<Rightarrow> enter_inner f2 | None \<Rightarrow> (RunRegister, f1))"

definition run_registered :: "grpc_status \<Rightarrow> (string \<times> int) list \<Rightarrow> DataBrokerFeederImpl \<Rightarrow> run_pc \<times> DataBrokerFeederImpl" where
  "run_registered status results f =
     (case register_reply status results f of
        (True, f1) \<Rightarrow> enter_inner f1
      | (False, f1) \<Rightarrow> (RunSleep, f1))"

definition run_inner :: "bool \<Rightarrow> DataBrokerFeederImpl \<Rightarrow> run_pc \<times> DataBrokerFeederImpl" where
  "run_inner also_feed_initial_values f =
     (if feeder_active f \<and> connected (fd_client f)
      then (case feed_take also_feed_initial_values f of (vs, f1) \<Rightarrow> (RunSending vs, f1))
      else (RunTop, cleanup f))"

definition run_fed :: "DataBrokerFeederImpl \<Rightarrow> run_pc" where
  "run_fed f =
     (if feeder_active f \<and> connected (fd_client f) \<and> stored_values f = [] then RunWaiting else RunCheck)"

definition run_check :: "DataBrokerFeederImpl \<Rightarrow> run_pc \<times> DataBrokerFeederImpl" where
  "run_check f = (if \<not> connected (fd_client f) then (RunTop, cleanup f) else (RunInner False, f))"

inductive run_step :: "feeding \<Rightarrow> feeding \<Rightarrow> bool" where
  top: "run c = RunTop \<Longrightarrow>
    run_step c (run_to (if feeder_active (fd c) then RunConnecting else RunReturned) (fd c) c)"
| connecting: "run c = RunConnecting \<Longrightarrow> run_connected answer (fd c) = (p, f) \<Longrightarrow> run_step c (run_to p f c)"
| get_metadata: "run c = RunGetMetadata \<Longrightarrow> run_metadata status reply (fd c) = (p, f) \<Longrightarrow> run_step c (run_to p f c)"
| register: "run c = RunRegister \<Longrightarrow> run_registered status results (fd c) = (p, f) \<Longrightarrow> run_step c (run_to p f c)"
| slept: "run c = RunSleep \<Longrightarrow> run_step c (run_to RunTop (fd c) c)"
| inner: "run c = RunInner ini \<Longrightarrow> run_inner ini (fd c) = (p, f) \<Longrightarrow> run_step c (run_to p f c)"
| sent: "run c = RunSending vs \<Longrightarrow> status_ok status \<Longrightarrow>
    run_step c ((run_to RunFed (fd c) c)\<lparr>acked := acked c @ vs\<rparr>)"
| send_failed: "run c = RunSending vs \<Longrightarrow> \<not> status_ok status \<Longrightarrow>
    run_step c (run_to (RunRestore vs) (handleError status (fd c)) c)"
| restore: "run c = RunRestore vs \<Longrightarrow> run_step c (run_to RunFed (restoreValues vs (fd c)) c)"
| fed: "run c = RunFed \<Longrightarrow> run_step c (run_to (run_fed (fd c)) (fd c) c)"
| timeout: "run c = RunWaiting \<Longrightarrow> feeder_active (fd c) \<Longrightarrow> connected (fd_client (fd c)) \<Longrightarrow> run_step c c"
| woken: "run c = RunWaiting \<Longrightarrow> run_step c (run_to RunCheck (fd c) c)"
| check: "run c = RunCheck \<Longrightarrow> run_check (fd c) = (p, f) \<Longrightarrow> run_step c (run_to p f c)"

text \<open>
  The other threads. \<open>feed_late\<close> is a feeding thread that has seen \<open>feeder_active_\<close> set before \<open>Shutdown\<close> cleared it;
  the last rule is the position subscriber, which shares the client object.
\<close>

inductive client_step :: "feeding \<Rightarrow> feeding \<Rightarrow> bool" where
  feed_value: "client_step c (c\<lparr>fd := FeedValue n v (fd c),
    latest := (if feeder_active (fd c) then (latest c)(n \<mapsto> v) else latest c)\<rparr>)"
| feed_values: "distinct (map fst vs) \<Longrightarrow> client_step c (c\<lparr>fd := FeedValues vs (fd c),
    latest := (if feeder_active (fd c) then latest c ++ map_of vs else latest c)\<rparr>)"
| feed_late: "\<not> feeder_active (fd c) \<Longrightarrow> client_step c (c\<lparr>fd := storeValue n v (fd c)\<rparr>)"
| shutdown: "client_step c (c\<lparr>fd := Shutdown (fd c)\<rparr>)"
| reconnected: "client_step c (c\<lparr>fd := (fd c)\<lparr>fd_client := snd (WaitForConnected answer (fd_client (fd c)))\<rparr>\<rparr>)"

definition feed_step :: "feeding \<Rightarrow> feeding \<Rightarrow> bool" where
  "feed_step c c' \<longleftrightarrow> run_step c c' \<or> client_step c c'"

definition feeding_start :: "KuksaClient \<Rightarrow> DatapointConfiguration \<Rightarrow> feeding" where
  "feeding_start client config =
     \<lparr> fd = DataBrokerFeederImpl_new client config, run = RunTop, latest = (\<lambda>_. None), acked = [] \<rparr>"

section \<open>The containers\<close>

lemma map_of_map_insert: "map_of (map_insert kv m) = [fst kv \<mapsto> snd kv] ++ map_of m"
  by (rule ext) (auto simp: map_insert_def map_add_def split: option.split prod.split)

lemma map_of_fold_insert: "map_of (fold map_insert vs m) = map_of vs ++ map_of m"
  by (induction vs arbitrary: m) (auto simp: map_of_map_insert)

lemma fold_initial: "fold (\<lambda>dp. map_insert (dp_name dp, dp_initial_value dp)) cfg m =
    fold map_insert (map (\<lambda>dp. (dp_name dp, dp_initial_value dp)) cfg) m"
  by (simp add: fold_map o_def)

lemma distinct_map_insert: "distinct (map fst m) \<Longrightarrow> distinct (map fst (map_insert kv m))"
  by (auto simp: map_insert_def map_of_eq_None_iff split: option.split)

lemma distinct_fold_insert: "distinct (map fst m) \<Longrightarrow> distinct (map fst (fold map_insert vs m))"
  by (induction vs arbitrary: m) (auto simp: distinct_map_insert)

lemma storeValues_stored:
  "distinct (map fst vs) \<Longrightarrow> map_of (stored_values (storeValues vs f)) = map_of (stored_values f) ++ map_of vs"
proof (induction vs arbitrary: f)
  case Nil
  show ?case by (simp add: storeValues_def)
next
  case (Cons nv vs)
  obtain n v where nv: "nv = (n, v)" by fastforce
  have "map_of (stored_values (storeValues (nv # vs) f)) =
      map_of (stored_values (storeValue n v f)) ++ map_of vs"
    using Cons by (simp add: storeValues_def nv)
  also have "\<dots> = (map_of (stored_values f))(n \<mapsto> v) ++ map_of vs"
    by (simp add: storeValue_def update_conv')
  also have "\<dots> = map_of (stored_values f) ++ map_of (nv # vs)"
    using Cons.prems by (auto simp: nv map_add_upd_left map_of_eq_None_iff dom_map_of_conv_image_fst)
  finally show ?case .
qed

lemma storeValues_frame [simp]:
  "feeder_active (storeValues vs f) = feeder_active f" "dp_config (storeValues vs f) = dp_config f"
  "id_map (storeValues vs f) = id_map f" "fd_client (storeValues vs f) = fd_client f"
  by (induction vs arbitrary: f) (auto simp: storeValues_def storeValue_def)

lemma storeValue_frame [simp]:
  "feeder_active (storeValue n v f) = feeder_active f" "dp_config (storeValue n v f) = dp_config f"
  "map_of (stored_values (storeValue n v f)) = (map_of (stored_values f))(n \<mapsto> v)"
  by (simp_all add: storeValue_def update_conv')

lemma handleError_frame [simp]:
  "stored_values (handleError st f) = stored_values f" "dp_config (handleError st f) = dp_config f"
  "\<not> connected (fd_client (handleError st f))"
  by (simp_all add: handleError_def Let_def SetDisconnected_def)

lemma handleError_active: "feeder_active (handleError st f) \<Longrightarrow> feeder_active f"
  by (simp add: handleError_def Let_def split: if_splits)

lemma feed_take_values:
  "map_of (fst (feed_take ini f)) =
     (if ini then map_of (map (\<lambda>dp. (dp_name dp, dp_initial_value dp)) (dp_config f)) else (\<lambda>_. None)) ++ map_of (stored_values f)"
  "stored_values (snd (feed_take ini f)) = []"
  by (simp_all add: feed_take_def fold_initial map_of_fold_insert)

section \<open>No value is lost, and the newest wins\<close>

fun in_flight :: "run_pc \<Rightarrow> DatapointValues" where
  "in_flight (RunSending vs) = vs"
| "in_flight (RunRestore vs) = vs"
| "in_flight _ = []"

text \<open>What the feeder still has for a name; a stored value counts before one that is being sent.\<close>

definition pending :: "feeding \<Rightarrow> string \<Rightarrow> Datapoint option" where
  "pending c = map_of (in_flight (run c)) ++ map_of (stored_values (fd c))"

definition initial_for :: "DatapointConfiguration \<Rightarrow> string \<Rightarrow> Datapoint \<Rightarrow> bool" where
  "initial_for cfg n w \<longleftrightarrow> (\<exists>dp \<in> set cfg. dp_name dp = n \<and> dp_initial_value dp = w)"

definition newest_held :: "feeding \<Rightarrow> string \<Rightarrow> Datapoint \<Rightarrow> bool" where
  "newest_held c n v \<longleftrightarrow>
     (case pending c n of
        Some w \<Rightarrow> w = v \<or> initial_for (dp_config (fd c)) n w \<and> (n, v) \<in> set (acked c)
      | None \<Rightarrow> (n, v) \<in> set (acked c))"

definition feed_inv :: "DatapointConfiguration \<Rightarrow> feeding \<Rightarrow> bool" where
  "feed_inv cfg c \<longleftrightarrow>
     dp_config (fd c) = cfg \<and>
     (feeder_active (fd c) \<longrightarrow> (\<forall>n v. latest c n = Some v \<longrightarrow> newest_held c n v))"

text \<open>A step that keeps what is pending and what is acknowledged keeps the invariant.\<close>

lemma feed_inv_same:
  assumes "feed_inv cfg c" and "dp_config (fd c') = dp_config (fd c)" and "latest c' = latest c"
    and "acked c' = acked c" and "feeder_active (fd c') \<Longrightarrow> feeder_active (fd c)"
    and "feeder_active (fd c') \<Longrightarrow> pending c' = pending c"
  shows "feed_inv cfg c'"
proof -
  have "newest_held c' n v = newest_held c n v" if "feeder_active (fd c')" for n v
    using assms(2,4) assms(6) [OF that] by (simp add: newest_held_def split: option.split)
  then show ?thesis using assms(1-3,5) by (simp add: feed_inv_def)
qed

lemma initial_for_map_of:
  "map_of (map (\<lambda>dp. (dp_name dp, dp_initial_value dp)) cfg) n = Some w \<Longrightarrow> initial_for cfg n w"
  by (auto simp: initial_for_def dest!: map_of_SomeD)

lemma feed_inv_inner:
  assumes inv: "feed_inv cfg c" and at: "run c = RunInner ini" and step: "run_inner ini (fd c) = (p, f)"
  shows "feed_inv cfg (run_to p f c)"
proof (cases "feeder_active (fd c) \<and> connected (fd_client (fd c))")
  case True
  define vs where "vs = fst (feed_take ini (fd c))"
  have p: "p = RunSending vs" "f = (fd c)\<lparr>stored_values := []\<rparr>"
    using step True by (simp_all add: run_inner_def vs_def feed_take_def)
  have pend: "pending c = map_of (stored_values (fd c))"
    by (simp add: pending_def at)
  have pend': "pending (run_to p f c) = map_of vs" and cfg: "dp_config f = dp_config (fd c)"
    by (simp_all add: pending_def p)
  have "newest_held (run_to p f c) n v" if "newest_held c n v" for n v
  proof (cases "map_of (stored_values (fd c)) n")
    case None
    then have "(n, v) \<in> set (acked c)" using that by (simp add: newest_held_def pend)
    then show ?thesis
      using None
      by (auto simp: newest_held_def pend' cfg vs_def feed_take_values map_add_def intro: initial_for_map_of
          split: option.split)
  next
    case (Some w)
    then show ?thesis
      using that by (simp add: newest_held_def pend pend' cfg vs_def feed_take_values map_add_def)
  qed
  then show ?thesis using inv True by (simp add: feed_inv_def p(2))
next
  case False
  then show ?thesis
    using inv step by (intro feed_inv_same [OF inv]) (auto simp: run_inner_def cleanup_def pending_def at)
qed

lemma newest_held_acked:
  assumes "newest_held c n v" and "run c = RunSending vs"
  shows "newest_held ((run_to RunFed (fd c) c)\<lparr>acked := acked c @ vs\<rparr>) n v"
  using assms
  by (auto simp: newest_held_def pending_def map_add_def split: option.splits dest: map_of_SomeD)

lemma newest_held_upd:
  assumes "pending c' = pending c ++ m" and "dp_config (fd c') = dp_config (fd c)" and "acked c' = acked c"
    and "(latest c ++ m) n = Some v" and "m n = None \<Longrightarrow> newest_held c n v"
  shows "newest_held c' n v"
  using assms by (cases "m n") (auto simp: newest_held_def map_add_def split: option.splits)

lemma feed_inv_upd:
  assumes inv: "feed_inv cfg c" and "dp_config (fd c') = dp_config (fd c)" and "acked c' = acked c"
    and "feeder_active (fd c') = feeder_active (fd c)"
    and "feeder_active (fd c) \<Longrightarrow> pending c' = pending c ++ m" and "feeder_active (fd c) \<Longrightarrow> latest c' = latest c ++ m"
  shows "feed_inv cfg c'"
proof -
  have "newest_held c' n v" if act: "feeder_active (fd c)" and l: "latest c' n = Some v" for n v
  proof (rule newest_held_upd [OF assms(5) [OF act] assms(2,3)])
    show "(latest c ++ m) n = Some v" using l assms(6) [OF act] by simp
    then show "m n = None \<Longrightarrow> newest_held c n v" using inv act by (simp add: feed_inv_def map_add_def)
  qed
  then show ?thesis using assms(1,2,4) by (simp add: feed_inv_def)
qed

lemma register_frame [simp]:
  "stored_values (snd (getMetadata st r f)) = stored_values f" "dp_config (snd (getMetadata st r f)) = dp_config f"
  "stored_values (snd (register_reply st x f)) = stored_values f"
  "dp_config (snd (register_reply st x f)) = dp_config f"
  by (simp_all add: getMetadata_def register_reply_def)

lemma register_active:
  "feeder_active (snd (getMetadata st r f)) \<Longrightarrow> feeder_active f"
  "feeder_active (snd (register_reply st x f)) \<Longrightarrow> feeder_active f"
  by (auto simp: getMetadata_def register_reply_def split: if_splits dest: handleError_active)

text \<open>The segments that neither take nor give back values.\<close>

definition keeps_values :: "DataBrokerFeederImpl \<Rightarrow> run_pc \<times> DataBrokerFeederImpl \<Rightarrow> bool" where
  "keeps_values f r \<longleftrightarrow> in_flight (fst r) = [] \<and> stored_values (snd r) = stored_values f \<and>
     dp_config (snd r) = dp_config f \<and> (feeder_active (snd r) \<longrightarrow> feeder_active f)"

lemma keeps_values_segments:
  "keeps_values f (run_connected a f)" "keeps_values f (run_metadata st r f)" "keeps_values f (run_registered st x f)"
  "keeps_values f (run_check f)" "keeps_values f (run_fed f, f)"
proof -
  show "keeps_values f (run_connected a f)" "keeps_values f (run_check f)" "keeps_values f (run_fed f, f)"
    by (simp_all add: keeps_values_def run_connected_def run_check_def run_fed_def enter_inner_def cleanup_def Let_def)
  show "keeps_values f (run_metadata st r f)"
    using register_active(1) [of st r f]
    by (auto simp: keeps_values_def run_metadata_def register_known_def enter_inner_def Let_def split: option.split)
  obtain b g where "register_reply st x f = (b, g)" by fastforce
  then show "keeps_values f (run_registered st x f)"
    using register_frame(3,4) [of st x f] register_active(2) [of st x f]
    by (simp add: keeps_values_def run_registered_def enter_inner_def split: bool.split)
qed

lemma feed_inv_keeps_values:
  assumes "feed_inv cfg c" and "in_flight (run c) = []" and "keeps_values (fd c) (p, f)"
  shows "feed_inv cfg (run_to p f c)"
  using assms by (intro feed_inv_same [OF assms(1)]) (auto simp: keeps_values_def pending_def)

lemma feed_inv_run_step:
  assumes "run_step c c'" and inv: "feed_inv cfg c"
  shows "feed_inv cfg c'"
  using assms(1)
proof cases
  case (inner ini p f)
  then show ?thesis using feed_inv_inner [OF inv] by blast
next
  case (sent vs st)
  then show ?thesis using inv newest_held_acked by (simp add: feed_inv_def)
next
  case (send_failed vs st)
  then show ?thesis by (intro feed_inv_same [OF inv]) (auto simp: pending_def dest: handleError_active)
next
  case (restore vs)
  then show ?thesis
    by (intro feed_inv_same [OF inv]) (auto simp: pending_def restoreValues_def map_of_fold_insert)
next
  case (connecting a p f)
  then show ?thesis using keeps_values_segments(1) [of "fd c" a] by (auto intro: feed_inv_keeps_values [OF inv])
next
  case (get_metadata st r p f)
  then show ?thesis using keeps_values_segments(2) [of "fd c" st r] by (auto intro: feed_inv_keeps_values [OF inv])
next
  case (register st x p f)
  then show ?thesis using keeps_values_segments(3) [of "fd c" st x] by (auto intro: feed_inv_keeps_values [OF inv])
next
  case (check p f)
  then show ?thesis using keeps_values_segments(4) [of "fd c"] by (auto intro: feed_inv_keeps_values [OF inv])
next
  case fed
  then show ?thesis using keeps_values_segments(5) [of "fd c"] by (auto intro: feed_inv_keeps_values [OF inv])
qed (use inv in \<open>auto intro!: feed_inv_keeps_values [OF inv] simp: keeps_values_def\<close>)

lemma feed_inv_client_step:
  assumes "client_step c c'" and inv: "feed_inv cfg c"
  shows "feed_inv cfg c'"
  using assms(1)
proof cases
  case (feed_value n v)
  then show ?thesis
    by (intro feed_inv_upd [OF inv, where m = "[n \<mapsto> v]"]) (simp_all add: FeedValue_def pending_def)
next
  case (feed_values vs)
  then show ?thesis
    by (intro feed_inv_upd [OF inv, where m = "map_of vs"])
       (simp_all add: FeedValues_def pending_def storeValues_stored)
next
  case (feed_late n v)
  then show ?thesis using inv by (simp add: feed_inv_def)
next
  case shutdown
  then show ?thesis using inv by (auto simp: feed_inv_def Shutdown_def)
next
  case (reconnected a)
  then show ?thesis by (intro feed_inv_same [OF inv]) (auto simp: pending_def)
qed

lemma feed_inv_steps:
  assumes "feed_step\<^sup>*\<^sup>* (feeding_start client cfg) c"
  shows "feed_inv cfg c"
  using assms
proof (induction rule: rtranclp_induct)
  case base
  show ?case by (simp add: feed_inv_def feeding_start_def DataBrokerFeederImpl_new_def)
next
  case (step c c')
  then show ?case using feed_inv_run_step feed_inv_client_step by (auto simp: feed_step_def)
qed

section \<open>The contract of the feeder\<close>

lemma newest_value_held:
  assumes "feed_step\<^sup>*\<^sup>* (feeding_start client cfg) c" and "feeder_active (fd c)" and "latest c n = Some v"
  shows "case (map_of (in_flight (run c)) ++ map_of (stored_values (fd c))) n of
      Some w \<Rightarrow> w = v \<or> initial_for cfg n w \<and> (n, v) \<in> set (acked c)
    | None \<Rightarrow> (n, v) \<in> set (acked c)"
proof -
  have "newest_held c n v" "dp_config (fd c) = cfg"
    using feed_inv_steps [OF assms(1)] assms(2,3) by (simp_all add: feed_inv_def)
  then show ?thesis by (auto simp: newest_held_def pending_def)
qed


definition demo_client :: KuksaClient where
  "demo_client = KuksaClient_new (\<lambda>_. None) ''localhost:55555''"

definition demo_dp :: DatapointMetadata where
  "demo_dp = \<lparr> dp_name = ''Seat'', dp_data_type = 7, dp_change_type = 1,
     dp_initial_value = createNotAvailableValue, dp_description = [] \<rparr>"


fun steps_left :: "run_pc \<Rightarrow> nat" where
  "steps_left RunReturned = 0"
| "steps_left RunTop = 1"
| "steps_left (RunInner _) = 2"
| "steps_left RunSleep = 2"
| "steps_left RunCheck = 3"
| "steps_left RunConnecting = 3"
| "steps_left RunRegister = 3"
| "steps_left RunWaiting = 4"
| "steps_left RunGetMetadata = 4"
| "steps_left RunFed = 5"
| "steps_left (RunRestore _) = 6"
| "steps_left (RunSending _) = 7"

lemma run_step_enabled: "run c \<noteq> RunReturned \<Longrightarrow> \<exists>c'. run_step c c'"
proof (cases "run c")
  case (RunSending vs)
  then show ?thesis using run_step.send_failed [of c vs "mk_status STATUS_UNKNOWN []"]
    by (auto simp: status_ok_def mk_status_def STATUS_defs)
qed (auto intro: run_step.intros prod.collapse [symmetric])

lemma inactive_segments:
  assumes "\<not> feeder_active f"
  shows "steps_left (fst (run_connected a f)) \<le> 2" "steps_left (fst (run_metadata st r f)) \<le> 3"
    "steps_left (fst (run_registered st x f)) \<le> 2" "steps_left (fst (run_inner ini f)) \<le> 1"
    "steps_left (run_fed f) \<le> 3" "steps_left (fst (run_check f)) \<le> 2"
  using assms
  by (simp_all add: run_connected_def run_metadata_def run_registered_def run_inner_def run_fed_def run_check_def
      enter_inner_def Let_def split: option.split prod.split bool.split)

lemma inactive_run_step:
  assumes "\<not> feeder_active (fd c)" and st: "run_step c c'"
  shows "\<not> feeder_active (fd c')" and "steps_left (run c') < steps_left (run c)"
proof -
  note seg = inactive_segments [OF assms(1)]
  from st show "steps_left (run c') < steps_left (run c)"
  proof cases
    case (connecting a p f)
    then show ?thesis using seg(1) [of a] by simp
  next
    case (get_metadata s r p f)
    then show ?thesis using seg(2) [of s r] by simp
  next
    case (register s x p f)
    then show ?thesis using seg(3) [of s x] by simp
  next
    case (inner ini p f)
    then show ?thesis using seg(4) [of ini] by simp
  next
    case fed
    then show ?thesis using seg(5) by simp
  next
    case (check p f)
    then show ?thesis using seg(6) by simp
  qed (use assms(1) in simp_all)
  from st show "\<not> feeder_active (fd c')"
  proof cases
    case (connecting a p f)
    then show ?thesis using keeps_values_segments(1) [of "fd c" a] assms(1) by (auto simp: keeps_values_def)
  next
    case (get_metadata s r p f)
    then show ?thesis using keeps_values_segments(2) [of "fd c" s r] assms(1) by (auto simp: keeps_values_def)
  next
    case (register s x p f)
    then show ?thesis using keeps_values_segments(3) [of "fd c" s x] assms(1) by (auto simp: keeps_values_def)
  next
    case (inner ini p f)
    then show ?thesis using assms(1) by (auto simp: run_inner_def cleanup_def)
  next
    case (check p f)
    then show ?thesis using keeps_values_segments(4) [of "fd c"] assms(1) by (auto simp: keeps_values_def)
  qed (use assms(1) in \<open>auto simp: restoreValues_def dest: handleError_active\<close>)
qed

lemma steps_left_bound: "steps_left p \<le> 7"
  by (cases p) simp_all

text \<open>C21: After \<open>Shutdown\<close>, or an unrecoverable error, \<open>Run\<close> returns: its thread is never stuck, does not become active
  again, and every step of its own brings it closer to the return, at most 7 steps away.\<close>

theorem shutdown_terminates:
  assumes "\<not> feeder_active (fd c)" and "run c \<noteq> RunReturned"
  shows "(\<exists>c'. run_step c c') \<and>
    (\<forall>c'. run_step c c' \<longrightarrow> \<not> feeder_active (fd c') \<and> steps_left (run c') < steps_left (run c)) \<and>
    steps_left (run c) \<le> 7"
  using run_step_enabled [OF assms(2)] inactive_run_step [OF assms(1)] steps_left_bound [of "run c"] by blast

theorem shutdown_terminates_witness:
  "\<exists>c'. run_step (feeding_start demo_client [demo_dp]\<lparr>fd := Shutdown (fd (feeding_start demo_client [demo_dp]))\<rparr>) c' \<and>
     steps_left (run c') < 1"
proof -
  let ?c = "feeding_start demo_client [demo_dp]\<lparr>fd := Shutdown (fd (feeding_start demo_client [demo_dp]))\<rparr>"
  have "\<not> feeder_active (fd ?c)" "run ?c = RunTop" by (simp_all add: Shutdown_def) (simp add: feeding_start_def)
  with shutdown_terminates [of ?c] show ?thesis by auto
qed

lemma checkDatapoints_fold:
  "fold (\<lambda>dp result. case m (dp_name dp) of None \<Rightarrow> False
       | Some md \<Rightarrow> if dp_data_type dp \<noteq> md_data_type md then False else result) cfg r \<longleftrightarrow>
     r \<and> (\<forall>dp \<in> set cfg. \<exists>md. m (dp_name dp) = Some md \<and> md_data_type md = dp_data_type dp)"
  by (induction cfg arbitrary: r) (auto split: option.splits)

lemma map_of_fold_ids:
  "distinct (map fst ms) \<Longrightarrow> map_of (fold (\<lambda>(n, m). AList.update n (md_id m)) ms ids) n =
     (case map_of ms n of None \<Rightarrow> map_of ids n | Some m \<Rightarrow> Some (md_id m))"
proof (induction ms arbitrary: ids)
  case Nil
  show ?case by simp
next
  case (Cons nm ms)
  obtain k m where nm: "nm = (k, m)" by fastforce
  have k: "map_of ms k = None" using Cons.prems by (simp add: nm map_of_eq_None_iff)
  show ?case using Cons k by (auto simp: nm update_conv' split: option.split)
qed

text \<open>The check of the broker's metadata succeeds exactly if every configured datapoint is known with the
  configured type, and then every configured name gets the broker's id.\<close>

lemma register_known_spec:
  assumes "distinct (map fst (dp_meta f))"
  shows "(register_known f \<noteq> None \<longleftrightarrow>
      (\<forall>dp \<in> set (dp_config f). \<exists>md. map_of (dp_meta f) (dp_name dp) = Some md \<and> md_data_type md = dp_data_type dp)) \<and>
    (\<forall>g dp. register_known f = Some g \<and> dp \<in> set (dp_config f) \<longrightarrow>
      map_of (id_map g) (dp_name dp) = map_option md_id (map_of (dp_meta f) (dp_name dp)) \<and>
      map_of (id_map g) (dp_name dp) \<noteq> None)"
proof -
  have iff: "checkDatapoints f \<longleftrightarrow> (\<forall>dp \<in> set (dp_config f). \<exists>md.
      map_of (dp_meta f) (dp_name dp) = Some md \<and> md_data_type md = dp_data_type dp)"
    by (simp add: checkDatapoints_def checkDatapoints_fold)
  then show ?thesis
    by (auto simp: register_known_def map_of_fold_ids [OF assms] split: if_splits)
qed

text \<open>The request sent to the broker. With ids that belong to one name each, it assigns a value to an id exactly if a
  value to be fed has a name with this id; names without an id are left out.\<close>

lemma feed_request_spec:
  assumes "distinct (map fst vs)"
    and "\<And>n m i. map_of (id_map f) n = Some i \<Longrightarrow> map_of (id_map f) m = Some i \<Longrightarrow> n = m"
  shows "map_of (feed_request vs f) i = Some v \<longleftrightarrow>
    (\<exists>n. map_of (id_map f) n = Some i \<and> map_of vs n = Some v)"
proof -
  let ?add = "\<lambda>(n, v) req. case map_of (id_map f) n of None \<Rightarrow> req | Some i \<Rightarrow> AList.update i v req"
  have "map_of (fold ?add vs req) i = Some v \<longleftrightarrow>
      (\<exists>n. map_of (id_map f) n = Some i \<and> map_of vs n = Some v) \<or>
      (\<nexists>n. map_of (id_map f) n = Some i \<and> map_of vs n \<noteq> None) \<and> map_of req i = Some v" for req
    using assms(1)
  proof (induction vs arbitrary: req)
    case Nil
    show ?case by simp
  next
    case (Cons nv vs)
    obtain k w where nv: "nv = (k, w)" by fastforce
    have k: "map_of vs k = None" using Cons.prems by (simp add: nv map_of_eq_None_iff)
    show ?case
    proof (cases "map_of (id_map f) k = Some i")
      case True
      then have only: "map_of (id_map f) n = Some i \<Longrightarrow> n = k" for n using assms(2) by blast
      have none: "\<not> (map_of (id_map f) n = Some i \<and> map_of vs n = Some x)" for n x using only [of n] k by auto
      have "fold ?add (nv # vs) req = fold ?add vs (AList.update i w req)" using True by (simp add: nv)
      then have "map_of (fold ?add (nv # vs) req) i = Some v \<longleftrightarrow> w = v"
        using Cons.IH [of "AList.update i w req"] Cons.prems none by (auto simp: update_conv')
      moreover have "(\<exists>n. map_of (id_map f) n = Some i \<and> map_of (nv # vs) n = Some v) \<longleftrightarrow>
          map_of (nv # vs) k = Some v"
        using True only by metis
      moreover have "map_of (nv # vs) k = Some v \<longleftrightarrow> w = v" by (simp add: nv)
      moreover have "\<exists>n. map_of (id_map f) n = Some i \<and> map_of (nv # vs) n \<noteq> None"
        using True by (auto simp: nv)
      ultimately show ?thesis by blast
    next
      case False
      then have "map_of (id_map f) n = Some i \<Longrightarrow> map_of (nv # vs) n = map_of vs n" for n by (auto simp: nv)
      then have *: "(\<exists>n. map_of (id_map f) n = Some i \<and> P (map_of (nv # vs) n)) \<longleftrightarrow>
          (\<exists>n. map_of (id_map f) n = Some i \<and> P (map_of vs n))" for P
        by metis
      have "map_of (fold ?add (nv # vs) req) i = map_of (fold ?add vs (?add nv req)) i" by simp
      moreover have "map_of (?add nv req) i = map_of req i"
        using False by (auto simp: nv update_conv' split: option.split)
      ultimately show ?thesis
        using Cons.IH [of "?add nv req"] Cons.prems * [of "\<lambda>x. x = Some v"] * [of "\<lambda>x. x \<noteq> None"] by simp
    qed
  qed
  from this [of "[]"] show ?thesis by (simp add: feed_request_def)
qed

text \<open>C23: \<open>feedStoredValues\<close> as a whole. What is offered to the broker is the stored value of each name, and on demand the
  initial value of the names without one. If the broker accepts (even with errors for single datapoints), nothing stays stored; otherwise everything offered is stored
  again, the client is disconnected, and the feeder stops exactly for the three unrecoverable codes.\<close>

theorem feed_stored_values_spec:
  "\<exists>vs. map_of vs =
      map_of (if ini then map (\<lambda>dp. (dp_name dp, dp_initial_value dp)) (dp_config f) else []) ++ map_of (stored_values f) \<and>
    (let status = fst (update (feed_request vs f)); g = feedStoredValues update ini f in
     if status_ok status then g = f\<lparr>stored_values := []\<rparr>
     else map_of (stored_values g) = map_of vs \<and> \<not> connected (fd_client g) \<and>
       (feeder_active g \<longleftrightarrow> feeder_active f \<and>
          error_code status \<notin> {STATUS_INTERNAL, STATUS_UNAUTHENTICATED, STATUS_UNIMPLEMENTED}))"
proof -
  define vs where "vs = fst (feed_take ini f)"
  have o: "map_of vs =
      map_of (if ini then map (\<lambda>dp. (dp_name dp, dp_initial_value dp)) (dp_config f) else []) ++ map_of (stored_values f)"
    by (cases ini) (simp_all add: vs_def feed_take_values)
  have t: "feed_take ini f = (vs, f\<lparr>stored_values := []\<rparr>)"
    by (simp add: vs_def feed_take_def)
  have r: "feed_request vs (f\<lparr>stored_values := []\<rparr>) = feed_request vs f"
    by (simp add: feed_request_def)
  have eq: "feedStoredValues update ini f =
      (let status = fst (update (feed_request vs f)) in
       if status_ok status then f\<lparr>stored_values := []\<rparr>
       else restoreValues vs (handleError status (f\<lparr>stored_values := []\<rparr>)))"
    by (simp add: feedStoredValues_def feedToBroker_def t r Let_def split: prod.split)
  show ?thesis
    by (rule exI [of _ vs])
       (auto simp: o [symmetric] eq Let_def restoreValues_def map_of_fold_insert handleError_def SetDisconnected_def)
qed

end
