(* ===== verification/Seat_Service.thy ===== *)
theory Seat_Service
  imports Seats_Grpc_Service Data_Broker_Feeder
begin

text \<open>
  The parts of \<open>bin/seat_service\<close>: \<open>seat_data_feeder.cc\<close> (positions of the adjuster become datapoints),
  \<open>seat_position_subscriber.cc\<close> (actuator targets of the broker become movements) and the configuration
  part of \<open>main.cc\<close>. As in the gRPC service, the function \<open>SetSeatPosition\<close> of the adjuster is an argument.
\<close>

section \<open>SeatDataFeeder\<close>

definition position_datapoint :: "int \<Rightarrow> Datapoint" where
  "position_datapoint position_in_percent =
     (if 0 \<le> position_in_percent \<and> position_in_percent \<le> 100
      then uint32_value (of_int (position_in_percent * 10))
      else if position_in_percent = -1 then failure_value NOT_AVAILABLE
      else failure_value INVALID_VALUE)"

text \<open>The function the constructor subscribes with.\<close>

definition SeatDataFeeder_cb :: "string \<Rightarrow> int \<Rightarrow> DataBrokerFeederImpl \<Rightarrow> DataBrokerFeederImpl" where
  "SeatDataFeeder_cb seat_pos_name position_in_percent f =
     FeedValue seat_pos_name (position_datapoint position_in_percent) f"

text \<open>The constructor: a new feeder, and the subscription to the adjuster's positions; \<open>cb\<close> stands for the function above.\<close>

definition SeatDataFeeder_new ::
    "KuksaClient \<Rightarrow> DatapointConfiguration \<Rightarrow> nat \<Rightarrow> 'w SeatAdjusterImpl \<Rightarrow> DataBrokerFeederImpl \<times> 'w SeatAdjusterImpl" where
  "SeatDataFeeder_new client dpConfig cb a = (DataBrokerFeederImpl_new client dpConfig, SubscribePosition (Some cb) a)"

section \<open>SeatPositionSubscriber\<close>

text \<open>The number of the oneof member of a \<open>kuksa.val.v1\<close> value; \<open>sdv\<close>'s \<open>uint32_value\<close> has the same one.\<close>

definition kUint32Value :: int where "kUint32Value = 15"

record EntryUpdate =
  entry_path :: string
  target_value_case :: int
  target_uint32 :: u32

definition handle_update ::
    "string \<Rightarrow> (int \<Rightarrow> 's \<Rightarrow> SetResult \<times> 's) \<Rightarrow> EntryUpdate \<Rightarrow> 's \<Rightarrow> 's" where
  "handle_update seat_pos_name set_position update s =
     (if entry_path update = seat_pos_name then
        (if target_value_case update = kUint32Value then
           let position = target_uint32 update
           in if position < 0 \<or> 1000 < position then s
              else snd (set_position (uint ((position + 5) div 10)) s)
         else s)
      else s)"

text \<open>All responses of one subscription, each a list of updates.\<close>

definition handle_responses ::
    "string \<Rightarrow> (int \<Rightarrow> 's \<Rightarrow> SetResult \<times> 's) \<Rightarrow> EntryUpdate list list \<Rightarrow> 's \<Rightarrow> 's" where
  "handle_responses seat_pos_name set_position responses s =
     fold (fold (handle_update seat_pos_name set_position)) responses s"

text \<open>
  What one pass through the loop of \<open>Run\<close> sees: no connection, or a subscription with its responses
  and final status. The state: the flag \<open>running_\<close>, the local counter, whether there is a context.
\<close>

datatype sub_pass = NotConnected | Subscription "EntryUpdate list list" grpc_status

record 's subscriber =
  sub_running :: bool
  sub_failures :: nat
  sub_context :: bool
  sub_adjuster :: 's

definition subscriber_start :: "'s \<Rightarrow> 's subscriber" where
  "subscriber_start s = \<lparr> sub_running = True, sub_failures = 0, sub_context = False, sub_adjuster = s \<rparr>"

definition subscriber_pass ::
    "string \<Rightarrow> (int \<Rightarrow> 's \<Rightarrow> SetResult \<times> 's) \<Rightarrow> sub_pass \<Rightarrow> 's subscriber \<Rightarrow> 's subscriber" where
  "subscriber_pass seat_pos_name set_position p b =
     (case p of
        NotConnected \<Rightarrow> b
      | Subscription responses status \<Rightarrow>
          let b1 = b\<lparr>sub_context := True,
                sub_adjuster := handle_responses seat_pos_name set_position responses (sub_adjuster b)\<rparr>
          in if status_ok status then b1\<lparr>sub_failures := 0, sub_context := False\<rparr>
             else if error_code status = STATUS_NOT_FOUND then
               let b2 = b1\<lparr>sub_failures := sub_failures b1 + 1\<rparr>
               in if sub_failures b2 > 3 then b2\<lparr>sub_running := False\<rparr>
                  else b2\<lparr>sub_context := False\<rparr>
             else b1\<lparr>sub_context := False\<rparr>)"

fun subscriber_Run ::
    "string \<Rightarrow> (int \<Rightarrow> 's \<Rightarrow> SetResult \<times> 's) \<Rightarrow> sub_pass list \<Rightarrow> 's subscriber \<Rightarrow> 's subscriber" where
  "subscriber_Run n set_position [] b = b"
| "subscriber_Run n set_position (p # ps) b =
     (if sub_running b then subscriber_Run n set_position ps (subscriber_pass n set_position p b) else b)"

section \<open>main.cc\<close>

definition SEAT_POS_VSS_3 :: string where "SEAT_POS_VSS_3 = ''Vehicle.Cabin.Seat.Row1.Pos1.Position''"
definition SEAT_POS_VSS_4 :: string where "SEAT_POS_VSS_4 = ''Vehicle.Cabin.Seat.Row1.DriverSide.Position''"

text \<open>The numbers of \<open>DataType\<close> and \<open>ChangeType\<close> in \<open>types.proto\<close>.\<close>

definition UINT8 :: int where "UINT8 = 6"
definition UINT16 :: int where "UINT16 = 7"
definition UINT8_ARRAY :: int where "UINT8_ARRAY = 26"
definition CHANGE_STATIC :: int where "CHANGE_STATIC = 0"
definition ON_CHANGE :: int where "ON_CHANGE = 1"

definition metadata_4 :: DatapointConfiguration where
  "metadata_4 =
     [\<lparr> dp_name = SEAT_POS_VSS_4, dp_data_type = UINT16, dp_change_type = ON_CHANGE,
        dp_initial_value = createNotAvailableValue,
        dp_description = ''Seat position on vehicle x-axis. Position is relative to the frontmost position supported by the seat. 0 = Frontmost position supported.'' \<rparr>,
      \<lparr> dp_name = ''Vehicle.Cabin.SeatRowCount'', dp_data_type = UINT8, dp_change_type = CHANGE_STATIC,
        dp_initial_value = createDatapoint_uint32 2, dp_description = ''Number of seat rows in vehicle.'' \<rparr>,
      \<lparr> dp_name = ''Vehicle.Cabin.SeatPosCount'', dp_data_type = UINT8_ARRAY, dp_change_type = CHANGE_STATIC,
        dp_initial_value = createDatapoint_uint32_array [2, 3],
        dp_description = ''Number of seats across each row from the front to the rear.'' \<rparr>]"

definition metadata_3 :: DatapointConfiguration where
  "metadata_3 =
     [\<lparr> dp_name = SEAT_POS_VSS_3, dp_data_type = UINT16, dp_change_type = ON_CHANGE,
        dp_initial_value = createNotAvailableValue, dp_description = ''Longitudinal position of overall seat'' \<rparr>,
      \<lparr> dp_name = ''Vehicle.Cabin.SeatRowCount'', dp_data_type = UINT8, dp_change_type = CHANGE_STATIC,
        dp_initial_value = createDatapoint_uint32 2, dp_description = ''Number of rows of seats'' \<rparr>,
      \<lparr> dp_name = ''Vehicle.Cabin.SeatPosCount'', dp_data_type = UINT8_ARRAY, dp_change_type = CHANGE_STATIC,
        dp_initial_value = createDatapoint_uint32_array [2, 3],
        dp_description = ''Number of seats across each row from the front to the rear.'' \<rparr>]"

record run_setup =
  rs_metadata :: DatapointConfiguration
  rs_seat_pos_name :: string
  rs_can_if_name :: string
  rs_broker_addr :: string
  rs_server_address :: string

text \<open>The configuration part of \<open>Run()\<close>: what the objects it creates are given.\<close>

definition Run_setup :: "string \<Rightarrow> string \<Rightarrow> string \<Rightarrow> string \<Rightarrow> bool \<Rightarrow> run_setup process" where
  "Run_setup can_if_name listen_address port addr vss_4 =
     (let metadata = (if vss_4 then metadata_4 else metadata_3);
          seat_pos_name = (if vss_4 then SEAT_POS_VSS_4 else SEAT_POS_VSS_3)
      in if length metadata < 1 \<or> seat_pos_name \<noteq> dp_name (metadata ! 0) then Exit 1
         else Done \<lparr> rs_metadata = metadata, rs_seat_pos_name = seat_pos_name, rs_can_if_name = can_if_name,
           rs_broker_addr = addr, rs_server_address = listen_address @ '':'' @ port \<rparr>)"

text \<open>\<open>main()\<close> up to the call of \<open>Run()\<close>; the list is \<open>argv\<close>. A usage error returns 1, which is the exit code.\<close>

definition main_setup :: "environ \<Rightarrow> string list \<Rightarrow> run_setup process" where
  "main_setup env argv =
     (if length argv \<notin> {2, 3, 4} then Exit 1
      else
        let port = (if length argv = 4 then argv ! 3 else ''50051'');
            listen_address = (if length argv \<ge> 3 then argv ! 2 else ''localhost'');
            can_if_name = argv ! 1;
            addr = getEnvVar env ''BROKER_ADDR'' ''localhost:55555'';
            vss_val = getEnvVar env ''VSS'' ''4''
        in if vss_val = ''3'' then Run_setup can_if_name listen_address port addr False
           else if vss_val = ''4'' then Run_setup can_if_name listen_address port addr True
           else Exit 1)"

section \<open>Actuator targets\<close>

lemma target_percent:
  fixes position :: u32
  assumes "uint position \<le> 1000"
  shows "uint ((position + 5) div 10) = percent_of (uint position)"
proof -
  have "uint (position + 5) = uint position + 5"
    using assms by (simp add: uint_plus_if')
  then show ?thesis by (simp add: uint_div percent_of_def)
qed

text \<open>C25: An update moves the seat exactly if it is for the configured path, carries a \<open>uint32\<close> and is at most 1000; the
  adjuster is then called with the nearest percentage. Every other update is ignored.\<close>

theorem actuator_target_spec:
  "handle_update seat_pos_name set_position update s =
     (if entry_path update = seat_pos_name \<and> target_value_case update = 15 \<and> uint (target_uint32 update) \<le> 1000
      then snd (set_position (percent_of (uint (target_uint32 update))) s) else s)"
proof -
  have "1000 < target_uint32 update \<longleftrightarrow> 1000 < uint (target_uint32 update)"
    by (simp add: word_less_def)
  then show ?thesis
    by (auto simp: handle_update_def kUint32Value_def Let_def target_percent not_less)
qed

lemma position_datapoint_in_range:
  assumes "0 \<le> p" and "p \<le> 100"
  shows "position_datapoint p = uint32_value (of_int (p * 10))" "uint (of_int (p * 10) :: u32) = 10 * p"
proof -
  show "uint (of_int (p * 10) :: u32) = 10 * p"
    using assms take_bit_int_eq_self [of "p * 10" 32] by (simp only: uint_word_of_int_eq) simp
qed (use assms in \<open>simp add: position_datapoint_def\<close>)

text \<open>The scale of the broker. A position in percent is published as ten times itself, and a target with the published value
  moves the seat to that position.\<close>

lemma published_position_roundtrip:
  assumes "0 \<le> p" and "p \<le> 100"
  shows "\<exists>u. position_datapoint p = uint32_value u \<and> uint u = 10 * p \<and>
    handle_update n set_position \<lparr> entry_path = n, target_value_case = 15, target_uint32 = u \<rparr> s = snd (set_position p s)"
proof -
  note u = position_datapoint_in_range [OF assms]
  have "handle_update n set_position \<lparr> entry_path = n, target_value_case = 15, target_uint32 = of_int (p * 10) \<rparr> s =
      snd (set_position p s)"
    using assms u(2) target_percent [of "of_int (p * 10)"]
    by (simp add: handle_update_def kUint32Value_def Let_def word_less_def)
  then show ?thesis using u assms by simp
qed

section \<open>When the subscriber gives up\<close>

fun pass_ok :: "sub_pass \<Rightarrow> bool" where
  "pass_ok NotConnected = False"
| "pass_ok (Subscription _ st) = status_ok st"

fun pass_not_found :: "sub_pass \<Rightarrow> bool" where
  "pass_not_found NotConnected = False"
| "pass_not_found (Subscription _ st) = (error_code st = STATUS_NOT_FOUND)"

text \<open>The passes that ended with \<open>NOT_FOUND\<close> since the last one that ended well.\<close>

definition not_found_since_ok :: "sub_pass list \<Rightarrow> nat" where
  "not_found_since_ok ps = length (filter pass_not_found (takeWhile (\<lambda>p. \<not> pass_ok p) (rev ps)))"

lemma not_found_since_ok_snoc:
  "not_found_since_ok (ps @ [p]) =
     (if pass_ok p then 0 else not_found_since_ok ps + (if pass_not_found p then 1 else 0))"
  by (simp add: not_found_since_ok_def)

lemma subscriber_Run_snoc:
  "subscriber_Run n set_position (ps @ [p]) b =
     (let b' = subscriber_Run n set_position ps b
      in if sub_running b' then subscriber_pass n set_position p b' else b')"
  by (induction ps arbitrary: b) (simp_all add: Let_def)

lemma subscriber_pass_counts:
  assumes "sub_running b"
  shows "sub_running (subscriber_pass n set_position p b) \<longleftrightarrow> \<not> (pass_not_found p \<and> sub_failures b \<ge> 3)"
    and "sub_failures (subscriber_pass n set_position p b) =
      (if pass_ok p then 0 else sub_failures b + (if pass_not_found p then 1 else 0))"
  using assms
  by (cases p; auto simp: subscriber_pass_def Let_def status_ok_def STATUS_defs)+

text \<open>The subscriber stops by itself exactly when a fourth subscription has ended with \<open>NOT_FOUND\<close> since the last one that
  ended well; missing connections and other errors never stop it and do not reset the count.\<close>

lemma subscriber_gives_up:
  "sub_running (subscriber_Run n set_position ps (subscriber_start s)) \<longleftrightarrow>
     (\<forall>k \<le> length ps. not_found_since_ok (take k ps) \<le> 3)"
proof -
  let ?run = "\<lambda>ps. subscriber_Run n set_position ps (subscriber_start s)"
  have "(sub_running (?run ps) \<longleftrightarrow> (\<forall>k \<le> length ps. not_found_since_ok (take k ps) \<le> 3)) \<and>
      (sub_running (?run ps) \<longrightarrow> sub_failures (?run ps) = not_found_since_ok ps)"
  proof (induction ps rule: rev_induct)
    case Nil
    show ?case by (simp add: subscriber_start_def not_found_since_ok_def)
  next
    case (snoc p ps)
    have all: "(\<forall>k \<le> length (ps @ [p]). not_found_since_ok (take k (ps @ [p])) \<le> 3) \<longleftrightarrow>
        (\<forall>k \<le> length ps. not_found_since_ok (take k ps) \<le> 3) \<and> not_found_since_ok (ps @ [p]) \<le> 3"
      by (auto simp: le_Suc_eq)
    have last: "sub_running (?run ps) \<Longrightarrow> not_found_since_ok ps \<le> 3"
      using snoc.IH by (metis le_refl take_all)
    show ?case
    proof (cases "sub_running (?run ps)")
      case True
      have ok: "pass_ok p \<Longrightarrow> \<not> pass_not_found p" by (cases p) (auto simp: status_ok_def STATUS_defs)
      show ?thesis
        using True snoc.IH last [OF True] all subscriber_pass_counts [OF True, of n set_position p] ok
        by (simp add: subscriber_Run_snoc Let_def not_found_since_ok_snoc) linarith
    next
      case False
      then have "?run (ps @ [p]) = ?run ps" by (simp add: subscriber_Run_snoc Let_def)
      then show ?thesis using False snoc.IH all by metis
    qed
  qed
  then show ?thesis by blast
qed

section \<open>Start-up\<close>

text \<open>\<open>main\<close> starts the service exactly for one to three arguments and a \<open>VSS\<close> of 3 or 4 (4 if unset). The run time check of
  the metadata never fails: the first datapoint is the seat position of the chosen VSS version, and it starts
  as not available.\<close>

lemma main_setup_spec:
  "case main_setup env argv of
     Done r \<Rightarrow> length argv \<in> {2, 3, 4} \<and> getEnvVar env ''VSS'' ''4'' \<in> {''3'', ''4''} \<and>
       rs_can_if_name r = argv ! 1 \<and> rs_metadata r \<noteq> [] \<and> dp_name (hd (rs_metadata r)) = rs_seat_pos_name r \<and>
       dp_initial_value (hd (rs_metadata r)) = failure_value NOT_AVAILABLE \<and>
       (rs_seat_pos_name r = SEAT_POS_VSS_3 \<longleftrightarrow> getEnvVar env ''VSS'' ''4'' = ''3'') \<and>
       distinct (map dp_name (rs_metadata r))
   | Exit rc \<Rightarrow> rc = 1 \<and> \<not> (length argv \<in> {2, 3, 4} \<and> getEnvVar env ''VSS'' ''4'' \<in> {''3'', ''4''})"
  by (auto simp: main_setup_def Run_setup_def metadata_3_def metadata_4_def SEAT_POS_VSS_3_def SEAT_POS_VSS_4_def
      createNotAvailableValue_def Let_def)

end
