(* ===== verification/Service_Process.thy ===== *)
theory Service_Process
  imports Seat_Service
begin

text \<open>
  The process of the seat service: the threads that \<open>Run()\<close> of \<open>main.cc\<close> starts and joins, interleaved. The feeder thread is the
  step relation of \<open>Data_Broker_Feeder\<close>; the subscriber thread is \<open>seat_position_subscriber.cc\<close> cut at its blocking
  calls, so that \<open>Shutdown()\<close> can meet it anywhere; the main thread creates both, waits for a signal, shuts
  down and joins. What the broker and the gRPC server answer is arbitrary.
\<close>

section \<open>The subscriber thread\<close>

text \<open>
  Where the thread stands: not created, created (before \<open>running_ = true\<close>), at the head of the loop, waiting for a connection,
  connected (before the context exists), reading the stream, asleep after an error, before the context is
  dropped, returned.
\<close>

datatype sub_pc =
    SubNone
  | SubCreated
  | SubTop
  | SubConnecting
  | SubConnected
  | SubReading
  | SubSleep
  | SubClear
  | SubReturned

text \<open>\<open>sub_cancelled\<close>: the current context has been cancelled.\<close>

record 's sub_thread =
  sb :: "'s subscriber"
  sub_at :: sub_pc
  sub_cancelled :: bool

definition sub_goto :: "sub_pc \<Rightarrow> 's subscriber \<Rightarrow> 's sub_thread \<Rightarrow> 's sub_thread" where
  "sub_goto p b t = t\<lparr>sb := b, sub_at := p\<rparr>"

lemma sub_goto_simps [simp]:
  "sb (sub_goto p b t) = b" "sub_at (sub_goto p b t) = p" "sub_cancelled (sub_goto p b t) = sub_cancelled t"
  by (simp_all add: sub_goto_def)

definition SeatPositionSubscriber_new :: "'s \<Rightarrow> 's sub_thread" where
  "SeatPositionSubscriber_new s =
     \<lparr> sb = \<lparr> sub_running = False, sub_failures = 0, sub_context = False, sub_adjuster = s \<rparr>, sub_at = SubNone,
       sub_cancelled = False \<rparr>"

text \<open>The end of a stream: \<open>Finish()\<close> and what follows up to the next blocking call.\<close>

definition sub_finish :: "grpc_status \<Rightarrow> 's subscriber \<Rightarrow> sub_pc \<times> 's subscriber" where
  "sub_finish status b =
     (if status_ok status then (SubClear, b\<lparr>sub_failures := 0\<rparr>)
      else if error_code status = STATUS_NOT_FOUND then
        let b1 = b\<lparr>sub_failures := sub_failures b + 1\<rparr>
        in if sub_failures b1 > 3 then (SubReturned, b1\<lparr>sub_running := False\<rparr>) else (SubSleep, b1)
      else (SubSleep, b))"

text \<open>
  The steps of \<open>Run()\<close>. \<open>drains\<close> says whether a stream may still deliver responses after its context was
  cancelled. The waiting step gets the answer of \<open>WaitForConnected\<close>, which it also leaves in the shared client.
\<close>

inductive sub_step :: "bool \<Rightarrow> string \<Rightarrow> (int \<Rightarrow> 's \<Rightarrow> SetResult \<times> 's) \<Rightarrow> bool option \<Rightarrow> 's sub_thread \<Rightarrow> 's sub_thread \<Rightarrow> bool"
  for drains :: bool and name :: string and set_position :: "int \<Rightarrow> 's \<Rightarrow> SetResult \<times> 's" where
  sub_start: "sub_at t = SubCreated \<Longrightarrow>
    sub_step drains name set_position None t (sub_goto SubTop ((sb t)\<lparr>sub_running := True, sub_failures := 0\<rparr>) t)"
| sub_top: "sub_at t = SubTop \<Longrightarrow>
    sub_step drains name set_position None t (sub_goto (if sub_running (sb t) then SubConnecting else SubReturned) (sb t) t)"
| sub_connect: "sub_at t = SubConnecting \<Longrightarrow>
    sub_step drains name set_position (Some answer) t (sub_goto (if answer then SubConnected else SubTop) (sb t) t)"
| sub_create: "sub_at t = SubConnected \<Longrightarrow>
    sub_step drains name set_position None t ((sub_goto SubReading ((sb t)\<lparr>sub_context := True\<rparr>) t)\<lparr>sub_cancelled := False\<rparr>)"
| sub_response: "sub_at t = SubReading \<Longrightarrow> sub_cancelled t \<longrightarrow> drains \<Longrightarrow>
    sub_step drains name set_position None t
      (sub_goto SubReading ((sb t)\<lparr>sub_adjuster := fold (handle_update name set_position) updates (sub_adjuster (sb t))\<rparr>) t)"
| sub_end: "sub_at t = SubReading \<Longrightarrow> sub_finish status (sb t) = (p, b) \<Longrightarrow>
    sub_step drains name set_position None t (sub_goto p b t)"
| sub_slept: "sub_at t = SubSleep \<Longrightarrow> sub_step drains name set_position None t (sub_goto SubClear (sb t) t)"
| sub_clear: "sub_at t = SubClear \<Longrightarrow>
    sub_step drains name set_position None t (sub_goto SubTop ((sb t)\<lparr>sub_context := False\<rparr>) t)"

text \<open>\<open>Shutdown()\<close>, its two statements.\<close>

definition subscriber_stop :: "'s sub_thread \<Rightarrow> 's sub_thread" where
  "subscriber_stop t = t\<lparr>sb := (sb t)\<lparr>sub_running := False\<rparr>\<rparr>"

definition subscriber_cancel :: "'s sub_thread \<Rightarrow> 's sub_thread" where
  "subscriber_cancel t = (if sub_context (sb t) then t\<lparr>sub_cancelled := True\<rparr> else t)"

section \<open>The process\<close>

text \<open>
  The main thread in \<open>Run()\<close>: before it starts the two threads, before it builds the server, before the signal handler is set up,
  waiting for a signal, before each of the shutdown calls, in the two joins, returned; or the process has exited.
\<close>

datatype main_pc =
    MainStartFeeder
  | MainStartSubscriber
  | MainBuildServer
  | MainSetupSignals
  | MainWaitSignal
  | MainShutFeeder
  | MainStopSubscriber
  | MainCancelSubscriber
  | MainShutServer
  | MainJoinSubscriber
  | MainJoinFeeder
  | MainReturned
  | MainExited

record 's service =
  sv_feed :: feeding
  sv_feeder_thread :: bool
  sv_sub :: "'s sub_thread"
  sv_server :: bool
  sv_main :: main_pc

definition service_start :: "KuksaClient \<Rightarrow> run_setup \<Rightarrow> 's \<Rightarrow> 's service" where
  "service_start client rs s =
     \<lparr> sv_feed = feeding_start client (rs_metadata rs), sv_feeder_thread = False, sv_sub = SeatPositionSubscriber_new s,
       sv_server = False, sv_main = MainStartFeeder \<rparr>"

text \<open>The steps of the main thread. \<open>BuildAndStart\<close> may fail, and so may the set-up of the signal handler.\<close>

inductive main_step :: "'s service \<Rightarrow> 's service \<Rightarrow> bool" where
  start_feeder: "sv_main c = MainStartFeeder \<Longrightarrow> main_step c (c\<lparr>sv_feeder_thread := True, sv_main := MainStartSubscriber\<rparr>)"
| start_subscriber: "sv_main c = MainStartSubscriber \<Longrightarrow>
    main_step c (c\<lparr>sv_sub := (sv_sub c)\<lparr>sub_at := SubCreated\<rparr>, sv_main := MainBuildServer\<rparr>)"
| build_server: "sv_main c = MainBuildServer \<Longrightarrow>
    main_step c (c\<lparr>sv_server := ok, sv_main := (if ok then MainSetupSignals else MainShutFeeder)\<rparr>)"
| setup_signals: "sv_main c = MainSetupSignals \<Longrightarrow>
    main_step c (c\<lparr>sv_main := (if ok then MainWaitSignal else MainExited)\<rparr>)"
| signalled: "sv_main c = MainWaitSignal \<Longrightarrow> main_step c (c\<lparr>sv_main := MainShutFeeder\<rparr>)"
| shut_feeder: "sv_main c = MainShutFeeder \<Longrightarrow>
    main_step c (c\<lparr>sv_feed := (sv_feed c)\<lparr>fd := Shutdown (fd (sv_feed c))\<rparr>, sv_main := MainStopSubscriber\<rparr>)"
| stop_subscriber: "sv_main c = MainStopSubscriber \<Longrightarrow>
    main_step c (c\<lparr>sv_sub := subscriber_stop (sv_sub c), sv_main := MainCancelSubscriber\<rparr>)"
| cancel_subscriber: "sv_main c = MainCancelSubscriber \<Longrightarrow>
    main_step c (c\<lparr>sv_sub := subscriber_cancel (sv_sub c),
      sv_main := (if sv_server c then MainShutServer else MainJoinSubscriber)\<rparr>)"
| shut_server: "sv_main c = MainShutServer \<Longrightarrow> main_step c (c\<lparr>sv_main := MainJoinSubscriber\<rparr>)"
| join_subscriber: "sv_main c = MainJoinSubscriber \<Longrightarrow> sub_at (sv_sub c) = SubReturned \<Longrightarrow>
    main_step c (c\<lparr>sv_main := MainJoinFeeder\<rparr>)"
| join_feeder: "sv_main c = MainJoinFeeder \<Longrightarrow> run (sv_feed c) = RunReturned \<Longrightarrow>
    main_step c (c\<lparr>sv_main := MainReturned\<rparr>)"

text \<open>A step of one of the three threads.\<close>

inductive thread_step :: "bool \<Rightarrow> string \<Rightarrow> (int \<Rightarrow> 's \<Rightarrow> SetResult \<times> 's) \<Rightarrow> 's service \<Rightarrow> 's service \<Rightarrow> bool"
  for drains :: bool and name :: string and set_position :: "int \<Rightarrow> 's \<Rightarrow> SetResult \<times> 's" where
  by_main: "main_step c c' \<Longrightarrow> thread_step drains name set_position c c'"
| by_feeder: "sv_feeder_thread c \<Longrightarrow> run_step (sv_feed c) f \<Longrightarrow> thread_step drains name set_position c (c\<lparr>sv_feed := f\<rparr>)"
| by_subscriber: "sub_step drains name set_position None (sv_sub c) t \<Longrightarrow>
    thread_step drains name set_position c (c\<lparr>sv_sub := t\<rparr>)"
| by_subscriber_client: "sub_step drains name set_position (Some answer) (sv_sub c) t \<Longrightarrow>
    thread_step drains name set_position c (c\<lparr>sv_sub := t,
      sv_feed := (sv_feed c)\<lparr>fd := (fd (sv_feed c))\<lparr>fd_client := snd (WaitForConnected answer (fd_client (fd (sv_feed c))))\<rparr>\<rparr>\<rparr>)"

text \<open>
  The rest of the process: the CTL thread reports a position, which the data feeder passes on (perhaps having read
  \<open>feeder_active_\<close> before the shutdown), and gRPC calls or frames change the adjuster.
\<close>

inductive outside_step :: "string \<Rightarrow> 's service \<Rightarrow> 's service \<Rightarrow> bool" for name :: string where
  reported: "outside_step name c (c\<lparr>sv_feed := (sv_feed c)\<lparr>fd := SeatDataFeeder_cb name p (fd (sv_feed c)),
      latest := (if feeder_active (fd (sv_feed c)) then (latest (sv_feed c))(name \<mapsto> position_datapoint p) else latest (sv_feed c))\<rparr>\<rparr>)"
| reported_late: "\<not> feeder_active (fd (sv_feed c)) \<Longrightarrow>
    outside_step name c (c\<lparr>sv_feed := (sv_feed c)\<lparr>fd := storeValue name (position_datapoint p) (fd (sv_feed c))\<rparr>\<rparr>)"
| moved: "outside_step name c (c\<lparr>sv_sub := (sv_sub c)\<lparr>sb := (sb (sv_sub c))\<lparr>sub_adjuster := s\<rparr>\<rparr>\<rparr>)"

definition service_step :: "bool \<Rightarrow> string \<Rightarrow> (int \<Rightarrow> 's \<Rightarrow> SetResult \<times> 's) \<Rightarrow> 's service \<Rightarrow> 's service \<Rightarrow> bool" where
  "service_step drains name set_position c c' \<longleftrightarrow> thread_step drains name set_position c c' \<or> outside_step name c c'"

inductive_cases main_stepE: "main_step c c'"
inductive_cases thread_stepE: "thread_step drains name set_position c c'"
inductive_cases outside_stepE: "outside_step name c c'"
inductive_cases sub_stepE: "sub_step drains name set_position a t t'"

section \<open>The loop of the subscriber as a path\<close>

definition sub_steps :: "bool \<Rightarrow> string \<Rightarrow> (int \<Rightarrow> 's \<Rightarrow> SetResult \<times> 's) \<Rightarrow> 's sub_thread \<Rightarrow> 's sub_thread \<Rightarrow> bool" where
  "sub_steps drains name set_position = (\<lambda>t t'. \<exists>a. sub_step drains name set_position a t t')\<^sup>*\<^sup>*"

lemma sub_steps_refl [intro]: "sub_steps d n f t t"
  by (simp add: sub_steps_def)

lemma sub_steps_step: "sub_step d n f a t u \<Longrightarrow> sub_steps d n f u v \<Longrightarrow> sub_steps d n f t v"
  unfolding sub_steps_def by (rule converse_rtranclp_into_rtranclp) auto

lemma sub_steps_trans: "sub_steps d n f t u \<Longrightarrow> sub_steps d n f u v \<Longrightarrow> sub_steps d n f t v"
  unfolding sub_steps_def by (rule rtranclp_trans)

lemma sub_thread_eqI:
  "sb t = sb u \<Longrightarrow> sub_at t = sub_at u \<Longrightarrow> sub_cancelled t = sub_cancelled u \<Longrightarrow> t = (u :: 's sub_thread)"
  by simp

lemma responses_path:
  assumes "sub_at t = SubReading" and "\<not> sub_cancelled t"
  shows "sub_steps d n f t (t\<lparr>sb := (sb t)\<lparr>sub_adjuster := handle_responses n f rs (sub_adjuster (sb t))\<rparr>\<rparr>)"
  using assms
proof (induction rs arbitrary: t)
  case Nil
  show ?case by (simp add: handle_responses_def sub_steps_refl)
next
  case (Cons r rs)
  let ?u = "sub_goto SubReading ((sb t)\<lparr>sub_adjuster := fold (handle_update n f) r (sub_adjuster (sb t))\<rparr>) t"
  have "sub_step d n f None t ?u" using Cons.prems by (intro sub_response) simp_all
  moreover have "sub_steps d n f ?u (?u\<lparr>sb := (sb ?u)\<lparr>sub_adjuster := handle_responses n f rs (sub_adjuster (sb ?u))\<rparr>\<rparr>)"
    using Cons.prems by (intro Cons.IH) simp_all
  moreover have "?u\<lparr>sb := (sb ?u)\<lparr>sub_adjuster := handle_responses n f rs (sub_adjuster (sb ?u))\<rparr>\<rparr> =
      t\<lparr>sb := (sb t)\<lparr>sub_adjuster := handle_responses n f (r # rs) (sub_adjuster (sb t))\<rparr>\<rparr>"
    using Cons.prems by (simp add: handle_responses_def sub_goto_def)
  ultimately show ?case by (simp add: sub_steps_step)
qed

text \<open>The head of the loop, or the return once \<open>running_\<close> is cleared by the thread itself.\<close>

definition at_head :: "'s sub_thread \<Rightarrow> bool" where
  "at_head t \<longleftrightarrow> sub_at t = (if sub_running (sb t) then SubTop else SubReturned)"

lemma finish_path:
  assumes "sub_at t = SubReading" and "sub_context (sb t)" and "sub_running (sb t)"
  shows "\<exists>t'. sub_steps d n f t t' \<and> at_head t' \<and> sb t' = (if status_ok st then (sb t)\<lparr>sub_failures := 0, sub_context := False\<rparr>
    else if error_code st = STATUS_NOT_FOUND then
      (if sub_failures (sb t) \<ge> 3 then (sb t)\<lparr>sub_failures := sub_failures (sb t) + 1, sub_running := False\<rparr>
       else (sb t)\<lparr>sub_failures := sub_failures (sb t) + 1, sub_context := False\<rparr>)
    else (sb t)\<lparr>sub_context := False\<rparr>)"
proof -
  obtain p b where f: "sub_finish st (sb t) = (p, b)" by fastforce
  have e: "sub_step d n f None t (sub_goto p b t)" using assms(1) f by (rule sub_end)
  have clear: "sub_steps d n f (sub_goto SubClear b u) (sub_goto SubTop (b\<lparr>sub_context := False\<rparr>) u)" for b u
    using sub_clear [of "sub_goto SubClear b u" d n f] sub_steps_step sub_steps_refl
    by (fastforce simp: sub_goto_def)
  have slept: "sub_steps d n f (sub_goto SubSleep b u) (sub_goto SubTop (b\<lparr>sub_context := False\<rparr>) u)" for b u
    using sub_slept [of "sub_goto SubSleep b u" d n f] sub_steps_step [OF _ clear] by (fastforce simp: sub_goto_def)
  consider "p = SubClear" "b = (sb t)\<lparr>sub_failures := 0\<rparr>" "status_ok st"
    | "p = SubSleep" "b = (sb t)\<lparr>sub_failures := sub_failures (sb t) + 1\<rparr>" "\<not> status_ok st"
        "error_code st = STATUS_NOT_FOUND" "sub_failures (sb t) < 3"
    | "p = SubReturned" "b = (sb t)\<lparr>sub_failures := sub_failures (sb t) + 1, sub_running := False\<rparr>" "\<not> status_ok st"
        "error_code st = STATUS_NOT_FOUND" "3 \<le> sub_failures (sb t)"
    | "p = SubSleep" "b = sb t" "\<not> status_ok st" "error_code st \<noteq> STATUS_NOT_FOUND"
    using f by (auto simp: sub_finish_def Let_def split: if_splits)
  then show ?thesis
  proof cases
    case 1
    then show ?thesis
      using sub_steps_step [OF e] clear [of b t] assms(3)
      by (intro exI [of _ "sub_goto SubTop (b\<lparr>sub_context := False\<rparr>) t"]) (simp add: at_head_def)
  next
    case 3
    then show ?thesis
      using sub_steps_step [OF e] by (intro exI [of _ "sub_goto p b t"]) (auto simp: at_head_def)
  qed (use sub_steps_step [OF e] slept [of b t] assms(3) in
      \<open>(intro exI [of _ "sub_goto SubTop (b\<lparr>sub_context := False\<rparr>) t"], simp add: at_head_def)+\<close>)
qed

lemma pass_path:
  assumes "sub_at t = SubTop" and "sub_running (sb t)" and "\<not> sub_context (sb t)"
  shows "\<exists>t'. sub_steps d n f t t' \<and> at_head t' \<and> sb t' = subscriber_pass n f p (sb t)"
proof (cases p)
  let ?u = "sub_goto SubConnecting (sb t) t"
  have top: "sub_step d n f None t ?u" using sub_top [OF assms(1), of d n f] assms(2) by simp
  {
    case NotConnected
    have "sub_step d n f (Some False) ?u (sub_goto SubTop (sb t) ?u)"
      using sub_connect [of ?u d n f False] by simp
    then have "sub_steps d n f t (sub_goto SubTop (sb t) ?u)"
      using top by (meson sub_steps_step sub_steps_refl)
    then show ?thesis
      using assms(2) NotConnected
      by (intro exI [of _ "sub_goto SubTop (sb t) ?u"]) (simp add: at_head_def subscriber_pass_def)
  next
    case (Subscription rs st)
    let ?v = "sub_goto SubConnected (sb t) ?u"
    let ?w = "(sub_goto SubReading ((sb t)\<lparr>sub_context := True\<rparr>) ?v)\<lparr>sub_cancelled := False\<rparr>"
    let ?x = "?w\<lparr>sb := (sb ?w)\<lparr>sub_adjuster := handle_responses n f rs (sub_adjuster (sb ?w))\<rparr>\<rparr>"
    have "sub_step d n f (Some True) ?u ?v" "sub_step d n f None ?v ?w"
      using sub_connect [of ?u d n f True] sub_create [of ?v d n f] by simp_all
    moreover have "sub_steps d n f ?w ?x" by (rule responses_path) (simp_all add: sub_goto_def)
    moreover obtain t' where t': "sub_steps d n f ?x t'" "at_head t'"
      "sb t' = (if status_ok st then (sb ?x)\<lparr>sub_failures := 0, sub_context := False\<rparr>
        else if error_code st = STATUS_NOT_FOUND then
          (if sub_failures (sb ?x) \<ge> 3 then (sb ?x)\<lparr>sub_failures := sub_failures (sb ?x) + 1, sub_running := False\<rparr>
           else (sb ?x)\<lparr>sub_failures := sub_failures (sb ?x) + 1, sub_context := False\<rparr>)
        else (sb ?x)\<lparr>sub_context := False\<rparr>)"
      using finish_path [of ?x d n f st] assms(2) by (auto simp: sub_goto_def)
    ultimately have "sub_steps d n f t t'"
      using top by (meson sub_steps_step sub_steps_trans)
    moreover have "sb t' = subscriber_pass n f p (sb t)"
      using t'(3) Subscription by (simp add: subscriber_pass_def Let_def sub_goto_def)
    ultimately show ?thesis using t'(2) by blast
  }
qed

lemma pass_context:
  "\<not> sub_context b \<Longrightarrow> sub_running (subscriber_pass n f p b) \<Longrightarrow> \<not> sub_context (subscriber_pass n f p b)"
  by (cases p) (auto simp: subscriber_pass_def Let_def split: if_splits)

lemma run_path:
  assumes "at_head t" and "\<not> sub_context (sb t)"
  shows "\<exists>t'. sub_steps d n f t t' \<and> at_head t' \<and> sb t' = subscriber_Run n f ps (sb t)"
  using assms
proof (induction ps arbitrary: t)
  case Nil
  then show ?case by auto
next
  case (Cons p ps)
  show ?case
  proof (cases "sub_running (sb t)")
    case True
    then obtain u where u: "sub_steps d n f t u" "at_head u" "sb u = subscriber_pass n f p (sb t)"
      using pass_path [of t d n f p] Cons.prems by (auto simp: at_head_def)
    show ?thesis
    proof (cases "sub_running (sb u)")
      case running: True
      with Cons.IH [OF u(2)] u Cons.prems(2) pass_context [of "sb t" n f p] obtain t' where
        "sub_steps d n f u t'" "at_head t'" "sb t' = subscriber_Run n f ps (sb u)" by auto
      then show ?thesis using u True by (auto intro: sub_steps_trans)
    next
      case False
      then have "subscriber_Run n f ps (sb u) = sb u" by (cases ps) simp_all
      then show ?thesis using u True by auto
    qed
  qed (use Cons.prems in auto)
qed

text \<open>The loop of the subscriber as a function of the outcomes of its subscriptions is a path of the thread's step relation, in
  which a shutdown or another thread can intervene between any two blocking calls: started, the thread can go
  through any sequence of outcomes, and then stands at the head of the loop or has returned.\<close>

lemma subscriber_run_refines_steps:
  assumes "sub_at t = SubCreated" and "\<not> sub_context (sb t)"
  shows "\<exists>t'. sub_steps drains name set_position t t' \<and>
    sb t' = subscriber_Run name set_position ps (subscriber_start (sub_adjuster (sb t))) \<and>
    sub_at t' = (if sub_running (sb t') then SubTop else SubReturned)"
proof -
  let ?u = "sub_goto SubTop ((sb t)\<lparr>sub_running := True, sub_failures := 0\<rparr>) t"
  have "sub_step drains name set_position None t ?u" using assms(1) by (rule sub_start)
  moreover have "sb ?u = subscriber_start (sub_adjuster (sb t))" using assms(2) by (simp add: subscriber_start_def)
  moreover obtain t' where "sub_steps drains name set_position ?u t'" "at_head t'"
    "sb t' = subscriber_Run name set_position ps (sb ?u)"
    using run_path [of ?u drains name set_position ps] assms(2) by (auto simp: at_head_def)
  ultimately show ?thesis by (auto simp: at_head_def intro!: exI [of _ t'] intro: sub_steps_step)
qed

section \<open>Shutting down\<close>

fun sub_left :: "sub_pc \<Rightarrow> nat" where
  "sub_left SubReturned = 0"
| "sub_left SubTop = 1"
| "sub_left SubClear = 2"
| "sub_left SubSleep = 3"
| "sub_left SubReading = 4"
| "sub_left _ = 5"

fun main_left :: "main_pc \<Rightarrow> nat" where
  "main_left MainReturned = 0"
| "main_left MainJoinFeeder = 1"
| "main_left MainJoinSubscriber = 2"
| "main_left MainShutServer = 3"
| "main_left _ = 4"

definition shutdown_left :: "'s service \<Rightarrow> nat" where
  "shutdown_left c = main_left (sv_main c) + sub_left (sub_at (sv_sub c)) + steps_left (run (sv_feed c))"

text \<open>After the shutdown calls: the feeder is inactive, and the subscriber reads only from a cancelled stream.\<close>

definition orderly :: "'s service \<Rightarrow> bool" where
  "orderly c \<longleftrightarrow>
     sv_main c \<in> {MainShutServer, MainJoinSubscriber, MainJoinFeeder, MainReturned} \<and> sv_feeder_thread c \<and>
     \<not> feeder_active (fd (sv_feed c)) \<and> \<not> sub_running (sb (sv_sub c)) \<and>
     (sub_at (sv_sub c) \<in> {SubTop, SubSleep, SubClear, SubReturned} \<or>
      sub_at (sv_sub c) = SubReading \<and> sub_cancelled (sv_sub c)) \<and>
     (sv_main c \<in> {MainJoinFeeder, MainReturned} \<longrightarrow> sub_at (sv_sub c) = SubReturned) \<and>
     (sv_main c = MainReturned \<longrightarrow> run (sv_feed c) = RunReturned)"

lemma orderly_main:
  assumes "orderly c" and "main_step c c'"
  shows "orderly c'" and "shutdown_left c' < shutdown_left c"
  using assms(2,1) by (cases; simp add: orderly_def shutdown_left_def)+

lemma orderly_subscriber:
  assumes "orderly c" and "sub_step False name set_position a (sv_sub c) t"
  shows "a = None" and "\<not> sub_running (sb t)"
    and "sub_at t \<in> {SubTop, SubSleep, SubClear, SubReturned} \<or> sub_at t = SubReading \<and> sub_cancelled t"
    and "sub_left (sub_at t) < sub_left (sub_at (sv_sub c))"
  using assms(2,1) by (cases; auto simp: orderly_def sub_finish_def Let_def split: if_splits)+

lemma orderly_thread:
  assumes "orderly c" and "thread_step False name set_position c c'"
  shows "orderly c' \<and> shutdown_left c' < shutdown_left c"
  using assms(2)
proof cases
  case by_main
  then show ?thesis using orderly_main [OF assms(1)] by simp
next
  case (by_feeder f)
  have "\<not> feeder_active (fd (sv_feed c))" using assms(1) by (simp add: orderly_def)
  from inactive_run_step [OF this by_feeder(3)] assms(1) by_feeder(1) show ?thesis
    by (auto simp: orderly_def shutdown_left_def)
next
  case (by_subscriber t)
  have "sub_at (sv_sub c) \<noteq> SubReturned" using orderly_subscriber(4) [OF assms(1) by_subscriber(2)] by auto
  then show ?thesis
    using assms(1) orderly_subscriber [OF assms(1) by_subscriber(2)] by_subscriber(1)
    by (auto simp: orderly_def shutdown_left_def)
next
  case (by_subscriber_client answer t)
  from orderly_subscriber(1) [OF assms(1) by_subscriber_client(2)] show ?thesis by simp
qed

lemma orderly_outside:
  assumes "orderly c" and "outside_step name c c'"
  shows "orderly c' \<and> shutdown_left c' = shutdown_left c"
  using assms(2,1) by cases (simp_all add: orderly_def shutdown_left_def SeatDataFeeder_cb_def FeedValue_def)

lemma orderly_enabled:
  assumes "orderly c" and "sv_main c \<noteq> MainReturned"
  shows "\<exists>c'. thread_step False name set_position c c'"
proof -
  have sub: "\<exists>t. sub_step False name set_position None (sv_sub c) t" if "sub_at (sv_sub c) \<noteq> SubReturned"
    using assms(1) that by (auto simp: orderly_def intro: sub_top sub_slept sub_clear sub_end prod.collapse [symmetric])
  have feeder: "\<exists>f. run_step (sv_feed c) f" if "run (sv_feed c) \<noteq> RunReturned"
    using that by (rule run_step_enabled)
  consider "sv_main c = MainShutServer" | "sv_main c = MainJoinSubscriber" | "sv_main c = MainJoinFeeder"
    using assms by (auto simp: orderly_def)
  then show ?thesis
  proof cases
    case 1
    then show ?thesis using by_main shut_server by blast
  next
    case 2
    then show ?thesis using sub join_subscriber by_main by_subscriber by blast
  next
    case 3
    then show ?thesis
      using feeder join_feeder assms(1) by_main by_feeder unfolding orderly_def by blast
  qed
qed


definition demo_service :: "unit service" where
  "demo_service =
     (service_start demo_client \<lparr> rs_metadata = metadata_4, rs_seat_pos_name = SEAT_POS_VSS_4, rs_can_if_name = ''can0'',
        rs_broker_addr = ''localhost:55555'', rs_server_address = ''localhost:50051'' \<rparr> ())"

definition demo_stopping :: "unit service" where
  "demo_stopping = demo_service\<lparr>sv_main := MainCancelSubscriber, sv_feeder_thread := True, sv_server := True,
     sv_feed := (sv_feed demo_service)\<lparr>fd := Shutdown (fd (sv_feed demo_service))\<rparr>,
     sv_sub := (sv_sub demo_service)\<lparr>sub_at := SubReading, sb := (sb (sv_sub demo_service))\<lparr>sub_context := True\<rparr>\<rparr>\<rparr>"


section \<open>A shutdown that comes too early\<close>

text \<open>Main in the join, the subscriber in its loop: only the subscriber itself can end this.\<close>

definition stuck_in_join :: "'s service \<Rightarrow> bool" where
  "stuck_in_join c \<longleftrightarrow> sv_main c = MainJoinSubscriber \<and> sub_running (sb (sv_sub c)) \<and>
     sub_at (sv_sub c) \<in> {SubTop, SubConnecting, SubConnected, SubReading, SubSleep, SubClear}"

definition gave_up :: "'s service \<Rightarrow> bool" where
  "gave_up c \<longleftrightarrow> sub_failures (sb (sv_sub c)) > 3 \<and> sub_at (sv_sub c) = SubReturned \<and>
     sv_main c \<in> {MainJoinSubscriber, MainJoinFeeder, MainReturned}"

lemma stuck_sub_step:
  assumes "sub_step drains name set_position a t t'" and "sub_running (sb t)"
    and "sub_at t \<in> {SubTop, SubConnecting, SubConnected, SubReading, SubSleep, SubClear}"
  shows "sub_running (sb t') \<and> sub_at t' \<in> {SubTop, SubConnecting, SubConnected, SubReading, SubSleep, SubClear} \<or>
    sub_failures (sb t') > 3 \<and> sub_at t' = SubReturned"
  using assms by cases (auto simp: sub_finish_def Let_def split: if_splits)

lemma stuck_step:
  assumes "service_step drains name set_position c c'" and "stuck_in_join c \<or> gave_up c"
  shows "stuck_in_join c' \<or> gave_up c'"
proof -
  have main: ?thesis if "main_step c c'"
    using that assms(2) by cases (auto simp: stuck_in_join_def gave_up_def)
  have sub: ?thesis if "sub_step drains name set_position a (sv_sub c) t" and "sv_sub c' = t" and "sv_main c' = sv_main c" for a t
  proof -
    have "\<not> gave_up c" using that(1) by cases (auto simp: gave_up_def)
    with assms(2) stuck_sub_step [OF that(1)] show ?thesis
      using that(2,3) by (auto simp: stuck_in_join_def gave_up_def)
  qed
  have other: ?thesis if "sv_main c' = sv_main c" "sub_at (sv_sub c') = sub_at (sv_sub c)"
    "sub_running (sb (sv_sub c')) = sub_running (sb (sv_sub c))" "sub_failures (sb (sv_sub c')) = sub_failures (sb (sv_sub c))"
    using that assms(2) by (simp add: stuck_in_join_def gave_up_def)
  from assms(1) show ?thesis unfolding service_step_def
  proof
    assume "thread_step drains name set_position c c'"
    then show ?thesis
    proof cases
      case by_main
      then show ?thesis by (rule main)
    next
      case (by_feeder f)
      then show ?thesis by (intro other) simp_all
    next
      case (by_subscriber t)
      then show ?thesis by (intro sub [OF by_subscriber(2)]) simp_all
    next
      case (by_subscriber_client answer t)
      then show ?thesis by (intro sub [OF by_subscriber_client(2)]) simp_all
    qed
  next
    assume "outside_step name c c'"
    then show ?thesis by cases (intro other; simp)+
  qed
qed

lemma stuck_forever:
  assumes "(service_step drains name set_position)\<^sup>*\<^sup>* c c'" and "stuck_in_join c"
  shows "stuck_in_join c' \<or> gave_up c'"
  using assms by (induction rule: rtranclp_induct) (auto dest: stuck_step)

lemma service_path: "(service_step d n f)\<^sup>*\<^sup>* c c1 \<Longrightarrow> main_step c1 c2 \<Longrightarrow> (service_step d n f)\<^sup>*\<^sup>* c c2"
  by (rule rtranclp.rtrancl_into_rtrancl) (auto simp: service_step_def intro: by_main)

lemma service_path_sub:
  "(service_step d n f)\<^sup>*\<^sup>* c c1 \<Longrightarrow> sub_step d n f None (sv_sub c1) t \<Longrightarrow> (service_step d n f)\<^sup>*\<^sup>* c (c1\<lparr>sv_sub := t\<rparr>)"
  by (rule rtranclp.rtrancl_into_rtrancl) (auto simp: service_step_def intro: by_subscriber)

text \<open>The state of a service whose server could not bind: both threads created, none of them has run, main in the join.\<close>

definition early_join :: "KuksaClient \<Rightarrow> run_setup \<Rightarrow> 's \<Rightarrow> 's service" where
  "early_join client rs s =
     \<lparr> sv_feed = (feeding_start client (rs_metadata rs))\<lparr>fd := Shutdown (fd (feeding_start client (rs_metadata rs)))\<rparr>,
       sv_feeder_thread = True, sv_sub = (SeatPositionSubscriber_new s)\<lparr>sub_at := SubCreated\<rparr>, sv_server = False,
       sv_main = MainJoinSubscriber \<rparr>"

lemma early_join_reachable: "(service_step d n f)\<^sup>*\<^sup>* (service_start client rs s) (early_join client rs s)"
proof -
  let ?c0 = "service_start client rs s"
  let ?c1 = "?c0\<lparr>sv_feeder_thread := True, sv_main := MainStartSubscriber\<rparr>"
  let ?c2 = "?c1\<lparr>sv_sub := (sv_sub ?c1)\<lparr>sub_at := SubCreated\<rparr>, sv_main := MainBuildServer\<rparr>"
  let ?c3 = "?c2\<lparr>sv_server := False, sv_main := MainShutFeeder\<rparr>"
  let ?c4 = "?c3\<lparr>sv_feed := (sv_feed ?c3)\<lparr>fd := Shutdown (fd (sv_feed ?c3))\<rparr>, sv_main := MainStopSubscriber\<rparr>"
  let ?c5 = "?c4\<lparr>sv_sub := subscriber_stop (sv_sub ?c4), sv_main := MainCancelSubscriber\<rparr>"
  let ?c6 = "?c5\<lparr>sv_sub := subscriber_cancel (sv_sub ?c5), sv_main := MainJoinSubscriber\<rparr>"
  have s1: "main_step ?c0 ?c1" by (rule start_feeder) (simp add: service_start_def)
  have s2: "main_step ?c1 ?c2" by (rule start_subscriber) simp
  have s3: "main_step ?c2 ?c3" using build_server [of ?c2 False] by simp
  have s4: "main_step ?c3 ?c4" by (rule shut_feeder) simp
  have s5: "main_step ?c4 ?c5" by (rule stop_subscriber) simp
  have s6: "main_step ?c5 ?c6" using cancel_subscriber [of ?c5] by (simp add: service_start_def)
  note service_path [OF rtranclp.rtrancl_refl s1, THEN service_path [OF _ s2], THEN service_path [OF _ s3],
      THEN service_path [OF _ s4], THEN service_path [OF _ s5], THEN service_path [OF _ s6]]
  moreover have "?c6 = early_join client rs s"
    by (simp add: early_join_def service_start_def subscriber_stop_def subscriber_cancel_def SeatPositionSubscriber_new_def)
  ultimately show ?thesis by simp
qed

text \<open>C27: The start of the subscriber thread undoes a shutdown that came before it. \<open>Run()\<close> of the subscriber sets \<open>running_\<close>
  itself, so when the main thread shuts down first (the server could not bind its address, say), the thread goes on
  unaware: a state is reachable in which main waits in the join and the subscriber runs its loop, and from
  there main stays in the join in every run until the subscriber gives up by itself after repeated \<open>NOT_FOUND\<close>.\<close>

theorem shutdown_before_start_hangs:
  "\<exists>c. (service_step drains name set_position)\<^sup>*\<^sup>* (service_start client rs s) c \<and> sv_main c = MainJoinSubscriber \<and>
     (\<forall>c'. (service_step drains name set_position)\<^sup>*\<^sup>* c c' \<and> sub_failures (sb (sv_sub c')) \<le> 3 \<longrightarrow>
        sv_main c' = MainJoinSubscriber \<and> sub_running (sb (sv_sub c')))"
proof -
  let ?e = "early_join client rs s"
  let ?t = "sub_goto SubTop ((sb (sv_sub ?e))\<lparr>sub_running := True, sub_failures := 0\<rparr>) (sv_sub ?e)"
  let ?c = "?e\<lparr>sv_sub := ?t\<rparr>"
  have "sub_step drains name set_position None (sv_sub ?e) ?t" by (rule sub_start) (simp add: early_join_def)
  then have r: "(service_step drains name set_position)\<^sup>*\<^sup>* (service_start client rs s) ?c"
    by (rule service_path_sub [OF early_join_reachable])
  have st: "stuck_in_join ?c" by (simp add: stuck_in_join_def) (simp add: early_join_def)
  have "sv_main c' = MainJoinSubscriber \<and> sub_running (sb (sv_sub c'))"
    if "(service_step drains name set_position)\<^sup>*\<^sup>* ?c c'" and "sub_failures (sb (sv_sub c')) \<le> 3" for c'
    using stuck_forever [OF that(1) st] that(2) by (auto simp: stuck_in_join_def gave_up_def)
  moreover have "sv_main ?c = MainJoinSubscriber" by (simp add: early_join_def)
  ultimately show ?thesis using r by (intro exI [of _ ?c] conjI allI impI) simp_all
qed

theorem shutdown_before_start_hangs_witness:
  "\<exists>c :: unit service. (service_step False SEAT_POS_VSS_4 (\<lambda>p s. (ResOK, s)))\<^sup>*\<^sup>* demo_service c \<and> sv_main c = MainJoinSubscriber"
proof -
  obtain c :: "unit service" where "(service_step False SEAT_POS_VSS_4 (\<lambda>p s. (ResOK, s)))\<^sup>*\<^sup>* demo_service c"
    and "sv_main c = MainJoinSubscriber"
    unfolding demo_service_def by (rule exE [OF shutdown_before_start_hangs]) (elim conjE)
  then show ?thesis by (intro exI conjI)
qed

section \<open>A cancellation that comes too early\<close>

text \<open>
  The other race of the shutdown: the subscriber has a connection but not yet a context when \<open>Shutdown()\<close> looks for one.
  Nothing is cancelled, the subscription starts after the shutdown, and while main waits in the join, targets that arrive
  still move the seat.
\<close>

lemma late_subscription_moves_seat:
  assumes "sv_main c = MainCancelSubscriber" and "\<not> sv_server c" and "sub_at (sv_sub c) = SubConnected"
    and "\<not> sub_context (sb (sv_sub c))" and "\<not> sub_running (sb (sv_sub c))"
  shows "\<exists>c'. (service_step drains name set_position)\<^sup>*\<^sup>* c c' \<and> sv_main c' = MainJoinSubscriber \<and>
    sub_at (sv_sub c') = SubReading \<and> \<not> sub_cancelled (sv_sub c') \<and> \<not> sub_running (sb (sv_sub c')) \<and>
    sub_adjuster (sb (sv_sub c')) = handle_update name set_position u (sub_adjuster (sb (sv_sub c)))"
proof -
  define c1 where "c1 = c\<lparr>sv_sub := subscriber_cancel (sv_sub c), sv_main := MainJoinSubscriber\<rparr>"
  define t1 where "t1 = (sub_goto SubReading ((sb (sv_sub c1))\<lparr>sub_context := True\<rparr>) (sv_sub c1))\<lparr>sub_cancelled := False\<rparr>"
  define t2 where
    "t2 = sub_goto SubReading ((sb t1)\<lparr>sub_adjuster := fold (handle_update name set_position) [u] (sub_adjuster (sb t1))\<rparr>) t1"
  have sub: "sv_sub c1 = sv_sub c" using assms(4) by (simp add: c1_def subscriber_cancel_def)
  have "main_step c c1" using cancel_subscriber [of c] assms(1,2) by (simp add: c1_def)
  then have "(service_step drains name set_position)\<^sup>*\<^sup>* c c1" by (rule service_path [OF rtranclp.rtrancl_refl])
  moreover have "sub_step drains name set_position None (sv_sub c1) t1"
    unfolding t1_def by (rule sub_create) (simp add: sub assms(3))
  ultimately have "(service_step drains name set_position)\<^sup>*\<^sup>* c (c1\<lparr>sv_sub := t1\<rparr>)" by (rule service_path_sub)
  moreover have "sub_step drains name set_position None t1 t2"
    unfolding t2_def by (rule sub_response) (simp_all add: t1_def)
  ultimately have "(service_step drains name set_position)\<^sup>*\<^sup>* c (c1\<lparr>sv_sub := t2\<rparr>)"
    using service_path_sub [of drains name set_position c "c1\<lparr>sv_sub := t1\<rparr>" t2] by simp
  moreover have "sv_main (c1\<lparr>sv_sub := t2\<rparr>) = MainJoinSubscriber" by (simp add: c1_def)
  moreover have "sub_at t2 = SubReading" "\<not> sub_cancelled t2" "\<not> sub_running (sb t2)"
      "sub_adjuster (sb t2) = handle_update name set_position u (sub_adjuster (sb (sv_sub c)))"
    using assms(5) by (simp_all add: t2_def t1_def sub)
  ultimately show ?thesis by (intro exI [of _ "c1\<lparr>sv_sub := t2\<rparr>"]) simp
qed

end
