(* ===== verification/Service_Types.thy ===== *)
theory Service_Types
  imports Service_Process
begin

text \<open>
  Types of datapoints. The broker registers a datapoint with a \<open>DataType\<close>; a value is sent as a member of the oneof
  \<open>Datapoint\<close>, which has no small integers: \<open>types.proto\<close> maps them to 32 bits. \<open>value_fits\<close> is that typing
  relation; it holds of every value the running service stores, sends or has had acknowledged.
\<close>

section \<open>The typing of values\<close>

fun value_fits :: "int \<Rightarrow> Datapoint \<Rightarrow> bool" where
  "value_fits ty (failure_value _) = True"
| "value_fits ty (string_value _) = (ty = 0)"
| "value_fits ty (bool_value _) = (ty = 1)"
| "value_fits ty (int32_value w) =
     (ty = 4 \<or> ty = 2 \<and> - 128 \<le> sint w \<and> sint w < 128 \<or> ty = 3 \<and> - 32768 \<le> sint w \<and> sint w < 32768)"
| "value_fits ty (int64_value _) = (ty = 5)"
| "value_fits ty (uint32_value w) = (ty = 8 \<or> ty = UINT8 \<and> uint w < 256 \<or> ty = UINT16 \<and> uint w < 65536)"
| "value_fits ty (uint64_value _) = (ty = 9)"
| "value_fits ty (float_value _) = (ty = 10)"
| "value_fits ty (double_value _) = (ty = 11)"
| "value_fits ty (int32_array ws) =
     (ty = 24 \<or> ty = 22 \<and> list_all (\<lambda>w. - 128 \<le> sint w \<and> sint w < 128) ws
      \<or> ty = 23 \<and> list_all (\<lambda>w. - 32768 \<le> sint w \<and> sint w < 32768) ws)"
| "value_fits ty (uint32_array ws) =
     (ty = 28 \<or> ty = UINT8_ARRAY \<and> list_all (\<lambda>w. uint w < 256) ws \<or> ty = 27 \<and> list_all (\<lambda>w. uint w < 65536) ws)"

text \<open>A value for a name, against the configuration.\<close>

definition fits_config :: "DatapointConfiguration \<Rightarrow> string \<times> Datapoint \<Rightarrow> bool" where
  "fits_config cfg nv \<longleftrightarrow> (\<exists>dp \<in> set cfg. dp_name dp = fst nv \<and> value_fits (dp_data_type dp) (snd nv))"

lemma position_datapoint_fits: "value_fits UINT16 (position_datapoint p)"
proof (cases "0 \<le> p \<and> p \<le> 100")
  case True
  then have "uint (of_int (p * 10) :: u32) < 65536"
    using position_datapoint_in_range(2) [of p] by (simp del: uint_word_of_int_eq)
  then show ?thesis using True by (simp add: position_datapoint_def)
qed (auto simp: position_datapoint_def)

definition config_typed :: "DatapointConfiguration \<Rightarrow> bool" where
  "config_typed cfg \<longleftrightarrow> list_all (\<lambda>dp. value_fits (dp_data_type dp) (dp_initial_value dp)) cfg"

lemma metadata_typed: "config_typed metadata_3" "config_typed metadata_4"
  by (simp_all add: config_typed_def metadata_3_def metadata_4_def createNotAvailableValue_def createDatapoint_uint32_def
      createDatapoint_arrays)

section \<open>Values in the feeder\<close>

definition values_in :: "feeding \<Rightarrow> (string \<times> Datapoint) set" where
  "values_in c = set (stored_values (fd c)) \<union> set (in_flight (run c)) \<union> set (acked c)"

definition feeding_typed :: "DatapointConfiguration \<Rightarrow> feeding \<Rightarrow> bool" where
  "feeding_typed cfg c \<longleftrightarrow> dp_config (fd c) = cfg \<and> (\<forall>nv \<in> values_in c. fits_config cfg nv)"

lemma set_AList_update: "set (AList.update k v m) \<subseteq> insert (k, v) (set m)"
  by (induction m) auto

lemma set_map_insert: "set (map_insert kv m) \<subseteq> insert kv (set m)"
  by (auto simp: map_insert_def split: option.splits)

lemma set_fold_insert: "set (fold map_insert vs m) \<subseteq> set vs \<union> set m"
proof (induction vs arbitrary: m)
  case (Cons kv vs)
  then show ?case using set_map_insert [of kv m] by fastforce
qed simp

lemma set_feed_take:
  "set (fst (feed_take ini f)) \<subseteq>
     (\<lambda>dp. (dp_name dp, dp_initial_value dp)) ` set (dp_config f) \<union> set (stored_values f)"
  using set_fold_insert [of "map (\<lambda>dp. (dp_name dp, dp_initial_value dp)) (dp_config f)" "stored_values f"]
  by (auto simp: feed_take_def fold_initial)

lemma feeding_typed_mono:
  assumes "feeding_typed cfg c" and "dp_config (fd c') = dp_config (fd c)"
    and "values_in c' \<subseteq> values_in c \<union> X" and "\<And>nv. nv \<in> X \<Longrightarrow> fits_config cfg nv"
  shows "feeding_typed cfg c'"
  using assms by (auto simp: feeding_typed_def)

lemma keeps_values_typed:
  assumes "feeding_typed cfg c" and "keeps_values (fd c) (p, f)"
  shows "feeding_typed cfg (run_to p f c)"
  using assms(2) by (intro feeding_typed_mono [OF assms(1), where X = "{}"]) (auto simp: keeps_values_def values_in_def)

lemma feeding_typed_inner:
  assumes "feeding_typed cfg c" and "config_typed cfg" and "run_inner ini (fd c) = (p, f)"
  shows "feeding_typed cfg (run_to p f c)"
proof (rule feeding_typed_mono [OF assms(1), where X = "(\<lambda>dp. (dp_name dp, dp_initial_value dp)) ` set cfg"])
  have cfg: "dp_config (fd c) = cfg" using assms(1) by (simp add: feeding_typed_def)
  show "dp_config (fd (run_to p f c)) = dp_config (fd c)"
    using assms(3) by (auto simp: run_inner_def feed_take_def cleanup_def split: if_splits)
  show "values_in (run_to p f c) \<subseteq> values_in c \<union> (\<lambda>dp. (dp_name dp, dp_initial_value dp)) ` set cfg"
    using assms(3) set_feed_take [of ini "fd c"]
    by (auto simp: run_inner_def values_in_def cleanup_def cfg split: if_splits prod.splits)
       (auto simp: feed_take_def)
  show "fits_config cfg nv" if "nv \<in> (\<lambda>dp. (dp_name dp, dp_initial_value dp)) ` set cfg" for nv
    using that assms(2) by (auto simp: fits_config_def config_typed_def list_all_iff)
qed

lemma feeding_typed_run_step:
  assumes "run_step c c'" and "feeding_typed cfg c" and "config_typed cfg"
  shows "feeding_typed cfg c'"
  using assms(1)
proof cases
  case (inner ini p f)
  then show ?thesis using feeding_typed_inner [OF assms(2,3)] by blast
next
  case (restore vs)
  then show ?thesis
    using set_fold_insert [of vs "stored_values (fd c)"]
    by (intro feeding_typed_mono [OF assms(2), where X = "{}"]) (auto simp: values_in_def restoreValues_def)
next
  case (connecting a p f)
  then show ?thesis using keeps_values_segments(1) [of "fd c" a] by (auto intro: keeps_values_typed [OF assms(2)])
next
  case (get_metadata st r p f)
  then show ?thesis using keeps_values_segments(2) [of "fd c" st r] by (auto intro: keeps_values_typed [OF assms(2)])
next
  case (register st x p f)
  then show ?thesis using keeps_values_segments(3) [of "fd c" st x] by (auto intro: keeps_values_typed [OF assms(2)])
next
  case (check p f)
  then show ?thesis using keeps_values_segments(4) [of "fd c"] by (auto intro: keeps_values_typed [OF assms(2)])
qed (use assms(2) in \<open>auto intro!: feeding_typed_mono [OF assms(2), where X = "{}"] simp: values_in_def run_fed_def\<close>)

lemma feeding_typed_store:
  assumes "feeding_typed cfg c" and "fits_config cfg (n, v)"
    and "f = storeValue n v (fd c) \<or> f = FeedValue n v (fd c)"
  shows "feeding_typed cfg (c\<lparr>fd := f, latest := l\<rparr>)" and "feeding_typed cfg (c\<lparr>fd := f\<rparr>)"
  using assms set_AList_update [of n v "stored_values (fd c)"]
  by (auto intro!: feeding_typed_mono [OF assms(1), where X = "{(n, v)}"]
      simp: values_in_def FeedValue_def storeValue_def split: if_splits)

section \<open>Values in the service\<close>

lemma service_typed_step:
  assumes "service_step drains name set_position c c'" and "feeding_typed cfg (sv_feed c)" and "config_typed cfg"
    and "\<And>p. fits_config cfg (name, position_datapoint p)"
  shows "feeding_typed cfg (sv_feed c')"
proof -
  have connect: "feeding_typed cfg ((sv_feed c)\<lparr>fd := (fd (sv_feed c))\<lparr>fd_client := k\<rparr>\<rparr>)" for k
    using assms(2) by (simp add: feeding_typed_def values_in_def)
  have shut: "feeding_typed cfg ((sv_feed c)\<lparr>fd := Shutdown (fd (sv_feed c))\<rparr>)"
    using assms(2) by (auto simp: feeding_typed_def values_in_def Shutdown_def)
  have store: "feeding_typed cfg ((sv_feed c)\<lparr>fd := storeValue name (position_datapoint p) (fd (sv_feed c))\<rparr>)"
      "feeding_typed cfg ((sv_feed c)\<lparr>fd := SeatDataFeeder_cb name p (fd (sv_feed c)), latest := l\<rparr>)" for p l
    by (auto intro: feeding_typed_store [OF assms(2,4)] simp: SeatDataFeeder_cb_def)
  from assms(1) consider "main_step c c'" | "thread_step drains name set_position c c'" "\<not> main_step c c'" | "outside_step name c c'"
    by (auto simp: service_step_def)
  then show ?thesis
  proof cases
    case 1
    then show ?thesis using assms(2) shut by cases simp_all
  next
    case 2
    from 2(1) show ?thesis
    proof cases
      case by_main
      then show ?thesis using 2(2) by blast
    next
      case (by_feeder f)
      then show ?thesis using feeding_typed_run_step [OF _ assms(2,3)] by simp
    qed (use assms(2) connect in simp_all)
  next
    case 3
    then show ?thesis using assms(2) store(1) store(2) by cases (simp_all del: if_split)
  qed
qed

lemma setup_typed:
  assumes "main_setup env argv = Done rs"
  shows "config_typed (rs_metadata rs)" and "fits_config (rs_metadata rs) (rs_seat_pos_name rs, position_datapoint p)"
proof -
  have rs: "rs_metadata rs = metadata_3 \<and> rs_seat_pos_name rs = SEAT_POS_VSS_3 \<or>
      rs_metadata rs = metadata_4 \<and> rs_seat_pos_name rs = SEAT_POS_VSS_4"
    using assms by (auto simp: main_setup_def Run_setup_def Let_def split: if_splits)
  then show "config_typed (rs_metadata rs)" using metadata_typed by auto
  show "fits_config (rs_metadata rs) (rs_seat_pos_name rs, position_datapoint p)"
    using rs position_datapoint_fits [of p] by (auto simp: fits_config_def metadata_3_def metadata_4_def)
qed

lemma request_values: "(i, v) \<in> set (feed_request vs f) \<Longrightarrow> \<exists>n. map_of (id_map f) n = Some i \<and> (n, v) \<in> set vs"
proof -
  have "(i, v) \<in> set (fold (\<lambda>(n, v) req. case map_of (id_map f) n of None \<Rightarrow> req | Some i \<Rightarrow> AList.update i v req) vs req) \<Longrightarrow>
      (i, v) \<in> set req \<or> (\<exists>n. map_of (id_map f) n = Some i \<and> (n, v) \<in> set vs)" for req
  proof (induction vs arbitrary: req)
    case (Cons nv vs)
    then show ?case using set_AList_update by (cases nv) (fastforce split: option.splits)
  qed simp
  from this [of "[]"] show "(i, v) \<in> set (feed_request vs f) \<Longrightarrow> ?thesis" by (simp add: feed_request_def)
qed

text \<open>C17: Type safety towards the broker. However the threads of the service interleave, and whatever the broker answers and the seat
  reports: every value that is stored, being sent or acknowledged is for a configured datapoint and fits the type it was registered
  with. In particular every value in an update request goes to an id of a datapoint whose type it fits.\<close>

theorem service_values_typed:
  assumes "main_setup env argv = Done rs"
    and "(service_step drains (rs_seat_pos_name rs) set_position)\<^sup>*\<^sup>* (service_start client rs s) c"
  shows "(\<forall>nv \<in> values_in (sv_feed c). \<exists>dp \<in> set (rs_metadata rs). dp_name dp = fst nv \<and> value_fits (dp_data_type dp) (snd nv)) \<and>
    (\<forall>vs i v. run (sv_feed c) = RunSending vs \<and> (i, v) \<in> set (feed_request vs (fd (sv_feed c))) \<longrightarrow>
      (\<exists>dp \<in> set (rs_metadata rs). map_of (id_map (fd (sv_feed c))) (dp_name dp) = Some i \<and> value_fits (dp_data_type dp) v))"
proof -
  have typed: "feeding_typed (rs_metadata rs) (sv_feed c)"
    using assms(2)
  proof (induction rule: rtranclp_induct)
    case base
    show ?case
      by (simp add: feeding_typed_def values_in_def service_start_def feeding_start_def DataBrokerFeederImpl_new_def)
  next
    case (step c c')
    then show ?case using service_typed_step setup_typed [OF assms(1)] by blast
  qed
  then have all: "\<exists>dp \<in> set (rs_metadata rs). dp_name dp = fst nv \<and> value_fits (dp_data_type dp) (snd nv)"
    if "nv \<in> values_in (sv_feed c)" for nv
    using that by (auto simp: feeding_typed_def fits_config_def)
  moreover have "\<exists>dp \<in> set (rs_metadata rs). map_of (id_map (fd (sv_feed c))) (dp_name dp) = Some i \<and> value_fits (dp_data_type dp) v"
    if "run (sv_feed c) = RunSending vs" and "(i, v) \<in> set (feed_request vs (fd (sv_feed c)))" for vs i v
    using request_values [OF that(2)] all that(1) by (fastforce simp: values_in_def)
  ultimately show ?thesis by blast
qed

theorem service_values_typed_witness:
  "\<exists>rs (c :: unit service). main_setup (\<lambda>_. None) [''seat_service'', ''can0''] = Done rs \<and> (SEAT_POS_VSS_4, uint32_value 420) \<in> values_in (sv_feed c) \<and>
     (\<exists>dp \<in> set (rs_metadata rs). dp_name dp = SEAT_POS_VSS_4 \<and> value_fits (dp_data_type dp) (uint32_value 420))"
proof -
  obtain rs where rs: "main_setup (\<lambda>_. None) [''seat_service'', ''can0''] = Done rs" "rs_seat_pos_name rs = SEAT_POS_VSS_4"
    by (simp add: main_setup_def Run_setup_def getEnvVar_def metadata_4_def Let_def)
  let ?c = "service_start demo_client rs ()"
  let ?f = "SeatDataFeeder_cb SEAT_POS_VSS_4 42 (fd (sv_feed ?c))"
  define c1 where "c1 = ?c\<lparr>sv_feed := (sv_feed ?c)\<lparr>fd := ?f, latest := (if feeder_active (fd (sv_feed ?c))
      then (latest (sv_feed ?c))(SEAT_POS_VSS_4 \<mapsto> position_datapoint 42) else latest (sv_feed ?c))\<rparr>\<rparr>"
  have "service_step False SEAT_POS_VSS_4 (\<lambda>_ s. (ResOK, s)) ?c c1"
    using reported [of SEAT_POS_VSS_4 ?c 42] by (simp add: service_step_def c1_def)
  then have path: "(service_step False (rs_seat_pos_name rs) (\<lambda>_ s. (ResOK, s)))\<^sup>*\<^sup>* ?c c1" using rs(2) by auto
  have "(SEAT_POS_VSS_4, uint32_value 420) \<in> values_in (sv_feed c1)"
    by (simp add: c1_def values_in_def SeatDataFeeder_cb_def FeedValue_def storeValue_def service_start_def feeding_start_def
        DataBrokerFeederImpl_new_def position_datapoint_def)
  moreover from this have "\<exists>dp \<in> set (rs_metadata rs). dp_name dp = SEAT_POS_VSS_4 \<and> value_fits (dp_data_type dp) (uint32_value 420)"
    using service_values_typed [OF rs(1) path] by fastforce
  ultimately show ?thesis using rs(1) by blast
qed

end
