(* ===== verification/Feeder_Registration.thy ===== *)
theory Feeder_Registration
  imports Data_Broker_Feeder
begin

text \<open>
  Registration and the first transmission together: what a broker that answers as its interface says receives from the feeder.
  \<open>registerDatapoints()\<close> as a function is a path of the step relation of \<open>Run\<close>, and after it the first request
  holds a value for every configured datapoint.
\<close>

section \<open>Registration as steps of Run\<close>

text \<open>Where \<open>Run\<close> goes with the result of \<open>registerDatapoints()\<close>.\<close>

definition after_registration :: "bool \<times> DataBrokerFeederImpl \<Rightarrow> run_pc \<times> DataBrokerFeederImpl" where
  "after_registration r = (if fst r then enter_inner (snd r) else (RunSleep, snd r))"

lemma registerDatapoints_unfold:
  assumes "get_metadata (map dp_name (dp_config f)) = (status, reply)"
  shows "registerDatapoints get_metadata register_datapoints f =
    (let f1 = snd (getMetadata status reply f)
     in case register_known f1 of
          Some f2 \<Rightarrow> (True, f2)
        | None \<Rightarrow> (case register_datapoints (register_request f1) of (st, results) \<Rightarrow> register_reply st results f1))"
proof (cases "dp_config f = []")
  case True
  then have "getMetadata_request f = None" "getMetadata status reply f = (False, f)"
    by (simp_all add: getMetadata_request_def getMetadata_def)
  then show ?thesis by (simp add: registerDatapoints_def)
next
  case False
  then have "getMetadata_request f = Some (map dp_name (dp_config f))" by (simp add: getMetadata_request_def)
  then show ?thesis using assms by (simp add: registerDatapoints_def)
qed

lemma registerDatapoints_steps:
  assumes "run c = RunGetMetadata"
    and "after_registration (registerDatapoints get_metadata register_datapoints (fd c)) = (p, f)"
  shows "run_step\<^sup>*\<^sup>* c (run_to p f c)"
proof -
  obtain st reply where g: "get_metadata (map dp_name (dp_config (fd c))) = (st, reply)" by fastforce
  define f1 where "f1 = snd (getMetadata st reply (fd c))"
  obtain rst results where rr: "register_datapoints (register_request f1) = (rst, results)" by fastforce
  note r = registerDatapoints_unfold [where get_metadata = get_metadata and f = "fd c", OF g, of register_datapoints,
      folded f1_def]
  show ?thesis
  proof (cases "register_known f1")
    case (Some f2)
    then have "run_metadata st reply (fd c) = (p, f)"
      using assms(2) r by (simp add: run_metadata_def after_registration_def Let_def f1_def)
    then show ?thesis using run_step.get_metadata [OF assms(1)] by blast
  next
    case None
    then have first: "run_metadata st reply (fd c) = (RunRegister, f1)"
      by (simp add: run_metadata_def Let_def f1_def)
    have "run_registered rst results f1 = (p, f)"
      using assms(2) r None rr
      by (auto simp: run_registered_def after_registration_def Let_def split: prod.splits bool.splits)
    then have "run_step (run_to RunRegister f1 c) (run_to p f (run_to RunRegister f1 c))"
      by (intro run_step.register) simp_all
    moreover have "run_to p f (run_to RunRegister f1 c) = run_to p f c" by (simp add: run_to_def)
    ultimately have "run_step (run_to RunRegister f1 c) (run_to p f c)" by simp
    with run_step.get_metadata [OF assms(1) first] show ?thesis by (meson converse_rtranclp_into_rtranclp r_into_rtranclp)
  qed
qed

section \<open>Ids\<close>

text \<open>What the interface says of the broker's answers: one entry per name and ids of their own; an id for every registered name.\<close>

definition metadata_ok :: "Metadata list \<Rightarrow> bool" where
  "metadata_ok ms \<longleftrightarrow> distinct (map md_name ms) \<and> distinct (map md_id ms)"

definition results_ok :: "string list \<Rightarrow> (string \<times> int) list \<Rightarrow> bool" where
  "results_ok names rs \<longleftrightarrow> distinct (map fst rs) \<and> distinct (map snd rs) \<and> list_all (\<lambda>n. map_of rs n \<noteq> None) names"

definition one_name_per_id :: "DataBrokerFeederImpl \<Rightarrow> bool" where
  "one_name_per_id f \<longleftrightarrow>
     (\<forall>n m i. map_of (id_map f) n = Some i \<longrightarrow> map_of (id_map f) m = Some i \<longrightarrow> n = m)"

lemma map_of_fold_metadata:
  assumes "distinct (map md_name ms)"
  shows "map_of (fold (\<lambda>m. AList.update (md_name m) m) ms old) n =
    (case map_of (map (\<lambda>m. (md_name m, m)) ms) n of None \<Rightarrow> map_of old n | Some m \<Rightarrow> Some m)"
  using assms
proof (induction ms arbitrary: old)
  case (Cons m ms)
  have "map_of (map (\<lambda>m. (md_name m, m)) ms) (md_name m) = None"
    using Cons.prems by (simp add: map_of_eq_None_iff image_image)
  then show ?case using Cons by (auto simp: update_conv' split: option.split)
qed simp

lemma distinct_fold_metadata:
  "distinct (map fst old) \<Longrightarrow> distinct (map fst (fold (\<lambda>m. AList.update (md_name m) m) ms old))"
  by (induction ms arbitrary: old) (auto simp: distinct_update)

lemma known_all:
  assumes "distinct (map fst (dp_meta f))" and "register_known f = Some g" and "dp \<in> set (dp_config f)"
  shows "map_of (id_map g) (dp_name dp) \<noteq> None"
  using register_known_spec [OF assms(1)] assms(2,3) by blast

lemma known_ids:
  assumes "distinct (map md_name ms)" and "dp_meta f = fold (\<lambda>m. AList.update (md_name m) m) ms []"
    and "id_map f = []" and "register_known f = Some g"
  shows "map_of (id_map g) n = map_option md_id (map_of (map (\<lambda>m. (md_name m, m)) ms) n)"
proof -
  have "distinct (map fst (dp_meta f))" using distinct_fold_metadata [of "[]"] assms(2) by simp
  moreover have "id_map g = fold (\<lambda>(n, m). AList.update n (md_id m)) (dp_meta f) []"
    using assms(3,4) by (auto simp: register_known_def split: if_splits)
  ultimately have "map_of (id_map g) n = map_option md_id (map_of (dp_meta f) n)"
    using map_of_fold_ids [of "dp_meta f" "[]" n] by (simp split: option.split)
  then show ?thesis using map_of_fold_metadata [OF assms(1), of "[]" n] assms(2) by (simp split: option.splits)
qed

lemma metadata_ids_distinct:
  assumes "metadata_ok ms" and "map_option md_id (map_of (map (\<lambda>m. (md_name m, m)) ms) n) = Some i"
    and "map_option md_id (map_of (map (\<lambda>m. (md_name m, m)) ms) k) = Some i"
  shows "n = k"
proof -
  obtain a b where "a \<in> set ms" "md_name a = n" "md_id a = i" "b \<in> set ms" "md_name b = k" "md_id b = i"
    using assms(2,3) by (auto dest!: map_of_SomeD)
  then show ?thesis using assms(1) by (auto simp: metadata_ok_def distinct_map inj_on_def)
qed

lemma results_ids_distinct:
  "distinct (map snd rs) \<Longrightarrow> map_of rs n = Some i \<Longrightarrow> map_of rs k = Some i \<Longrightarrow> n = k"
  by (force dest!: map_of_SomeD simp: distinct_map inj_on_def)

lemma getMetadata_fresh:
  assumes "dp_meta f = []" and "metadata_ok reply"
  shows "\<exists>ms. metadata_ok ms \<and> dp_meta (snd (getMetadata status reply f)) = fold (\<lambda>m. AList.update (md_name m) m) ms []"
proof (cases "dp_config f = [] \<or> \<not> status_ok status")
  case True
  then show ?thesis
    using assms(1) by (intro exI [of _ "[]"]) (auto simp: getMetadata_def handleError_def metadata_ok_def Let_def)
next
  case False
  then show ?thesis using assms by (intro exI [of _ reply]) (auto simp: getMetadata_def)
qed

lemma getMetadata_id_map: "id_map (snd (getMetadata status reply f)) = id_map f"
  by (simp add: getMetadata_def handleError_def Let_def)

lemma registration_ids:
  assumes fresh: "id_map f = []" "dp_meta f = []"
    and broker: "\<And>names. metadata_ok (snd (get_metadata names))"
      "\<And>req. status_ok (fst (register_datapoints req)) \<and> results_ok (map reg_name req) (snd (register_datapoints req))"
  obtains f1 where "registerDatapoints get_metadata register_datapoints f = (True, f1)" "one_name_per_id f1"
    "list_all (\<lambda>dp. map_of (id_map f1) (dp_name dp) \<noteq> None) (dp_config f)"
    "dp_config f1 = dp_config f" "stored_values f1 = stored_values f"
proof -
  obtain st reply where g: "get_metadata (map dp_name (dp_config f)) = (st, reply)" by fastforce
  define g1 where "g1 = snd (getMetadata st reply f)"
  have g1: "id_map g1 = []" "dp_config g1 = dp_config f" "stored_values g1 = stored_values f"
    using fresh(1) by (simp_all add: g1_def getMetadata_id_map)
  obtain rst results where rr: "register_datapoints (register_request g1) = (rst, results)" by fastforce
  note r = registerDatapoints_unfold [where get_metadata = get_metadata and f = f, OF g, of register_datapoints,
      folded g1_def, unfolded Let_def]
  show ?thesis
  proof (cases "register_known g1")
    case (Some f1)
    obtain ms where ms: "metadata_ok ms" "dp_meta g1 = fold (\<lambda>m. AList.update (md_name m) m) ms []"
      using getMetadata_fresh [OF fresh(2)] broker(1) [of "map dp_name (dp_config f)"] g by (auto simp: g1_def)
    have ids: "map_of (id_map f1) n = map_option md_id (map_of (map (\<lambda>m. (md_name m, m)) ms) n)" for n
      using known_ids [OF _ ms(2) g1(1) Some] ms(1) by (simp add: metadata_ok_def)
    have "distinct (map fst (dp_meta g1))" using distinct_fold_metadata [of "[]"] ms(2) by simp
    from known_all [OF this Some] have all: "list_all (\<lambda>dp. map_of (id_map f1) (dp_name dp) \<noteq> None) (dp_config f)"
      using g1(2) by (auto simp: list_all_iff)
    have "one_name_per_id f1" using metadata_ids_distinct [OF ms(1)] by (simp add: one_name_per_id_def ids)
    moreover have "dp_config f1 = dp_config f" "stored_values f1 = stored_values f"
      using Some g1 by (auto simp: register_known_def split: if_splits)
    ultimately show ?thesis using that r Some all by simp
  next
    case None
    have "map reg_name (register_request g1) = map dp_name (dp_config f)"
      by (simp add: register_request_def g1 o_def)
    then have ok: "status_ok rst" "results_ok (map dp_name (dp_config f)) results"
      using broker(2) [of "register_request g1"] rr by simp_all
    then have eq: "registerDatapoints get_metadata register_datapoints f = (True, g1\<lparr>id_map := results\<rparr>)"
      using r None rr by (simp add: register_reply_def)
    have "one_name_per_id (g1\<lparr>id_map := results\<rparr>)"
      using results_ids_distinct [of results] ok(2)
      by (simp add: one_name_per_id_def results_ok_def del: map_of_eq_Some_iff)
    then show ?thesis using that [OF eq] ok(2) g1 by (simp add: results_ok_def list_all_iff del: map_of_eq_Some_iff)
  qed
qed

section \<open>The first request\<close>

text \<open>The value a datapoint has at first: what was fed before the connection, else the initial value.\<close>

definition first_value :: "DataBrokerFeederImpl \<Rightarrow> DatapointMetadata \<Rightarrow> Datapoint" where
  "first_value f dp = (case map_of (stored_values f) (dp_name dp) of Some v \<Rightarrow> v | None \<Rightarrow> dp_initial_value dp)"

lemma first_values_taken:
  assumes "distinct (map dp_name (dp_config f))" and "dp \<in> set (dp_config f)"
  shows "map_of (fst (feed_take True f)) (dp_name dp) = Some (first_value f dp)"
proof -
  have "map_of (map (\<lambda>dp. (dp_name dp, dp_initial_value dp)) (dp_config f)) (dp_name dp) = Some (dp_initial_value dp)"
    using assms by (intro map_of_is_SomeI) (auto simp: o_def)
  then show ?thesis by (simp add: feed_take_values first_value_def map_add_def split: option.split)
qed

lemma feed_take_distinct:
  "distinct (map fst (stored_values f)) \<Longrightarrow> distinct (map fst (fst (feed_take ini f)))"
  by (simp add: feed_take_def fold_initial distinct_fold_insert)

text \<open>C24: A feeder that connects to a broker registers its datapoints, known to the broker or new, and its first request then holds,
  under the id the broker gave to each configured name, the value fed before the connection or else the initial value. The broker is
  any one that answers \<open>GetMetadata\<close> with one entry per name and \<open>RegisterDatapoints\<close> with an id per name.\<close>

theorem registered_values_sent:
  assumes "id_map f = []" and "dp_meta f = []" and "distinct (map dp_name (dp_config f))"
    and "distinct (map fst (stored_values f))"
    and "\<And>names. metadata_ok (snd (get_metadata names))"
    and "\<And>req. status_ok (fst (register_datapoints req)) \<and> results_ok (map reg_name req) (snd (register_datapoints req))"
  shows "\<exists>f1. registerDatapoints get_metadata register_datapoints f = (True, f1) \<and>
    (\<forall>dp \<in> set (dp_config f). \<exists>i. map_of (id_map f1) (dp_name dp) = Some i \<and>
       map_of (feed_request (fst (feed_take True f1)) f1) i = Some (first_value f dp))"
proof -
  obtain f1 where f1: "registerDatapoints get_metadata register_datapoints f = (True, f1)" "one_name_per_id f1"
    "list_all (\<lambda>dp. map_of (id_map f1) (dp_name dp) \<noteq> None) (dp_config f)" "dp_config f1 = dp_config f"
    "stored_values f1 = stored_values f"
    by (rule registration_ids [OF assms(1,2) assms(5,6)])
  have "\<exists>i. map_of (id_map f1) (dp_name dp) = Some i \<and>
      map_of (feed_request (fst (feed_take True f1)) f1) i = Some (first_value f dp)" if dp: "dp \<in> set (dp_config f)" for dp
  proof -
    obtain i where i: "map_of (id_map f1) (dp_name dp) = Some i" using f1(3) dp by (auto simp: list_all_iff)
    have "map_of (fst (feed_take True f1)) (dp_name dp) = Some (first_value f dp)"
      using first_values_taken [of f1 dp] dp assms(3) f1(4,5) by (simp add: first_value_def)
    moreover have "distinct (map fst (fst (feed_take True f1)))" using feed_take_distinct [of f1] assms(4) f1(5) by simp
    moreover have "n = m" if "map_of (id_map f1) n = Some i" "map_of (id_map f1) m = Some i" for n m i
      using f1(2) that unfolding one_name_per_id_def by blast
    ultimately show ?thesis using i feed_request_spec by blast
  qed
  with f1(1) show ?thesis by blast
qed

text \<open>A broker that knows no datapoint and numbers the registered ones.\<close>

definition new_broker_metadata :: "string list \<Rightarrow> grpc_status \<times> Metadata list" where
  "new_broker_metadata names = (grpc_OK, [])"

definition new_broker_register :: "RegistrationMetadata list \<Rightarrow> grpc_status \<times> (string \<times> int) list" where
  "new_broker_register req = (grpc_OK, let names = remdups (map reg_name req) in zip names (map int [0..<length names]))"

lemma new_broker_answers: "results_ok (map reg_name req) (snd (new_broker_register req))"
proof -
  let ?n = "remdups (map reg_name req)"
  have "map_of (zip ?n (map int [0..<length ?n])) k \<noteq> None" if "k \<in> set ?n" for k
    using that by (simp add: map_of_zip_is_None)
  then show ?thesis
    by (auto simp: new_broker_register_def results_ok_def list_all_iff Let_def distinct_map inj_on_def)
qed

theorem registered_values_sent_witness:
  "\<exists>f1 i. registerDatapoints new_broker_metadata new_broker_register
      (FeedValue ''Seat'' (uint32_value 420) (DataBrokerFeederImpl_new demo_client [demo_dp])) = (True, f1) \<and>
    map_of (feed_request (fst (feed_take True f1)) f1) i = Some (uint32_value 420)"
proof -
  let ?f = "FeedValue ''Seat'' (uint32_value 420) (DataBrokerFeederImpl_new demo_client [demo_dp])"
  have f: "id_map ?f = []" "dp_meta ?f = []" "dp_config ?f = [demo_dp]" "stored_values ?f = [(''Seat'', uint32_value 420)]"
    by (simp_all add: FeedValue_def storeValue_def DataBrokerFeederImpl_new_def)
  from registered_values_sent [of ?f new_broker_metadata new_broker_register] f show ?thesis
    by (auto simp: new_broker_answers new_broker_metadata_def metadata_ok_def first_value_def demo_dp_def
        new_broker_register_def [THEN arg_cong [where f = fst]] status_ok_def grpc_OK_def mk_status_def STATUS_defs)
qed

end
