(* ===== verification/Service_Startup.thy ===== *)
theory Service_Startup
  imports Seat_Service Feeder_Registration
begin

text \<open>
  The order of the start-up in \<open>Run()\<close> of \<open>main.cc\<close>: first \<open>SeatAdjuster::createInstance\<close>, whose constructor starts the CTL
  thread, then the data feeder, whose constructor subscribes to the positions. Status frames may arrive before, between and
  after. What of them reaches the broker depends on that order.
\<close>

section \<open>From a frame to the feeder\<close>

text \<open>A call of the event callback, handed on by the adjuster to the function the data feeder subscribed.\<close>

fun deliver :: "environ \<Rightarrow> string \<Rightarrow> 'w SeatAdjusterImpl \<Rightarrow> cb_call \<Rightarrow> DataBrokerFeederImpl \<Rightarrow> DataBrokerFeederImpl" where
  "deliver env name a (CbCall g ev v u) f =
     (case seatctrl_event_cb env a ev v u of
        Done (CallCb cb p) \<Rightarrow> SeatDataFeeder_cb name p f
      | _ \<Rightarrow> f)"

text \<open>One frame in the CTL thread: the handler, with the callbacks it makes.\<close>

definition receive_frame ::
    "can_codec \<Rightarrow> environ \<Rightarrow> string \<Rightarrow> can_frame \<Rightarrow> 'w SeatAdjusterImpl \<times> DataBrokerFeederImpl \<Rightarrow>
      'w SeatAdjusterImpl \<times> DataBrokerFeederImpl" where
  "receive_frame K env name frame af =
     (case af of (a, f) \<Rightarrow>
        let s = snd (handle_secu_stat K frame (adj_ctx a))
        in (a\<lparr>adj_ctx := s\<rparr>, fold (deliver env name a) (drop (length (cbs (adj_ctx a))) (cbs s)) f))"

text \<open>
  The start-up for one run: the frames received before the data feeder has subscribed, and those after. Before the subscription
  there is no feeder to deliver to.
\<close>

definition startup ::
    "can_codec \<Rightarrow> environ \<Rightarrow> KuksaClient \<Rightarrow> run_setup \<Rightarrow> nat \<Rightarrow> can_frame list \<Rightarrow> can_frame list \<Rightarrow> 'w SeatAdjusterImpl \<Rightarrow>
      'w SeatAdjusterImpl \<times> DataBrokerFeederImpl" where
  "startup K env client rs cb early late a =
     (let a1 = a\<lparr>adj_ctx := threadFunc_start (adj_ctx a)\<rparr>;
          a2 = fold (\<lambda>frame x. x\<lparr>adj_ctx := snd (handle_secu_stat K frame (adj_ctx x))\<rparr>) early a1;
          (f, a3) = SeatDataFeeder_new client (rs_metadata rs) cb a2
      in fold (receive_frame K env (rs_seat_pos_name rs)) late (a3, f))"

section \<open>A seat that stands still\<close>

text \<open>A status frame that reports a position.\<close>

definition reports :: "u8 \<Rightarrow> can_frame \<Rightarrow> bool" where
  "reports p frame \<longleftrightarrow> can_id frame = CAN_SECU1_STAT_FRAME_ID \<and> 8 \<le> unat (can_dlc frame) \<and> length (fdata frame) = 8 \<and>
     fdata frame ! 2 = p"

text \<open>The adjuster knows the position \<open>p\<close>, or nothing yet.\<close>

definition listening :: "nat \<Rightarrow> u8 \<Rightarrow> 'w SeatAdjusterImpl \<Rightarrow> bool" where
  "listening self p a \<longleftrightarrow> running (ctx (adj_ctx a)) \<and> magic (ctx (adj_ctx a)) = SEAT_CTRL_CONTEXT_MAGIC \<and>
     event_cb (ctx (adj_ctx a)) = Some SEATCTRL_EVENT_CB \<and> event_cb_user_data (ctx (adj_ctx a)) = self \<and>
     motor1_pos (ctx (adj_ctx a)) = p"

context secu_codec
begin

lemma report_handled:
  assumes "reports p frame" and "uint p \<le> 100" and "listening self q a"
  shows "listening self p (a\<lparr>adj_ctx := snd (handle_secu_stat K frame (adj_ctx a))\<rparr>)"
    and "cbs (snd (handle_secu_stat K frame (adj_ctx a))) = cbs (adj_ctx a) @
      (if q = p then [] else [CbCall SEATCTRL_EVENT_CB Motor1Pos (uint p) self])"
proof -
  have eight: "length (fdata frame) = 8" using assms(1) by (simp add: reports_def)
  note h = handle_secu_stat_eq [OF eight, of "adj_ctx a"]
  show "listening self p (a\<lparr>adj_ctx := snd (handle_secu_stat K frame (adj_ctx a))\<rparr>)"
    using assms by (simp add: h reports_def listening_def motor_pos_valid_def call_event_cb_def)
  show "cbs (snd (handle_secu_stat K frame (adj_ctx a))) = cbs (adj_ctx a) @
      (if q = p then [] else [CbCall SEATCTRL_EVENT_CB Motor1Pos (uint p) self])"
    using assms by (simp add: h reports_def listening_def motor_pos_valid_def call_event_cb_def)
qed

lemma early_reports:
  assumes "list_all (reports p) frames" and "uint p \<le> 100" and "listening self q a"
  shows "listening self (if frames = [] then q else p)
    (fold (\<lambda>frame x. x\<lparr>adj_ctx := snd (handle_secu_stat K frame (adj_ctx x))\<rparr>) frames a)"
  using assms
proof (induction frames arbitrary: a q)
  case (Cons frame frames)
  then have "listening self (if frames = [] then p else p)
      (fold (\<lambda>frame x. x\<lparr>adj_ctx := snd (handle_secu_stat K frame (adj_ctx x))\<rparr>) frames
        (a\<lparr>adj_ctx := snd (handle_secu_stat K frame (adj_ctx a))\<rparr>))"
    by (intro Cons.IH report_handled(1)) simp_all
  then show ?case by simp
qed simp

lemma late_reports:
  assumes "list_all (reports p) frames" and "uint p \<le> 100" and "listening self p a"
  shows "\<exists>b. fold (receive_frame K env name) frames (a, f) = (b, f) \<and> listening self p b"
  using assms
proof (induction frames arbitrary: a)
  case (Cons frame frames)
  then have r: "reports p frame" "list_all (reports p) frames" by simp_all
  note h = report_handled [OF r(1) Cons.prems(2,3)]
  have "receive_frame K env name frame (a, f) = (a\<lparr>adj_ctx := snd (handle_secu_stat K frame (adj_ctx a))\<rparr>, f)"
    using h(2) by (simp add: receive_frame_def Let_def)
  then show ?case using Cons.IH [OF r(2) Cons.prems(2) h(1)] by simp
qed simp

lemma first_report:
  assumes "reports p frame" and "uint p \<le> 100" and "listening self q a" and "q \<noteq> p" and "self \<noteq> 0" and "adj_cb a = Some cb"
  shows "\<exists>b. receive_frame K env name frame (a, f) = (b, SeatDataFeeder_cb name (uint p) f) \<and> listening self p b"
proof -
  have "uint p \<noteq> uint MOTOR_POS_INVALID" using assms(2) by (simp add: MOTOR_POS_INVALID_def)
  then have "seatctrl_event_cb env a Motor1Pos (uint p) self = Done (CallCb cb (uint p))"
    using assms(5,6) by (simp add: seatctrl_event_cb_def)
  then have "receive_frame K env name frame (a, f) =
      (a\<lparr>adj_ctx := snd (handle_secu_stat K frame (adj_ctx a))\<rparr>, SeatDataFeeder_cb name (uint p) f)"
    using report_handled(2) [OF assms(1-3)] assms(4) by (simp add: receive_frame_def Let_def)
  then show ?thesis using report_handled(1) [OF assms(1-3)] by blast
qed

lemma startup_stored:
  assumes "SeatAdjusterImpl_new env os self can_if_name cfg s = Done a" and "self \<noteq> 0" and "uint p \<le> 100"
    and "list_all (reports p) early" and "list_all (reports p) late"
  shows "\<exists>b f. startup K env client rs cb early late a = (b, f) \<and>
    (early \<noteq> [] \<or> late \<noteq> [] \<longrightarrow> GetSeatPosition b = uint p) \<and> dp_config f = rs_metadata rs \<and>
    stored_values f = (if early = [] \<and> late \<noteq> [] then [(rs_seat_pos_name rs, position_datapoint (uint p))] else [])"
proof -
  let ?start = "a\<lparr>adj_ctx := threadFunc_start (adj_ctx a)\<rparr>"
  let ?a2 = "fold (\<lambda>frame x. x\<lparr>adj_ctx := snd (handle_secu_stat K frame (adj_ctx x))\<rparr>) early ?start"
  let ?a3 = "SubscribePosition (Some cb) ?a2"
  let ?f = "DataBrokerFeederImpl_new client (rs_metadata rs)"
  let ?q = "if early = [] then MOTOR_POS_INVALID else p"
  have start: "startup K env client rs cb early late a = fold (receive_frame K env (rs_seat_pos_name rs)) late (?a3, ?f)"
    by (simp add: startup_def SeatDataFeeder_new_def Let_def)
  have "listening self MOTOR_POS_INVALID ?start"
    using adjuster_new_unknown [OF assms(1)] by (simp add: listening_def threadFunc_start_def)
  from early_reports [OF assms(4,3) this] have l: "listening self ?q ?a3" "adj_cb ?a3 = Some cb"
    by (simp_all add: listening_def SubscribePosition_def)
  have ne: "MOTOR_POS_INVALID \<noteq> p" using assms(3) by (auto simp: MOTOR_POS_INVALID_def)
  have f: "stored_values ?f = []" "dp_config ?f = rs_metadata rs" "feeder_active ?f"
    by (simp_all add: DataBrokerFeederImpl_new_def)
  have get: "listening self p b \<Longrightarrow> GetSeatPosition b = uint p" for b :: "'w SeatAdjusterImpl"
    using assms(3) by (simp add: listening_def GetSeatPosition_def seatctrl_get_position_def MOTOR_POS_INVALID_def)
  consider "early \<noteq> []" | "early = []" "late = []" | frame rest where "early = []" "late = frame # rest" by (cases late) auto
  then show ?thesis
  proof cases
    case 1
    then have "listening self p ?a3" using l(1) by simp
    from late_reports [OF assms(5,3) this, of env "rs_seat_pos_name rs" ?f] start f get 1 show ?thesis by auto
  next
    case 2
    then show ?thesis using start f by simp
  next
    case 3
    then have q: "listening self MOTOR_POS_INVALID ?a3" using l(1) by simp
    obtain b where b: "receive_frame K env (rs_seat_pos_name rs) frame (?a3, ?f) =
        (b, SeatDataFeeder_cb (rs_seat_pos_name rs) (uint p) ?f)" "listening self p b"
      using first_report [OF _ assms(3) q ne assms(2) l(2), of frame env "rs_seat_pos_name rs" ?f] assms(5) 3(2) by auto
    obtain d where "fold (receive_frame K env (rs_seat_pos_name rs)) rest (b, SeatDataFeeder_cb (rs_seat_pos_name rs) (uint p) ?f) =
        (d, SeatDataFeeder_cb (rs_seat_pos_name rs) (uint p) ?f)" "listening self p d"
      using late_reports [OF _ assms(3) b(2)] assms(5) 3(2) by fastforce
    then show ?thesis
      using start 3 b(1) f get by (simp add: SeatDataFeeder_cb_def FeedValue_def storeValue_def)
  qed
qed

end

section \<open>The first position\<close>

text \<open>C16: The start of the service in front of a seat that stands still at a position \<open>p\<close> and reports it in every status frame. In the end the
  adjuster knows the position. The broker gets it with the first request if all frames arrive after the data feeder has
  subscribed. A single frame that the CTL thread handles before is enough for the position to be dropped: later frames report no
  change, no callback follows, and the broker is told that the position is not available.\<close>

theorem startup_position_published:
  assumes "secu_codec K" and "main_setup env argv = Done rs"
    and "SeatAdjusterImpl_new env os self (rs_can_if_name rs) cfg s = Done a" and "self \<noteq> 0" and "uint p \<le> 100"
    and "list_all (reports p) early" and "list_all (reports p) late" and "early @ late \<noteq> []"
  shows "\<exists>b f. startup K env client rs cb early late a = (b, f) \<and> GetSeatPosition b = uint p \<and>
    first_value f (hd (dp_config f)) =
      (if early = [] then position_datapoint (uint p) else failure_value NOT_AVAILABLE)"
proof -
  obtain b f where bf: "startup K env client rs cb early late a = (b, f)" "early \<noteq> [] \<or> late \<noteq> [] \<longrightarrow> GetSeatPosition b = uint p"
    "dp_config f = rs_metadata rs"
    "stored_values f = (if early = [] \<and> late \<noteq> [] then [(rs_seat_pos_name rs, position_datapoint (uint p))] else [])"
    using secu_codec.startup_stored [OF assms(1,3-7), of client rs cb] by blast
  have "dp_name (hd (rs_metadata rs)) = rs_seat_pos_name rs" "dp_initial_value (hd (rs_metadata rs)) = failure_value NOT_AVAILABLE"
    using main_setup_spec [of argv env] assms(2) by simp_all
  then show ?thesis using bf assms(8) by (auto simp: first_value_def)
qed

theorem startup_position_published_witness:
  "\<exists>rs a b f. main_setup (\<lambda>_. None) [''seat_service'', ''can0''] = Done rs \<and>
     SeatAdjusterImpl_new (\<lambda>_. None) sim 1 (rs_can_if_name rs) demo_config (demo_sys (demo_ctx 20)) = Done a \<and>
     startup dbc_codec (\<lambda>_. None) demo_client rs 9
       [\<lparr> can_id = 0x712, can_dlc = 8, fdata = [0, 0, 42, 0, 0, 0, 0, 0] \<rparr>] [] a = (b, f) \<and>
     GetSeatPosition b = 42 \<and> first_value f (hd (dp_config f)) = failure_value NOT_AVAILABLE"
proof -
  let ?fr = "\<lparr> can_id = 0x712, can_dlc = 8, fdata = [0, 0, 42, 0, 0, 0, 0, 0] \<rparr>"
  obtain rs where rs: "main_setup (\<lambda>_. None) [''seat_service'', ''can0''] = Done rs"
    by (simp add: main_setup_def Run_setup_def getEnvVar_def metadata_4_def Let_def)
  obtain a where a: "SeatAdjusterImpl_new (\<lambda>_. None) sim 1 (rs_can_if_name rs) demo_config (demo_sys (demo_ctx 20)) = Done a"
    by (rule adjuster_new_eq [of "rs_can_if_name rs" "demo_sys (demo_ctx 20)" 1 "\<lambda>_. None" sim demo_config])
       (auto simp: exit_on_error_def)
  have "reports 42 ?fr" by (simp add: reports_def CAN_SECU1_STAT_FRAME_ID_def)
  with startup_position_published [OF dbc.secu_codec_axioms rs a, of 42 "[?fr]" "[]" demo_client 9] rs a show ?thesis
    by fastforce
qed

end
