(* ===== verification/Signal_Pipe.thy ===== *)
theory Signal_Pipe
  imports Seat_Adjuster
begin

text \<open>
  The self pipe of \<open>main.cc\<close>: \<open>signal_handler\<close> writes the number of the signal into a pipe, \<open>wait_for_signal\<close> blocks the main
  thread on its other end. System calls are the fields of a \<open>pipe_sys\<close>; the locale \<open>self_pipe\<close> has the laws
  of a pipe whose write end does not block, and is interpreted on a bounded buffer.
\<close>

section \<open>The code\<close>

text \<open>
  \<open>ps_pipe\<close> gives its result and the two descriptors, \<open>ps_write\<close> the count and \<open>errno\<close>, \<open>ps_read\<close> the count and
  the byte.
\<close>

record 'w pipe_sys =
  ps_pipe :: "'w \<Rightarrow> (int \<times> int \<times> int) \<times> 'w"
  ps_getfl :: "int \<Rightarrow> 'w \<Rightarrow> int \<times> 'w"
  ps_setfl :: "int \<Rightarrow> int \<Rightarrow> 'w \<Rightarrow> int \<times> 'w"
  ps_signal :: "int \<Rightarrow> 'w \<Rightarrow> 'w"
  ps_write :: "int \<Rightarrow> u8 \<Rightarrow> 'w \<Rightarrow> (int \<times> int) \<times> 'w"
  ps_read :: "int \<Rightarrow> 'w \<Rightarrow> (int \<times> u8) \<times> 'w"

definition SIGINT :: int where "SIGINT = 2"
definition SIGTERM :: int where "SIGTERM = 15"
definition O_NONBLOCK :: int where "O_NONBLOCK = 2048"

text \<open>The loop repeats the write for as long as signals interrupt it; \<open>None\<close> would be an endless loop.\<close>

partial_function (option) signal_write :: "'w pipe_sys \<Rightarrow> int \<Rightarrow> u8 \<Rightarrow> 'w \<Rightarrow> 'w option" where
  "signal_write ps fd sig w =
     (case ps_write ps fd sig w of
        ((r, err), w1) \<Rightarrow>
          if r < 0 then (if err = EINTR then signal_write ps fd sig w1 else Some w1) else Some w1)"

definition signal_handler :: "'w pipe_sys \<Rightarrow> int \<Rightarrow> int \<Rightarrow> 'w \<Rightarrow> 'w option" where
  "signal_handler ps fd signal w = signal_write ps fd (to_u8 signal) w"

text \<open>The result is the read end of the pipe; \<open>pipefd\<close> is global in the code, so both ends are returned.\<close>

definition setup_signal_handler :: "'w pipe_sys \<Rightarrow> 'w \<Rightarrow> (int \<times> int) process \<times> 'w" where
  "setup_signal_handler ps w =
     (let ((rc, pipe_read_fd, pipe_write_fd), w1) = ps_pipe ps w
      in if rc = -1 then (Exit 1, w1)
         else
           let (fl, w2) = ps_getfl ps pipe_write_fd w1;
               (res, w3) = ps_setfl ps pipe_write_fd (fl OR O_NONBLOCK) w2
           in if res \<noteq> 0 then (Exit 1, w3)
              else (Done (pipe_read_fd, pipe_write_fd), ps_signal ps SIGTERM (ps_signal ps SIGINT w3)))"

datatype wait_result = ReadError | Received int | UnexpectedEof

text \<open>The byte is a (signed) \<open>char\<close>, converted to \<open>int\<close> for the message.\<close>

definition wait_for_signal :: "'w pipe_sys \<Rightarrow> int \<Rightarrow> 'w \<Rightarrow> wait_result \<times> 'w" where
  "wait_for_signal ps fd w =
     (let ((res, buf), w1) = ps_read ps fd w
      in (if res < 0 then ReadError else if res = 1 then Received (sint buf) else UnexpectedEof, w1))"

section \<open>A pipe that does not block its writer\<close>

text \<open>
  \<open>content\<close> is what the pipe holds, \<open>interrupts\<close> how often a write can still be interrupted. A write stores the
  byte, is interrupted, or is refused because the pipe is full.
\<close>

locale self_pipe =
  fixes ps :: "'w pipe_sys" and rfd wfd :: int and content :: "'w \<Rightarrow> u8 list" and interrupts :: "'w \<Rightarrow> nat"
  assumes write_law: "ps_write ps wfd b w = ((r, err), w1) \<Longrightarrow>
      r = 1 \<and> content w1 = content w @ [b] \<or>
      r < 0 \<and> content w1 = content w \<and> (err = EINTR \<and> interrupts w1 < interrupts w \<or> err = EAGAIN \<and> content w \<noteq> [])"
    and read_law: "content w = b # bs \<Longrightarrow> \<exists>w1. ps_read ps rfd w = ((1, b), w1) \<and> content w1 = bs"
begin

lemma signal_write_stores:
  "\<exists>w1. signal_write ps wfd b w = Some w1 \<and> (content w1 = content w @ [b] \<or> content w1 = content w \<and> content w \<noteq> [])"
proof (induction "interrupts w" arbitrary: w rule: less_induct)
  case less
  obtain r err w1 where wr: "ps_write ps wfd b w = ((r, err), w1)" by (metis surj_pair)
  have "signal_write ps wfd b w =
      (if r < 0 then (if err = EINTR then signal_write ps wfd b w1 else Some w1) else Some w1)"
    by (subst signal_write.simps) (simp add: wr)
  then show ?case
    using write_law [OF wr] less [of w1] by (auto simp: EINTR_def EAGAIN_def)
qed

lemma handler_wakes_reader:
  "\<exists>w1 w2 b. signal_handler ps wfd signal w = Some w1 \<and> wait_for_signal ps rfd w1 = (Received (sint b), w2) \<and>
     b = hd (content w @ [to_u8 signal])"
proof -
  obtain w1 where w1: "signal_handler ps wfd signal w = Some w1"
    "content w1 = content w @ [to_u8 signal] \<or> content w1 = content w \<and> content w \<noteq> []"
    using signal_write_stores [of "to_u8 signal" w] by (auto simp: signal_handler_def)
  then obtain b bs where c: "content w1 = b # bs" "b = hd (content w @ [to_u8 signal])"
    by (cases "content w") auto
  then show ?thesis
    using w1(1) read_law [OF c(1)] by (auto simp: wait_for_signal_def)
qed

end

section \<open>A bounded buffer\<close>

record pipe_world =
  pw_buffer :: "u8 list"
  pw_capacity :: nat
  pw_interrupts :: nat

definition bounded_pipe :: "pipe_world pipe_sys" where
  "bounded_pipe =
     \<lparr> ps_pipe = (\<lambda>w. ((0, 3, 4), w)), ps_getfl = (\<lambda>_ w. (1, w)), ps_setfl = (\<lambda>_ _ w. (0, w)), ps_signal = (\<lambda>_ w. w),
       ps_write = (\<lambda>_ b w.
         if pw_interrupts w > 0 then ((-1, EINTR), w\<lparr>pw_interrupts := pw_interrupts w - 1\<rparr>)
         else if pw_buffer w \<noteq> [] \<and> pw_capacity w \<le> length (pw_buffer w) then ((-1, EAGAIN), w)
         else ((1, 0), w\<lparr>pw_buffer := pw_buffer w @ [b]\<rparr>)),
       ps_read = (\<lambda>_ w. case pw_buffer w of [] \<Rightarrow> ((0, 0), w) | b # bs \<Rightarrow> ((1, b), w\<lparr>pw_buffer := bs\<rparr>)) \<rparr>"

interpretation bounded: self_pipe bounded_pipe rfd wfd pw_buffer pw_interrupts for rfd wfd
  by unfold_locales (auto simp: bounded_pipe_def split: if_splits)

text \<open>C26: No signal is lost as a wake-up. Whatever the pipe holds and however often its write is interrupted, the signal handler
  returns, and afterwards \<open>wait_for_signal\<close> returns at once with a signal: the oldest one not yet read, which is
  the new one if there was none. A full pipe refuses the byte, but then another signal is waiting.\<close>

theorem signal_wakes_main:
  assumes "self_pipe ps rfd wfd content interrupts"
  shows "\<exists>w1 w2 b. signal_handler ps wfd signal w = Some w1 \<and> wait_for_signal ps rfd w1 = (Received (sint b), w2) \<and>
    b = hd (content w @ [to_u8 signal])"
  using assms by (rule self_pipe.handler_wakes_reader)

theorem signal_wakes_main_witness:
  "\<exists>w1 w2. signal_handler bounded_pipe 4 SIGTERM \<lparr> pw_buffer = [], pw_capacity = 1, pw_interrupts = 3 \<rparr> = Some w1 \<and>
     wait_for_signal bounded_pipe 3 w1 = (Received 15, w2)"
  using signal_wakes_main [OF bounded.self_pipe_axioms, of 4 SIGTERM "\<lparr> pw_buffer = [], pw_capacity = 1, pw_interrupts = 3 \<rparr>" 3]
  by (auto simp: SIGTERM_def to_u8_def)

end
