(* ===== verification/Can_Helpers.thy ===== *)
theory Can_Helpers
  imports Seat_Controller_Spec
begin

text \<open>
  \<open>can_helpers/\<close>: the raw socket \<open>CanRawSocket\<close>, the broadcast manager socket \<open>CanBcmInterface\<close>, and the two example
  programs on top of them, \<open>can_send\<close> and \<open>can_subscribe\<close>. System calls are the fields of a \<open>can_sys\<close>. The
  classes copy between vectors of any length and the eight data bytes of a CAN frame without a check, so an
  operation yields \<open>OutOfBounds\<close> where the code would leave the array; \<open>Fine\<close> is every other outcome.
\<close>

section \<open>Data and system calls\<close>

datatype 'a checked = Fine 'a | OutOfBounds

fun bind_checked :: "'a checked \<Rightarrow> ('a \<Rightarrow> 'b checked) \<Rightarrow> 'b checked" where
  "bind_checked (Fine x) f = f x"
| "bind_checked OutOfBounds f = OutOfBounds"

record CanFrame =
  cf_can_id :: u32
  cf_data :: "u8 list"

text \<open>Linux: \<open>struct bcm_msg_head\<close> and its constants (\<open>linux/can/bcm.h\<close>).\<close>

record timeval =
  tv_sec :: int
  tv_usec :: int

record bcm_msg_head =
  bh_opcode :: u32
  bh_flags :: u32
  bh_count :: u32
  bh_ival1 :: timeval
  bh_ival2 :: timeval
  bh_can_id :: u32
  bh_nframes :: u32

definition TX_SEND :: u32 where "TX_SEND = 4"
definition RX_SETUP :: u32 where "RX_SETUP = 5"
definition RX_TIMEOUT :: u32 where "RX_TIMEOUT = 11"
definition RX_CHANGED :: u32 where "RX_CHANGED = 12"
definition SETTIMER :: u32 where "SETTIMER = 1"

record BcmMessageRaw =
  bmr_head :: bcm_msg_head
  bmr_frame :: can_frame

definition timeval_zero :: timeval where "timeval_zero = \<lparr> tv_sec = 0, tv_usec = 0 \<rparr>"

definition BcmMessageRaw_zero :: BcmMessageRaw where
  "BcmMessageRaw_zero =
     \<lparr> bmr_head = \<lparr> bh_opcode = 0, bh_flags = 0, bh_count = 0, bh_ival1 = timeval_zero, bh_ival2 = timeval_zero,
         bh_can_id = 0, bh_nframes = 0 \<rparr>,
       bmr_frame = can_frame_zero \<rparr>"

datatype can_protocol = CAN_RAW | CAN_BCM

text \<open>
  \<open>cs_read_bcm\<close> gets the buffer and gives the count, the buffer as it is afterwards (a short message leaves
  its tail) and the state; \<open>cs_sleep\<close> is \<open>std::this_thread::sleep_for\<close>, in milliseconds.
\<close>

record 'w can_sys =
  cs_socket :: "can_protocol \<Rightarrow> 'w \<Rightarrow> int \<times> 'w"
  cs_if_nametoindex :: "string \<Rightarrow> 'w \<Rightarrow> nat \<times> 'w"
  cs_bind :: "int \<Rightarrow> nat \<Rightarrow> 'w \<Rightarrow> int \<times> 'w"
  cs_connect :: "int \<Rightarrow> nat \<Rightarrow> 'w \<Rightarrow> int \<times> 'w"
  cs_write_frame :: "int \<Rightarrow> can_frame \<Rightarrow> 'w \<Rightarrow> int \<times> 'w"
  cs_write_bcm :: "int \<Rightarrow> BcmMessageRaw \<Rightarrow> 'w \<Rightarrow> int \<times> 'w"
  cs_read_bcm :: "int \<Rightarrow> BcmMessageRaw \<Rightarrow> 'w \<Rightarrow> int \<times> BcmMessageRaw \<times> 'w"
  cs_close :: "int \<Rightarrow> 'w \<Rightarrow> 'w"
  cs_sleep :: "nat \<Rightarrow> 'w \<Rightarrow> 'w"

text \<open>The characters before the terminating NUL.\<close>

definition c_str :: "string \<Rightarrow> string" where
  "c_str s = takeWhile (\<lambda>c. c \<noteq> CHR 0x00) s"

text \<open>The loop \<open>for (i = 0; i < data.size(); i++) frame.data[i] = data[i]\<close> from index \<open>i\<close> on.\<close>

fun copy_data :: "nat \<Rightarrow> u8 list \<Rightarrow> u8 list \<Rightarrow> u8 list checked" where
  "copy_data i [] buf = Fine buf"
| "copy_data i (x # xs) buf =
     (if i < length buf then copy_data (Suc i) xs (buf[i := x]) else OutOfBounds)"

section \<open>CanRawSocket\<close>

record CanRawSocket =
  raw_socket :: int

definition CanRawSocket_new :: "'w can_sys \<Rightarrow> string \<Rightarrow> 'w \<Rightarrow> CanRawSocket \<times> 'w" where
  "CanRawSocket_new cs name w =
     (let (fd, w1) = cs_socket cs CAN_RAW w
      in if fd < 0 then (\<lparr> raw_socket = fd \<rparr>, w1)
         else
           let (ifindex, w2) = cs_if_nametoindex cs (take (IFNAMSIZ - 1) (c_str name)) w1
           in if ifindex = 0 then (\<lparr> raw_socket = fd \<rparr>, w2)
              else let (_, w3) = cs_bind cs fd ifindex w2 in (\<lparr> raw_socket = fd \<rparr>, w3))"

definition CanRawSocket_SendFrame :: "'w can_sys \<Rightarrow> CanRawSocket \<Rightarrow> CanFrame \<Rightarrow> 'w \<Rightarrow> (bool \<times> 'w) checked" where
  "CanRawSocket_SendFrame cs self fr w =
     bind_checked (copy_data 0 (cf_data fr) (fdata can_frame_zero)) (\<lambda>d.
       let raw_frame = \<lparr> can_id = cf_can_id fr, can_dlc = of_nat (length (cf_data fr)), fdata = d \<rparr>;
           (ret, w1) = cs_write_frame cs (raw_socket self) raw_frame w
       in Fine (ret = sizeof_can_frame, w1))"

definition CanRawSocket_delete :: "'w can_sys \<Rightarrow> CanRawSocket \<Rightarrow> 'w \<Rightarrow> 'w" where
  "CanRawSocket_delete cs self w = (if raw_socket self \<ge> 0 then cs_close cs (raw_socket self) w else w)"

section \<open>CanBcmInterface\<close>

datatype BcmEventType = DATA_CHANGED | DATA_TIMEOUT | BCM_ERROR

type_synonym 'w BcmCallback = "BcmEventType \<Rightarrow> CanFrame \<Rightarrow> 'w \<Rightarrow> 'w checked"

record 'w CanBcmInterface =
  bcm_socket :: int
  bcm_cb :: "'w BcmCallback"

definition CanBcmInterface_new :: "'w can_sys \<Rightarrow> string \<Rightarrow> 'w \<Rightarrow> 'w CanBcmInterface \<times> 'w" where
  "CanBcmInterface_new cs if_name w =
     (let (fd, w1) = cs_socket cs CAN_BCM w;
          self = \<lparr> bcm_socket = fd, bcm_cb = (\<lambda>_ _ v. Fine v) \<rparr>
      in if fd < 0 then (self, w1)
         else
           let (ifindex, w2) = cs_if_nametoindex cs (c_str if_name) w1
           in if ifindex = 0 then (self, w2)
              else let (_, w3) = cs_connect cs fd ifindex w2 in (self, w3))"

definition CanBcmInterface_delete :: "'w can_sys \<Rightarrow> 'w CanBcmInterface \<Rightarrow> 'w \<Rightarrow> 'w" where
  "CanBcmInterface_delete cs self w = (if bcm_socket self \<ge> 0 then cs_close cs (bcm_socket self) w else w)"

definition CanBcmInterface_SendFrame ::
    "'w can_sys \<Rightarrow> 'w CanBcmInterface \<Rightarrow> CanFrame \<Rightarrow> 'w \<Rightarrow> (bool \<times> 'w) checked" where
  "CanBcmInterface_SendFrame cs self fr w =
     bind_checked (copy_data 0 (cf_data fr) (fdata (bmr_frame BcmMessageRaw_zero))) (\<lambda>d.
       let msg =
             \<lparr> bmr_head = (bmr_head BcmMessageRaw_zero)\<lparr>bh_nframes := 1, bh_can_id := cf_can_id fr, bh_opcode := TX_SEND\<rparr>,
               bmr_frame = \<lparr> can_id = cf_can_id fr, can_dlc = of_nat (length (cf_data fr)), fdata = d \<rparr> \<rparr>;
           (ret, w1) = cs_write_bcm cs (bcm_socket self) msg w
       in Fine (\<not> ret < 0, w1))"

definition SetCallback :: "'w BcmCallback \<Rightarrow> 'w CanBcmInterface \<Rightarrow> 'w CanBcmInterface" where
  "SetCallback cb self = self\<lparr>bcm_cb := cb\<rparr>"

text \<open>The timer of a subscription; \<open>timeout\<close> in milliseconds.\<close>

definition subscribe_ival1 :: "int \<Rightarrow> timeval" where
  "subscribe_ival1 timeout =
     (if timeout > 0 then
        let usecs = timeout * 1000
        in \<lparr> tv_sec = usecs div 1000000000, tv_usec = usecs mod 1000000000 \<rparr>
      else timeval_zero)"

definition SubscribeCyclicChange ::
    "'w can_sys \<Rightarrow> 'w CanBcmInterface \<Rightarrow> u32 \<Rightarrow> u8 list \<Rightarrow> int \<Rightarrow> 'w \<Rightarrow> 'w checked" where
  "SubscribeCyclicChange cs self cid data_mask timeout w =
     bind_checked (copy_data 0 data_mask (fdata (bmr_frame BcmMessageRaw_zero))) (\<lambda>d.
       let msg =
             \<lparr> bmr_head = (bmr_head BcmMessageRaw_zero)\<lparr>bh_nframes := 1, bh_can_id := cid, bh_opcode := RX_SETUP,
                 bh_flags := SETTIMER, bh_ival1 := subscribe_ival1 timeout\<rparr>,
               bmr_frame = \<lparr> can_id = cid, can_dlc = of_nat (length data_mask), fdata = d \<rparr> \<rparr>;
           (ret, w1) = cs_write_bcm cs (bcm_socket self) msg w
       in Fine w1)"

text \<open>
  One pass through the loop of \<open>RunForever\<close>. \<open>junk\<close> is the identifier in the frame of an error event, a
  variable the code never initialises; the message buffer lives across passes.
\<close>

definition RunForever_pass ::
    "'w can_sys \<Rightarrow> u32 \<Rightarrow> 'w CanBcmInterface \<Rightarrow> BcmMessageRaw \<times> 'w \<Rightarrow> (BcmMessageRaw \<times> 'w) checked" where
  "RunForever_pass cs junk self = (\<lambda>(msg0, w).
     let (nbytes, msg, w1) = cs_read_bcm cs (bcm_socket self) msg0 w
     in if nbytes < 0 then
          bind_checked (bcm_cb self BCM_ERROR \<lparr> cf_can_id = junk, cf_data = [] \<rparr> w1) (\<lambda>w2. Fine (msg, cs_sleep cs 1000 w2))
        else
          let op = bh_opcode (bmr_head msg)
          in if op \<noteq> RX_CHANGED \<and> op \<noteq> RX_TIMEOUT then Fine (msg, w1)
             else
               let event_type = (if op = RX_CHANGED then DATA_CHANGED else DATA_TIMEOUT);
                   dlc = unat (can_dlc (bmr_frame msg))
               in if dlc > length (fdata (bmr_frame msg)) then OutOfBounds
                  else bind_checked
                    (bcm_cb self event_type \<lparr> cf_can_id = can_id (bmr_frame msg), cf_data = take dlc (fdata (bmr_frame msg)) \<rparr> w1)
                    (\<lambda>w2. Fine (msg, w2)))"

text \<open>\<open>RunForever\<close> never returns: its first \<open>n\<close> passes.\<close>

fun RunForever :: "'w can_sys \<Rightarrow> u32 \<Rightarrow> 'w CanBcmInterface \<Rightarrow> nat \<Rightarrow> BcmMessageRaw \<times> 'w \<Rightarrow> (BcmMessageRaw \<times> 'w) checked" where
  "RunForever cs junk self 0 st = Fine st"
| "RunForever cs junk self (Suc n) st =
     bind_checked (RunForever_pass cs junk self st) (RunForever cs junk self n)"

section \<open>The example programs\<close>

text \<open>\<open>can_send\<close>: the position in byte 2 changes at certain passes; the frame is kept in a variable.\<close>

definition can_send_frame0 :: CanFrame where
  "can_send_frame0 = \<lparr> cf_can_id = 0x712, cf_data = [0x1, 0x50, 20, 0, 0, 0, 0, 0] \<rparr>"

definition can_send_update :: "nat \<Rightarrow> CanFrame \<Rightarrow> CanFrame" where
  "can_send_update i fr =
     (let d = cf_data fr;
          d1 = (if i = 40 then d[2 := 21] else if i = 80 then d[2 := 22] else if i = 120 then d[2 := 23]
                else if i = 160 then d[2 := 24] else if i = 200 then d[2 := 26] else if i = 240 then d[2 := 28]
                else if i = 280 then d[2 := 30] else if i = 320 then d[2 := 32] else if i = 360 then d[2 := 34] else d)
      in fr\<lparr>cf_data := d1[7 := of_nat i]\<rparr>)"

text \<open>Passes \<open>i\<close> to \<open>i + n - 1\<close> of the loop.\<close>

fun can_send_loop :: "'w can_sys \<Rightarrow> CanRawSocket \<Rightarrow> nat \<Rightarrow> nat \<Rightarrow> CanFrame \<Rightarrow> 'w \<Rightarrow> 'w checked" where
  "can_send_loop cs can_if i 0 fr w = Fine w"
| "can_send_loop cs can_if i (Suc n) fr w =
     (let fr1 = can_send_update i fr
      in bind_checked (CanRawSocket_SendFrame cs can_if fr1 w) (\<lambda>(_, w1).
           can_send_loop cs can_if (Suc i) n fr1 (cs_sleep cs 10 w1)))"

definition can_send_main :: "'w can_sys \<Rightarrow> 'w \<Rightarrow> 'w checked" where
  "can_send_main cs w =
     (let (can_if, w1) = CanRawSocket_new cs ''vcan0'' w
      in bind_checked (can_send_loop cs can_if 0 500 can_send_frame0 w1) (\<lambda>w2.
           Fine (CanRawSocket_delete cs can_if w2)))"

text \<open>\<open>can_subscribe\<close>: its callback prints the identifier and byte 2 of a changed frame; \<open>print\<close> is the
  console.\<close>

datatype can_output = PrintPosition u32 u8 | PrintNoData | PrintError

definition can_subscribe_cb :: "(can_output \<Rightarrow> 'w \<Rightarrow> 'w) \<Rightarrow> 'w BcmCallback" where
  "can_subscribe_cb print event_type msg w =
     (case event_type of
        DATA_CHANGED \<Rightarrow>
          if 2 < length (cf_data msg) then Fine (print (PrintPosition (cf_can_id msg) (cf_data msg ! 2)) w) else OutOfBounds
      | DATA_TIMEOUT \<Rightarrow> Fine (print PrintNoData w)
      | BCM_ERROR \<Rightarrow> Fine (print PrintError w))"

definition can_subscribe_frame :: CanFrame where
  "can_subscribe_frame = \<lparr> cf_can_id = 0x705, cf_data = [0x1, 0x50, 0x0, 0x0, 0x0, 0x0, 0x0, 0x0] \<rparr>"

text \<open>Up to the first \<open>n\<close> passes of \<open>RunForever\<close>; \<open>Inl\<close> is the exit code of a wrong usage.\<close>

definition can_subscribe_main ::
    "'w can_sys \<Rightarrow> (can_output \<Rightarrow> 'w \<Rightarrow> 'w) \<Rightarrow> u32 \<Rightarrow> BcmMessageRaw \<Rightarrow> string list \<Rightarrow> nat \<Rightarrow> 'w \<Rightarrow> int + 'w checked" where
  "can_subscribe_main cs print junk msg argv n w =
     (if length argv \<noteq> 2 then Inl 1
      else
        let (bcm0, w1) = CanBcmInterface_new cs (argv ! 1) w;
            bcm = SetCallback (can_subscribe_cb print) bcm0
        in Inr (bind_checked (CanBcmInterface_SendFrame cs bcm can_subscribe_frame w1) (\<lambda>(_, w2).
                bind_checked (SubscribeCyclicChange cs bcm 0x712 [0, 0, 0xff] 0 w2) (\<lambda>w3.
                bind_checked (RunForever cs junk bcm n (msg, w3)) (\<lambda>(_, w4). Fine w4)))))"

section \<open>Copying into a frame\<close>

lemma fdata_zero: "fdata can_frame_zero = replicate 8 0" "bmr_frame BcmMessageRaw_zero = can_frame_zero"
  by (simp_all add: can_frame_zero_def BcmMessageRaw_zero_def)

lemma copy_data_eq:
  "i \<le> length buf \<Longrightarrow> copy_data i xs buf =
     (if i + length xs \<le> length buf then Fine (take i buf @ xs @ drop (i + length xs) buf) else OutOfBounds)"
proof (induction xs arbitrary: i buf)
  case (Cons x xs)
  show ?case
  proof (cases "i < length buf")
    case True
    then have "take (Suc i) (buf[i := x]) = take i buf @ [x]"
      by (simp add: take_Suc_conv_app_nth)
    with True show ?thesis using Cons.IH [of "Suc i" "buf[i := x]"] by simp
  qed (use Cons.prems in simp)
qed simp

lemma copy_data_frame:
  "copy_data 0 xs (replicate 8 0) =
     (if length xs \<le> 8 then Fine (xs @ replicate (8 - length xs) 0) else OutOfBounds)"
  using copy_data_eq [of 0 "replicate 8 0" xs] by simp

text \<open>The frame on the bus for a \<open>CanFrame\<close> of at most eight bytes.\<close>

definition bus_frame :: "CanFrame \<Rightarrow> can_frame" where
  "bus_frame fr = \<lparr> can_id = cf_can_id fr, can_dlc = of_nat (length (cf_data fr)),
     fdata = cf_data fr @ replicate (8 - length (cf_data fr)) 0 \<rparr>"

lemma bus_frame_sizes [simp]:
  assumes "length (cf_data fr) \<le> 8"
  shows "length (fdata (bus_frame fr)) = 8" "unat (can_dlc (bus_frame fr)) = length (cf_data fr)"
    "take (length (cf_data fr)) (fdata (bus_frame fr)) = cf_data fr" "can_id (bus_frame fr) = cf_can_id fr"
  using assms by (simp_all add: bus_frame_def unat_of_nat)

lemma raw_SendFrame_eq:
  "CanRawSocket_SendFrame cs self fr w =
     (if length (cf_data fr) \<le> 8
      then Fine (apfst (\<lambda>ret. ret = sizeof_can_frame) (cs_write_frame cs (raw_socket self) (bus_frame fr) w)) else OutOfBounds)"
  by (simp add: CanRawSocket_SendFrame_def fdata_zero copy_data_frame bus_frame_def apfst_def map_prod_def split: prod.split)

text \<open>The head of a message to the broadcast manager about one frame.\<close>

definition bcm_head :: "u32 \<Rightarrow> u32 \<Rightarrow> u32 \<Rightarrow> timeval \<Rightarrow> bcm_msg_head" where
  "bcm_head op cid flgs ival = \<lparr> bh_opcode = op, bh_flags = flgs, bh_count = 0, bh_ival1 = ival, bh_ival2 = timeval_zero,
     bh_can_id = cid, bh_nframes = 1 \<rparr>"

lemma bcm_SendFrame_eq:
  "CanBcmInterface_SendFrame cs self fr w =
     (if length (cf_data fr) \<le> 8
      then Fine (apfst (\<lambda>ret. 0 \<le> ret) (cs_write_bcm cs (bcm_socket self)
        \<lparr> bmr_head = bcm_head TX_SEND (cf_can_id fr) 0 timeval_zero, bmr_frame = bus_frame fr \<rparr> w))
      else OutOfBounds)"
  by (simp add: CanBcmInterface_SendFrame_def BcmMessageRaw_zero_def can_frame_zero_def copy_data_frame bus_frame_def
      bcm_head_def apfst_def map_prod_def not_less split: prod.split)

lemma SubscribeCyclicChange_eq:
  "SubscribeCyclicChange cs self cid data_mask timeout w =
     (if length data_mask \<le> 8
      then Fine (snd (cs_write_bcm cs (bcm_socket self)
        \<lparr> bmr_head = bcm_head RX_SETUP cid SETTIMER (subscribe_ival1 timeout),
          bmr_frame = bus_frame \<lparr> cf_can_id = cid, cf_data = data_mask \<rparr> \<rparr> w))
      else OutOfBounds)"
  by (simp add: SubscribeCyclicChange_def BcmMessageRaw_zero_def can_frame_zero_def copy_data_frame bus_frame_def
      bcm_head_def split: prod.split)

text \<open>Both classes send every frame of at most eight bytes unchanged: identifier, length and data, filled up with zeros
  (the broadcast manager gets it as the one frame of a \<open>TX_SEND\<close> message), and report whether the system took it. A longer
  vector is copied past the end of the frame's array.\<close>

lemma send_frame_spec:
  "CanRawSocket_SendFrame cs raw fr w =
     (if length (cf_data fr) \<le> 8
      then Fine (apfst (\<lambda>ret. ret = sizeof_can_frame) (cs_write_frame cs (raw_socket raw) (bus_frame fr) w))
      else OutOfBounds) \<and>
   CanBcmInterface_SendFrame cs bcm fr w =
     (if length (cf_data fr) \<le> 8
      then Fine (apfst (\<lambda>ret. 0 \<le> ret) (cs_write_bcm cs (bcm_socket bcm)
        \<lparr> bmr_head = bcm_head TX_SEND (cf_can_id fr) 0 timeval_zero, bmr_frame = bus_frame fr \<rparr> w))
      else OutOfBounds)"
  by (simp add: raw_SendFrame_eq bcm_SendFrame_eq)

section \<open>Receiving\<close>


text \<open>A bus that loops frames back: the state is the list of the frames written.\<close>

definition loop_sys :: "can_frame list can_sys" where
  "loop_sys = \<lparr> cs_socket = (\<lambda>_ w. (3, w)), cs_if_nametoindex = (\<lambda>_ w. (1, w)), cs_bind = (\<lambda>_ _ w. (0, w)),
     cs_connect = (\<lambda>_ _ w. (0, w)), cs_write_frame = (\<lambda>_ f w. (16, w @ [f])),
     cs_write_bcm = (\<lambda>_ m w. (72, w @ [bmr_frame m])),
     cs_read_bcm = (\<lambda>_ m w. if w = [] then (-1, m, w)
        else (72, \<lparr> bmr_head = (bmr_head m)\<lparr>bh_opcode := RX_CHANGED\<rparr>, bmr_frame = hd w \<rparr>, tl w)),
     cs_close = (\<lambda>_ w. w), cs_sleep = (\<lambda>_ w. w) \<rparr>"


section \<open>The timer of a subscription\<close>

text \<open>C31: \<open>SubscribeCyclicChange\<close> divides microseconds by \<open>10^9\<close> instead of \<open>10^6\<close>. The interval it asks for is the
  timeout only below 1000 seconds, and a well-formed \<open>timeval\<close> (less than a million microseconds) only when
  the timeout is below one second, modulo 1000 seconds; a timeout of 1000 seconds is requested as one second.\<close>

theorem subscribe_timer_spec:
  assumes "0 < timeout"
  shows "(tv_sec (subscribe_ival1 timeout) * 1000000 + tv_usec (subscribe_ival1 timeout) = timeout * 1000
      \<longleftrightarrow> timeout < 1000000) \<and>
    (tv_usec (subscribe_ival1 timeout) < 1000000 \<longleftrightarrow> timeout mod 1000000 < 1000) \<and>
    0 \<le> tv_sec (subscribe_ival1 timeout) \<and> 0 \<le> tv_usec (subscribe_ival1 timeout) \<and>
    subscribe_ival1 1000000 = \<lparr> tv_sec = 1, tv_usec = 0 \<rparr>"
proof -
  have d: "timeout * 1000 div 1000000000 = timeout div 1000000"
    using div_mult_mult2 [of 1000 timeout 1000000] by simp
  have m: "timeout * 1000 mod 1000000000 = timeout mod 1000000 * 1000"
    using mult_mod_right [of timeout 1000000 1000] mod_mult_mult2 [of timeout 1000 1000000] by simp
  define q r where "q = timeout div 1000000" and "r = timeout mod 1000000"
  have t: "timeout = q * 1000000 + r" "0 \<le> r" "r < 1000000" by (simp_all add: q_def r_def)
  have i: "subscribe_ival1 timeout = \<lparr> tv_sec = q, tv_usec = r * 1000 \<rparr>"
    using assms d m by (simp add: subscribe_ival1_def q_def r_def)
  have "0 \<le> q" using assms by (simp add: q_def pos_imp_zdiv_nonneg_iff)
  moreover have "q * 1000000 + r * 1000 = timeout * 1000 \<longleftrightarrow> timeout < 1000000"
    using t \<open>0 \<le> q\<close> by auto
  moreover have "subscribe_ival1 1000000 = \<lparr> tv_sec = 1, tv_usec = 0 \<rparr>" by (simp add: subscribe_ival1_def)
  ultimately show ?thesis using t(2,3) by (simp only: i) (auto simp: r_def [symmetric])
qed

theorem subscribe_timer_spec_witness:
  "tv_usec (subscribe_ival1 999) < 1000000 \<and> \<not> tv_usec (subscribe_ival1 1500) < 1000000"
  using subscribe_timer_spec [of 999] subscribe_timer_spec [of 1500] by simp

section \<open>The example programs and the seat ECU\<close>

text \<open>The position \<open>can_send\<close> reports in pass \<open>i\<close>, and its frame.\<close>

definition can_send_position :: "nat \<Rightarrow> u8" where
  "can_send_position i = [20, 21, 22, 23, 24, 26, 28, 30, 32, 34] ! min (i div 40) 9"

definition can_send_status :: "u8 \<Rightarrow> u8 \<Rightarrow> CanFrame" where
  "can_send_status pos counter = \<lparr> cf_can_id = 0x712, cf_data = [0x1, 0x50, pos, 0, 0, 0, 0, counter] \<rparr>"

lemma can_send_status_update:
  "(cf_data (can_send_status p t))[2 := x, 7 := y] = cf_data (can_send_status x y)"
  "(cf_data (can_send_status p t))[7 := y] = cf_data (can_send_status p y)"
  by (simp_all add: can_send_status_def numeral_eq_Suc)

lemma can_send_position_same:
  assumes "i mod 40 \<noteq> 0 \<or> i = 0 \<or> 400 \<le> i"
  shows "can_send_position (i - 1) = can_send_position i"
proof -
  consider "i mod 40 \<noteq> 0" | "i = 0" | "400 \<le> i" using assms by blast
  then show ?thesis
  proof cases
    case 1
    then have "Suc (i - 1) = i" by (cases i) simp_all
    with 1 have "(i - 1) div 40 = i div 40" using div_Suc [of "i - 1" 40] by simp
    then show ?thesis by (simp add: can_send_position_def)
  next
    case 3
    then have "9 \<le> (i - 1) div 40" "9 \<le> i div 40" by (simp_all add: less_eq_div_iff_mult_less_eq)
    then show ?thesis by (simp add: can_send_position_def min_absorb2)
  qed simp
qed

lemma can_send_update_status:
  "can_send_update i (can_send_status (can_send_position (i - 1)) t) = can_send_status (can_send_position i) (of_nat i)"
proof (cases "i \<in> {40, 80, 120, 160, 200, 240, 280, 320, 360}")
  case True
  then show ?thesis
    by (elim insertE emptyE; simp add: can_send_update_def Let_def can_send_status_update can_send_position_def)
      (simp_all add: can_send_status_def)
next
  case False
  have "i mod 40 \<noteq> 0 \<or> i = 0 \<or> 400 \<le> i"
  proof (rule ccontr)
    assume n: "\<not> ?thesis"
    then obtain k where "i = 40 * k" by auto
    moreover from this n have "k \<in> {1, 2, 3, 4, 5, 6, 7, 8, 9}" by auto
    ultimately show False using False by auto
  qed
  then have "can_send_position (i - 1) = can_send_position i" by (rule can_send_position_same)
  with False show ?thesis
    by (simp add: can_send_update_def Let_def can_send_status_update) (simp add: can_send_status_def)
qed

lemma can_send_loop_writes:
  "can_send_loop cs can_if i n (can_send_status (can_send_position (i - 1)) t) w =
     Fine (fold (\<lambda>j v. cs_sleep cs 10 (snd (cs_write_frame cs (raw_socket can_if)
       (bus_frame (can_send_status (can_send_position j) (of_nat j))) v))) [i..<i + n] w)"
proof (induction n arbitrary: i t w)
  case (Suc n)
  have "length (cf_data (can_send_status p t)) \<le> 8" for p t by (simp add: can_send_status_def)
  then show ?case
    using Suc [of "Suc i"]
    by (simp add: can_send_update_status [simplified] raw_SendFrame_eq upt_conv_Cons case_prod_unfold del: upt_Suc)
qed simp

lemma can_send_position_range: "uint (can_send_position i) \<le> 34"
proof -
  let ?ramp = "[20, 21, 22, 23, 24, 26, 28, 30, 32, 34] :: u8 list"
  have "list_all (\<lambda>p. uint p \<le> 34) ?ramp" by simp
  then show ?thesis by (simp add: can_send_position_def list_all_length)
qed

text \<open>The stream of \<open>can_send\<close>. The program stays in bounds and writes 500 frames, each of which is a \<open>SECU1_STAT\<close> frame the
  seat controller accepts: pass \<open>i\<close> reports the position of the ramp, motor 1 moving down and not learned.\<close>

lemma can_send_status_frames:
  assumes "secu_codec K"
  shows "(let (can_if, w1) = CanRawSocket_new cs ''vcan0'' w in
     can_send_main cs w = Fine (CanRawSocket_delete cs can_if
       (fold (\<lambda>i v. cs_sleep cs 10 (snd (cs_write_frame cs (raw_socket can_if)
          (bus_frame (can_send_status (can_send_position i) (of_nat i))) v))) [0..<500] w1))) \<and>
    (\<exists>t. handle_secu_stat K (bus_frame (can_send_status (can_send_position i) c)) s = (SEAT_CTRL_OK, t) \<and>
       motor1_pos (ctx t) = can_send_position i \<and> motor1_mov_state (ctx t) = MotorDirection_val DEC \<and>
       motor1_learning_state (ctx t) = LearningState_val NotLearned)"
proof
  have "can_send_frame0 = can_send_status (can_send_position (0 - 1)) 0"
    by (simp add: can_send_frame0_def can_send_status_def can_send_position_def)
  then show "let (can_if, w1) = CanRawSocket_new cs ''vcan0'' w in
     can_send_main cs w = Fine (CanRawSocket_delete cs can_if
       (fold (\<lambda>i v. cs_sleep cs 10 (snd (cs_write_frame cs (raw_socket can_if)
          (bus_frame (can_send_status (can_send_position i) (of_nat i))) v))) [0..<500] w1))"
    using can_send_loop_writes [of cs _ 0 500 0]
    by (simp add: can_send_main_def del: upt_rec_numeral split: prod.split)
next
  let ?f = "bus_frame (can_send_status (can_send_position i) c)"
  have f: "length (fdata ?f) = 8" "can_id ?f = CAN_SECU1_STAT_FRAME_ID" "unat (can_dlc ?f) = 8"
    "fdata ?f ! 0 = 1" "fdata ?f ! 2 = can_send_position i"
    by (simp_all add: bus_frame_def can_send_status_def CAN_SECU1_STAT_FRAME_ID_def)
  have "motor_pos_valid (can_send_position i)"
    using can_send_position_range [of i] by (simp add: motor_pos_valid_def)
  then show "\<exists>t. handle_secu_stat K ?f s = (SEAT_CTRL_OK, t) \<and>
       motor1_pos (ctx t) = can_send_position i \<and> motor1_mov_state (ctx t) = MotorDirection_val DEC \<and>
       motor1_learning_state (ctx t) = LearningState_val NotLearned"
    by (simp add: secu_codec.handle_secu_stat_eq [OF assms f(1)] f)
qed

lemma bus_frame_command: "bus_frame can_subscribe_frame = secu1_cmd DEC (to_u8 DEFAULT_RPM)"
  by (simp add: bus_frame_def can_subscribe_frame_def secu1_cmd_def CAN_SECU1_CMD_1_FRAME_ID_def DEFAULT_RPM_def to_u8_def)

text \<open>\<open>can_subscribe\<close>. With the one argument it needs, the frame it first puts on the bus is the command the seat controller
  sends to move motor 1 down at the default speed, and it then subscribes to changes of the position byte of the status
  frame, without a timeout. Its callback prints byte 2, and leaves the array exactly for a changed frame of less
  than three bytes.\<close>

lemma can_subscribe_spec:
  "(let (bcm, w1) = CanBcmInterface_new cs (argv ! 1) w;
        w2 = snd (cs_write_bcm cs (bcm_socket bcm)
          \<lparr> bmr_head = bcm_head TX_SEND CAN_SECU1_CMD_1_FRAME_ID 0 timeval_zero,
            bmr_frame = secu1_cmd DEC (to_u8 DEFAULT_RPM) \<rparr> w1);
        w3 = snd (cs_write_bcm cs (bcm_socket bcm)
          \<lparr> bmr_head = bcm_head RX_SETUP CAN_SECU1_STAT_FRAME_ID SETTIMER timeval_zero,
            bmr_frame = bus_frame \<lparr> cf_can_id = CAN_SECU1_STAT_FRAME_ID, cf_data = [0, 0, 0xff] \<rparr> \<rparr> w2)
    in can_subscribe_main cs print junk msg argv n w =
         (if length argv = 2
          then Inr (bind_checked (RunForever cs junk (SetCallback (can_subscribe_cb print) bcm) n (msg, w3)) (\<lambda>(_, w4). Fine w4))
          else Inl 1)) \<and>
   (can_subscribe_cb print ev fr v = OutOfBounds \<longleftrightarrow> ev = DATA_CHANGED \<and> length (cf_data fr) < 3)"
proof (rule conjI, goal_cases)
  case 1
  have f: "length (cf_data can_subscribe_frame) \<le> 8" "cf_can_id can_subscribe_frame = CAN_SECU1_CMD_1_FRAME_ID"
    "subscribe_ival1 0 = timeval_zero"
    by (simp_all add: can_subscribe_frame_def CAN_SECU1_CMD_1_FRAME_ID_def subscribe_ival1_def)
  obtain bcm w1 where "CanBcmInterface_new cs (argv ! 1) w = (bcm, w1)" by fastforce
  then show ?case
    by (simp add: can_subscribe_main_def bcm_SendFrame_eq SubscribeCyclicChange_eq f bus_frame_command
        CAN_SECU1_STAT_FRAME_ID_def case_prod_unfold) (simp add: SetCallback_def)
next
  case 2
  show ?case by (cases ev) (auto simp: can_subscribe_cb_def)
qed

end
