(* ===== verification/Seat_Controller_Tool.thy ===== *)
theory Seat_Controller_Tool
  imports Seat_Controller_Spec
begin

text \<open>
  \<open>seat_controller/main.cc\<close>: the program that exercises the API of the seat controller by hand. Its global
  context is zero-initialised; what it prints of positions is its output. The locale \<open>safe_os\<close> is the
  interface to the rest of the process: while the program sleeps or joins, the CTL thread keeps the safety
  invariant. The laws are proved for a schedule in which that thread starts during the sleep after
  \<open>seatctrl_open\<close> and makes passes in every later sleep.
\<close>

section \<open>The program\<close>

definition tool_config :: seatctrl_config_t where
  "tool_config = \<lparr> can_device = Some ''vcan0'', debug_raw = False, debug_ctl = True, debug_stats = True, debug_verbose = True,
     command_timeout = DEFAULT_OPERATION_TIMEOUT, motor_rpm = DEFAULT_RPM \<rparr>"

text \<open>The configuration after the environment and the first argument.\<close>

definition tool_configure :: "environ \<Rightarrow> string list \<Rightarrow> seatctrl_config_t option" where
  "tool_configure env argv =
     (case seatctrl_default_config env (Some tool_config) of
        (rc, cfg) \<Rightarrow> if length argv > 1 then map_option (\<lambda>c. c\<lparr>can_device := Some (argv ! 1)\<rparr>) cfg else cfg)"

text \<open>The two positions to move to. The code converts the name of the variable, not its value.\<close>

definition tool_pos_1 :: "environ \<Rightarrow> int" where
  "tool_pos_1 env = (case env ''SC_POS1'' of None \<Rightarrow> 42 | Some _ \<Rightarrow> atoi ''SC_POS1'')"

definition tool_pos_2 :: "environ \<Rightarrow> int" where
  "tool_pos_2 env = (case env ''SC_POS2'' of None \<Rightarrow> 100 | Some _ \<Rightarrow> atoi ''SC_POS2'')"

text \<open>\<open>pos_cb\<close>, the callback it installs; it only prints.\<close>

definition POS_CB :: nat where "POS_CB = 1"

definition tool_main ::
    "can_codec \<Rightarrow> 'w os \<Rightarrow> environ \<Rightarrow> nat \<Rightarrow> string list \<Rightarrow> 'w sys \<Rightarrow> int \<times> int list \<times> 'w sys" where
  "tool_main K os env self argv s0 =
     (let cfg = tool_configure env argv;
          (_, s1) = seatctrl_open os CTX s0;
          (_, s2) = seatctrl_init_ctx CTX cfg s1;
          (_, s3) = seatctrl_open os CTX s2;
          s4 = os_usleep os (1 * 1000000) s3;
          (_, s5) = seatctrl_set_event_callback CTX (Some POS_CB) 0 s4;
          pos = seatctrl_get_position CTX s5;
          s6 = os_usleep os (1 * 1000000) s5;
          (_, s7) = seatctrl_set_position K os CTX (tool_pos_1 env) s6;
          s8 = os_usleep os (2 * 1000000) s7;
          (_, s9) = seatctrl_set_position K os CTX 42 s8;
          s10 = os_usleep os (10 * 1000000) s9;
          (_, s11) = seatctrl_set_position K os CTX (tool_pos_2 env) s10;
          s12 = os_usleep os (60 * 1000000) s11;
          pos2 = seatctrl_get_position CTX s12;
          (_, s13) = seatctrl_close os self CTX s12
      in (0, [pos, pos2], s13))"

section \<open>The other threads\<close>

locale safe_os = secu_codec K for K +
  fixes os :: "'w os" and cfg :: seatctrl_config_t
  assumes usleep_safe [inv_intros]: "sys_safe cfg s \<Longrightarrow> sys_safe cfg (os_usleep os us s)"
    and join_safe [inv_intros]: "sys_safe cfg s \<Longrightarrow> sys_safe cfg (snd (os_pthread_join os tid s))"
begin

lemma wait_safe [inv_intros]: "sys_safe cfg s \<Longrightarrow> sys_safe cfg (wait_motor1_pos os n s)"
  by (induction n arbitrary: s) (auto intro: usleep_safe)

lemma set_position_safe [inv_intros]:
  assumes "sys_safe cfg s"
  shows "sys_safe cfg (snd (seatctrl_set_position K os CTX d s))"
proof (cases "0 \<le> d \<and> d \<le> 100")
  case True
  have "sys_safe cfg (snd (set_position_move K os d t))" if "sys_safe cfg t" for t
    unfolding set_position_move_def using True that by (blast intro: inv_intros)
  with True assms show ?thesis
    by (subst set_position_in_range) (auto simp: sys_safe_def [THEN iffD1] Let_def intro: wait_safe)
next
  case False
  with assms show ?thesis by (auto simp: seatctrl_set_position_def)
qed

lemma close_safe [inv_intros]:
  assumes "sys_safe cfg s"
  shows "sys_safe cfg (snd (seatctrl_close os self CTX s))"
proof -
  have "sys_safe cfg (os_usleep os 5000 (upd_ctx (\<lambda>c. c\<lparr>running := False\<rparr>) s))"
    using assms by (intro usleep_safe) (simp add: sys_safe_def)
  then have "sys_safe cfg (snd (close_socket os (os_usleep os 5000 (upd_ctx (\<lambda>c. c\<lparr>running := False\<rparr>) s))))"
    by (auto simp: close_socket_def sys_safe_def split: prod.split)
  moreover have "sys_safe cfg (snd (close_thread os self rc t))" if "sys_safe cfg t" for rc t
  proof -
    have "sys_safe cfg (snd (os_pthread_join os (thread_id (ctx t)) t))" using that by (rule join_safe)
    with that show ?thesis by (auto simp: close_thread_def sys_safe_def case_prod_unfold Let_def)
  qed
  ultimately show ?thesis
    using assms by (simp add: seatctrl_close_def case_prod_unfold Let_def)
qed

lemma tool_safe:
  assumes "tool_configure env argv = Some cfg" and "magic (ctx s) \<noteq> SEAT_CTRL_CONTEXT_MAGIC"
    and "tx s = []" and "cbs s = []"
  shows "sys_safe cfg (snd (snd (tool_main K os env self argv s)))"
proof -
  have o: "seatctrl_open os CTX s = (SEAT_CTRL_ERR_INVALID, s)" using assms(2) by (simp add: seatctrl_open_def)
  have "can_device cfg \<noteq> None"
    using assms(1) by (auto simp: tool_configure_def seatctrl_default_config_def Let_def split: if_splits)
  then obtain s2 where i: "seatctrl_init_ctx CTX (Some cfg) s = (SEAT_CTRL_OK, s2)"
    by (auto simp: seatctrl_init_ctx_def)
  have "tx s2 = []" "cbs s2 = []" using i assms(3,4) by (auto simp: seatctrl_init_ctx_def split: if_splits)
  then have "sys_safe cfg s2" using init_ctx_ok [OF i] by (simp add: sys_safe_def)
  then show ?thesis
    unfolding tool_main_def using o i assms(1)
    by (simp add: Let_def case_prod_unfold)
      (intro close_safe usleep_safe set_position_safe set_event_callback_safe seatctrl_open_safe)
qed

end

section \<open>A schedule\<close>

text \<open>The CTL thread starts in the sleep of one second after \<open>seatctrl_open\<close>, and makes up to \<open>n\<close> passes in every sleep.\<close>

definition tool_view :: "can_codec \<Rightarrow> 'w os \<Rightarrow> nat \<Rightarrow> 'w os" where
  "tool_view K os n = os\<lparr>os_usleep := \<lambda>us s. ctl_slices K os n
     ((if us = 1000000 then threadFunc_start else id) (os_usleep os us s))\<rparr>"

context ctl_os
begin

lemma usleep_keeps_safe: "sys_safe cfg s \<Longrightarrow> sys_safe cfg (os_usleep os us s)"
  using usleep_quiet [of us s] by auto

lemma ctl_state_changed_safe: "sys_safe cfg s \<Longrightarrow> sys_safe cfg (ctl_state_changed K os s)"
  by (auto simp: ctl_state_changed_def ctl_resend_def intro!: sys_safe_note ctl_resend_cmd_safe usleep_keeps_safe send_off_safe)

lemma control_loop_safe: "sys_safe cfg s \<Longrightarrow> sys_safe cfg (snd (seatctrl_control_loop K os s))"
  by (auto simp: seatctrl_control_loop_def Let_def
      intro!: ctl_check_end_safe ctl_state_changed_safe usleep_keeps_safe sys_safe_learned)

lemma threadFunc_body_safe:
  assumes "sys_safe cfg s"
  shows "sys_safe cfg (snd (threadFunc_body K os s))"
proof -
  obtain cnt err f s1 where r: "os_read os (socket (ctx s)) s = ((cnt, err, f), s1)" by (metis prod_cases3 surj_pair)
  have f: "length (fdata f) = 8" using r by (rule read_buffer)
  have s1: "sys_safe cfg s1" using read_quiet [OF r] assms by auto
  have "sys_safe cfg (snd (handle_secu_stat K f s1))" using f s1 by (rule handle_secu_stat_safe)
  then show ?thesis
    using r s1
    by (auto simp: threadFunc_body_def Let_def intro!: usleep_keeps_safe control_loop_safe sys_safe_can_error
        split: prod.split)
qed

lemma ctl_slices_safe: "sys_safe cfg s \<Longrightarrow> sys_safe cfg (ctl_slices K os n s)"
proof (induction n arbitrary: s)
  case (Suc n)
  then show ?case
    using threadFunc_body_safe [OF Suc.prems] by (auto split: prod.split loop_exit.split)
qed simp

lemma tool_view_safe:
  assumes "\<And>tid s. sys_safe cfg s \<Longrightarrow> sys_safe cfg (snd (os_pthread_join os tid s))"
  shows "safe_os K (tool_view K os n) cfg"
proof unfold_locales
  fix s :: "'w sys" and us :: int and tid :: nat
  assume s: "sys_safe cfg s"
  show "sys_safe cfg (os_usleep (tool_view K os n) us s)"
    using usleep_keeps_safe [OF s, of us] by (auto simp: tool_view_def intro!: ctl_slices_safe threadFunc_start_safe)
  show "sys_safe cfg (snd (os_pthread_join (tool_view K os n) tid s))"
    using assms [OF s] by (simp add: tool_view_def)
qed

end

interpretation tool: safe_os dbc_codec "tool_view dbc_codec sim n" cfg for n cfg
  by (rule ctl_os.tool_view_safe [OF cansim.sim.ctl_os_axioms]) (simp add: sim_os_def plain_libc_def)

section \<open>The run of the program\<close>

lemma tool_positions:
  "tool_pos_1 env = (if env ''SC_POS1'' = None then 42 else 0)" "tool_pos_2 env = (if env ''SC_POS2'' = None then 100 else 0)"
proof -
  have "atoi ''SC_POS1'' = 0" "atoi ''SC_POS2'' = 0" by code_simp+
  then show "tool_pos_1 env = (if env ''SC_POS1'' = None then 42 else 0)"
    "tool_pos_2 env = (if env ''SC_POS2'' = None then 100 else 0)"
    by (auto simp: tool_pos_1_def tool_pos_2_def)
qed


text \<open>The process before \<open>main\<close>: a zeroed context, and a simulator nobody has opened yet.\<close>

definition tool_start :: "sim_world sys" where
  "tool_start =
     \<lparr> ctx = \<lparr> magic = 0, config = tool_config\<lparr>can_device := None, command_timeout := 0, motor_rpm := 0\<rparr>, socket = 0,
         running = False, thread_id = 0, command_ts = 0, desired_position = 0, desired_direction = OFF, motor1_pos = 0,
         motor1_mov_state = 0, motor1_learning_state = 0, event_cb = None, event_cb_user_data = 0 \<rparr>,
       last_ctl_pos = -1, last_ctl_dir = -1, learned_mode = False, learned_mode_changed = 0, tx = [], cbs = [],
       world = demo_world\<lparr>mock_socket := SOCKET_INVALID, mock_active := False\<rparr> \<rparr>"


end
