(* ===== verification/Seat_Controller_Log.thy ===== *)
theory Seat_Controller_Log
  imports Seat_Controller
begin

text \<open>
  The diagnostic output of \<open>seat_controller.cc\<close>: the lines its print functions write, as strings. \<open>print_can_raw\<close> builds its line
  in a buffer of 256 characters and is checked for leaving the buffer or the data of the frame; its output can be read back.
\<close>

section \<open>Conversions of printf\<close>

definition hex_digit :: "nat \<Rightarrow> char" where
  "hex_digit n = char_of (if n < 10 then 48 + n else 55 + n)"

fun hex_digits :: "nat \<Rightarrow> string" where
  "hex_digits n = (if n < 16 then [hex_digit n] else hex_digits (n div 16) @ [hex_digit (n mod 16)])"

fun dec_digits :: "nat \<Rightarrow> string" where
  "dec_digits n = (if n < 10 then [hex_digit n] else dec_digits (n div 10) @ [hex_digit (n mod 10)])"

declare hex_digits.simps [simp del] dec_digits.simps [simp del]

definition pad_left :: "nat \<Rightarrow> char \<Rightarrow> string \<Rightarrow> string" where
  "pad_left k c s = replicate (k - length s) c @ s"

definition pad_right :: "nat \<Rightarrow> string \<Rightarrow> string" where
  "pad_right k s = s @ replicate (k - length s) CHR '' ''"

text \<open>\<open>%0kX\<close>, \<open>%d\<close>, \<open>%3d\<close>; \<open>%3s\<close> and \<open>%-3s\<close> are paddings.\<close>

definition fmt_X :: "nat \<Rightarrow> nat \<Rightarrow> string" where
  "fmt_X k n = pad_left k CHR ''0'' (hex_digits n)"

definition fmt_d :: "int \<Rightarrow> string" where
  "fmt_d n = (if n < 0 then CHR ''-'' # dec_digits (nat (- n)) else dec_digits (nat n))"

definition fmt_3d :: "int \<Rightarrow> string" where
  "fmt_3d n = pad_left 3 CHR '' '' (fmt_d n)"

definition endl :: string where "endl = [CHR 0x0A]"

section \<open>The print functions\<close>

definition PREFIX_CAN :: string where "PREFIX_CAN = ''        [CAN]: ''"

text \<open>
  How \<open>print_can_raw\<close> ends: the line; a write past the 256 characters of the buffer; a read past the data of the frame. Each call of
  \<open>snprintf\<close> in the loop is given the full size of the buffer as its limit, although it starts at the end of the text so far.
\<close>

datatype raw_print = Printed string | BufferOverflow | DataOverread

fun print_raw_loop :: "can_frame \<Rightarrow> nat \<Rightarrow> nat \<Rightarrow> string \<Rightarrow> raw_print" where
  "print_raw_loop frame i 0 buf = Printed (buf @ endl)"
| "print_raw_loop frame i (Suc n) buf =
     (if i \<ge> length (fdata frame) then DataOverread
      else
        let piece = take 255 (fmt_X 2 (unat (fdata frame ! i)) @ '' '')
        in if length buf + length piece + 1 > 256 then BufferOverflow
           else print_raw_loop frame (Suc i) n (buf @ piece))"

definition raw_header :: "can_frame \<Rightarrow> bool \<Rightarrow> string" where
  "raw_header frame is_received =
     PREFIX_CAN @ (if is_received then ''RX'' else ''TX'') @ '': 0x'' @ fmt_X 3 (unat (can_id frame)) @ '' ['' @
     fmt_d (uint (can_dlc frame)) @ ''] ''"

definition print_can_raw :: "can_frame \<Rightarrow> bool \<Rightarrow> raw_print" where
  "print_can_raw frame is_received =
     print_raw_loop frame 0 (unat (can_dlc frame)) (take 255 (raw_header frame is_received))"

text \<open>\<open>len\<close> is \<open>sizeof\<close> the object whose bytes are given.\<close>

definition dumphex :: "string \<Rightarrow> u8 list \<Rightarrow> int \<Rightarrow> raw_print" where
  "dumphex prefix buf len =
     (if len > int (length buf) then DataOverread
      else Printed (prefix @ '' <'' @ fmt_d len @ ''> ['' @
        concat (map (\<lambda>b. fmt_X 2 (unat b) @ '' '') (take (nat len) buf)) @ '']'' @ endl))"

definition print_ctl_stats :: "'w os \<Rightarrow> 'w sys \<Rightarrow> string \<Rightarrow> string" where
  "print_ctl_stats os s prefix =
     (let c = ctx s; elapsed = (if command_ts c \<noteq> 0 then get_ts os s - command_ts c else -1)
      in prefix @ ''motor1:{ pos:'' @ fmt_3d (uint (motor1_pos c)) @ ''%, '' @
         pad_right 3 (mov_state_string (uint (motor1_mov_state c))) @ '' } --> target:{ pos:'' @
         fmt_3d (uint (desired_position c)) @ ''%, '' @
         pad_left 3 CHR '' '' (mov_state_string (uint (MotorDirection_val (desired_direction c)))) @
         '' }, elapsed: '' @ fmt_d elapsed @ '' ms.'' @ endl)"

definition print_secu1_cmd_1 :: "string \<Rightarrow> CAN_secu1_cmd_1_t \<Rightarrow> string" where
  "print_secu1_cmd_1 prefix cmd =
     prefix @ ''[SECU1]{ motor1_cmd: '' @ mov_state_string (uint (motor1_manual_cmd cmd)) @ '', motor1_rpm: '' @
     fmt_d (uint (motor1_set_rpm cmd) * 100) @ '' }'' @ endl"

definition print_secu1_stat :: "string \<Rightarrow> CAN_secu1_stat_t \<Rightarrow> string" where
  "print_secu1_stat prefix stat =
     prefix @ ''{ motor1_pos:'' @ fmt_3d (uint (stat_motor1_pos stat)) @ ''%, motor1_mov_state: '' @
     pad_right 3 (mov_state_string (uint (stat_motor1_mov_state stat))) @ '', motor1_learning_state: '' @
     learning_state_string (uint (stat_motor1_learning_state stat)) @ '' }'' @ endl"

section \<open>The buffer\<close>

lemma length_hex_digits: "n < 16 ^ k \<Longrightarrow> 0 < k \<Longrightarrow> length (hex_digits n) \<le> k"
proof (induction n arbitrary: k rule: hex_digits.induct)
  case (1 n)
  show ?case
  proof (cases "n < 16")
    case True
    then show ?thesis using 1(3) by (subst hex_digits.simps) simp
  next
    case False
    then obtain j where k: "k = Suc j" "0 < j" using 1(2,3) by (cases k; cases "k - 1") auto
    then have "n div 16 < 16 ^ j" using 1(2) by (simp add: div_less_iff_less_mult mult.commute)
    then show ?thesis using 1(1) [OF False] k False by (subst hex_digits.simps) simp
  qed
qed

lemma length_dec_digits: "n < 10 ^ k \<Longrightarrow> 0 < k \<Longrightarrow> length (dec_digits n) \<le> k"
proof (induction n arbitrary: k rule: dec_digits.induct)
  case (1 n)
  show ?case
  proof (cases "n < 10")
    case True
    then show ?thesis using 1(3) by (subst dec_digits.simps) simp
  next
    case False
    then obtain j where k: "k = Suc j" "0 < j" using 1(2,3) by (cases k; cases "k - 1") auto
    then have "n div 10 < 10 ^ j" using 1(2) by (simp add: div_less_iff_less_mult mult.commute)
    then show ?thesis using 1(1) [OF False] k False by (subst dec_digits.simps) simp
  qed
qed

lemma hex_digit_0: "hex_digit 0 = CHR ''0''"
  by code_simp

definition hex_byte :: "u8 \<Rightarrow> string" where
  "hex_byte w = [hex_digit (unat w div 16), hex_digit (unat w mod 16), CHR '' '']"

lemma unat_u8_less: "unat (w :: u8) < 256"
  using unsigned_less [of w, where ?'a = nat] by simp

lemma fmt_X_byte: "fmt_X 2 (unat w) @ '' '' = hex_byte (w :: u8)"
proof (cases "unat w < 16")
  case True
  then show ?thesis by (simp add: fmt_X_def pad_left_def hex_byte_def hex_digits.simps [of "unat w"] hex_digit_0)
next
  case False
  moreover have "unat w div 16 < 16" using unat_u8_less [of w] by linarith
  ultimately have "hex_digits (unat w) = [hex_digit (unat w div 16), hex_digit (unat w mod 16)]"
    by (simp add: hex_digits.simps [of "unat w"] hex_digits.simps [of "unat w div 16"])
  then show ?thesis by (simp add: fmt_X_def pad_left_def hex_byte_def)
qed

lemma raw_header_length: "length (raw_header frame r) \<le> 40"
proof -
  have "unat (can_id frame) < 16 ^ 8" using unsigned_less [of "can_id frame", where ?'a = nat] by simp
  then have "length (fmt_X 3 (unat (can_id frame))) \<le> 8"
    using length_hex_digits [of "unat (can_id frame)" 8] by (simp add: fmt_X_def pad_left_def)
  moreover have "nat (uint (can_dlc frame)) < 10 ^ 3" using unat_u8_less [of "can_dlc frame"] by simp
  then have "length (fmt_d (uint (can_dlc frame))) \<le> 3"
    using length_dec_digits [of "nat (uint (can_dlc frame))" 3] by (simp add: fmt_d_def)
  ultimately show ?thesis by (simp add: raw_header_def PREFIX_CAN_def)
qed

lemma print_raw_loop_spec:
  assumes "length buf + 3 * (length (fdata frame) - i) < 256"
  shows "print_raw_loop frame i n buf =
    (if i + n \<le> length (fdata frame) \<or> n = 0
     then Printed (buf @ concat (map hex_byte (take n (drop i (fdata frame)))) @ endl) else DataOverread)"
  using assms
proof (induction n arbitrary: i buf)
  case (Suc n)
  show ?case
  proof (cases "i < length (fdata frame)")
    case True
    then have d: "take (Suc n) (drop i (fdata frame)) = fdata frame ! i # take n (drop (Suc i) (fdata frame))"
      by (simp add: Cons_nth_drop_Suc [symmetric])
    have l: "length (hex_byte (fdata frame ! i)) = 3" by (simp add: hex_byte_def)
    show ?thesis
      using True Suc.prems Suc.IH [of "buf @ hex_byte (fdata frame ! i)" "Suc i"]
      by (simp add: fmt_X_byte [simplified] l d Let_def)
  qed simp
qed simp

section \<open>Reading a dump\<close>

definition hex_val :: "char \<Rightarrow> nat" where
  "hex_val c = (let n = of_char c in if n < 58 then n - 48 else n - 55)"

fun unhex :: "string \<Rightarrow> u8 list" where
  "unhex (a # b # c # s) = of_nat (16 * hex_val a + hex_val b) # unhex s"
| "unhex _ = []"

lemma hex_val_digit: "n < 16 \<Longrightarrow> hex_val (hex_digit n) = n"
  by (simp add: hex_val_def hex_digit_def Let_def)

lemma unhex_bytes: "length s < 3 \<Longrightarrow> unhex (concat (map hex_byte ws) @ s) = ws"
proof (induction ws)
  case Nil
  then show ?case by (cases s rule: unhex.cases) auto
next
  case (Cons w ws)
  have "unat w div 16 < 16" using unat_u8_less [of w] by simp
  then have "hex_val (hex_digit (unat w div 16)) = unat w div 16" "hex_val (hex_digit (unat w mod 16)) = unat w mod 16"
    by (simp_all add: hex_val_digit)
  moreover have "16 * (unat w div 16) + unat w mod 16 = unat w" by (rule mult_div_mod_eq)
  ultimately show ?case using Cons by (simp add: hex_byte_def)
qed

text \<open>
  \<open>print_can_raw\<close> on a frame with its eight data bytes. With a length code of at most 8 the line fits the buffer, although the limit given to
  \<open>snprintf\<close> would allow more, and shows the bytes of the frame; with a larger code the data is read past its end.
\<close>

lemma print_can_raw_spec:
  assumes "length (fdata frame) = 8"
  shows "print_can_raw frame r = (if uint (can_dlc frame) \<le> 8
      then Printed (raw_header frame r @ concat (map hex_byte (take (unat (can_dlc frame)) (fdata frame))) @ endl)
      else DataOverread)"
    and "unhex (concat (map hex_byte (take (unat (can_dlc frame)) (fdata frame))) @ endl) =
      take (unat (can_dlc frame)) (fdata frame)"
proof -
  have dlc: "uint (can_dlc frame) \<le> 8 \<longleftrightarrow> unat (can_dlc frame) \<le> 8" using uint_nat [of "can_dlc frame"] by linarith
  have h: "take 255 (raw_header frame r) = raw_header frame r" using raw_header_length [of frame r] by simp
  have "length (raw_header frame r) + 3 * (length (fdata frame) - 0) < 256"
    using raw_header_length [of frame r] assms by simp
  from print_raw_loop_spec [OF this, of "unat (can_dlc frame)"] assms dlc
  show "print_can_raw frame r = (if uint (can_dlc frame) \<le> 8
      then Printed (raw_header frame r @ concat (map hex_byte (take (unat (can_dlc frame)) (fdata frame))) @ endl)
      else DataOverread)"
    by (cases "unat (can_dlc frame) = 0") (simp_all add: print_can_raw_def h)
  show "unhex (concat (map hex_byte (take (unat (can_dlc frame)) (fdata frame))) @ endl) =
      take (unat (can_dlc frame)) (fdata frame)"
    by (rule unhex_bytes) (simp add: endl_def)
qed

end
