(* ===== verification/Seat_Svc_Client.thy ===== *)
theory Seat_Svc_Client
  imports Seats_Grpc_Service "HOL-Library.Signed_Division"
begin

text \<open>
  \<open>examples/seat_svc_client\<close>: the command line client of the gRPC seat service. The stub is a parameter (\<open>seat_net\<close>): what a
  call returns, and the state it leaves. \<open>getopt_long\<close> is represented by what it hands to the program: the
  options in order, each with its argument, and the first operand. The second half connects the client to the handlers of the service.
\<close>

section \<open>The client class\<close>

record 'w seat_net =
  net_current :: "CurrentPositionRequest \<Rightarrow> 'w \<Rightarrow> (grpc_status \<times> Seat option) \<times> 'w"
  net_move :: "MoveComponentRequest \<Rightarrow> 'w \<Rightarrow> grpc_status \<times> 'w"
  net_sleep :: "nat \<Rightarrow> 'w \<Rightarrow> 'w"

definition grpc_status_code_to_string :: "int \<Rightarrow> string" where
  "grpc_status_code_to_string status =
     (if status = STATUS_OK then ''OK''
      else if status = STATUS_CANCELLED then ''CANCELLED''
      else if status = STATUS_UNKNOWN then ''UNKNOWN''
      else if status = STATUS_INVALID_ARGUMENT then ''INVALID_ARGUMENT''
      else if status = STATUS_DEADLINE_EXCEEDED then ''DEADLINE_EXCEEDED''
      else if status = STATUS_NOT_FOUND then ''NOT_FOUND''
      else if status = STATUS_ALREADY_EXISTS then ''ALREADY_EXISTS''
      else if status = STATUS_PERMISSION_DENIED then ''PERMISSION_DENIED''
      else if status = STATUS_RESOURCE_EXHAUSTED then ''RESOURCE_EXHAUSTED''
      else if status = STATUS_FAILED_PRECONDITION then ''FAILED_PRECONDITION''
      else if status = STATUS_ABORTED then ''ABORTED''
      else if status = STATUS_OUT_OF_RANGE then ''OUT_OF_RANGE''
      else if status = STATUS_UNIMPLEMENTED then ''UNIMPLEMENTED''
      else if status = STATUS_INTERNAL then ''INTERNAL''
      else if status = STATUS_UNAVAILABLE then ''UNAVAILABLE''
      else if status = STATUS_DATA_LOSS then ''DATA_LOSS''
      else if status = STATUS_UNAUTHENTICATED then ''UNAUTHENTICATED''
      else ''UNKNOWN'')"

text \<open>The values of the enum \<open>SeatComponent\<close>; \<open>SeatComponent_IsValid\<close> tests for them.\<close>

definition CUSHION :: int where "CUSHION = 1"
definition LUMBAR :: int where "LUMBAR = 2"
definition SIDE_BOLSTER :: int where "SIDE_BOLSTER = 3"
definition HEAD_RESTRAINT :: int where "HEAD_RESTRAINT = 4"

lemmas SeatComponent_defs = BASE_def CUSHION_def LUMBAR_def SIDE_BOLSTER_def HEAD_RESTRAINT_def

definition SeatComponent_IsValid :: "int \<Rightarrow> bool" where
  "SeatComponent_IsValid c \<longleftrightarrow> c \<in> {BASE, CUSHION, LUMBAR, SIDE_BOLSTER, HEAD_RESTRAINT}"

definition get_component_position :: "int \<Rightarrow> Position \<Rightarrow> int" where
  "get_component_position seat_comp position =
     (if seat_comp = BASE then pos_base position
      else if seat_comp = CUSHION then pos_cushion position
      else if seat_comp = LUMBAR then pos_lumbar position
      else if seat_comp = SIDE_BOLSTER then pos_side_bolster position
      else if seat_comp = HEAD_RESTRAINT then pos_head_restraint position
      else -1)"

definition Position_invalid :: Position where
  "Position_invalid = \<lparr> pos_base = -1, pos_cushion = -1, pos_lumbar = -1, pos_side_bolster = -1, pos_head_restraint = -1 \<rparr>"

definition CurrentSeatPosition :: "'w seat_net \<Rightarrow> u32 \<Rightarrow> u32 \<Rightarrow> 'w \<Rightarrow> grpc_status \<times> Position \<times> 'w" where
  "CurrentSeatPosition net row index w =
     (let ((status, reply), w1) = net_current net \<lparr> cur_row = row, cur_index = index \<rparr> w;
          position =
            (if \<not> status_ok status then Position_invalid
             else case reply of
                 None \<Rightarrow> Position_invalid
               | Some seat \<Rightarrow> (case seat_position seat of None \<Rightarrow> Position_invalid | Some p \<Rightarrow> p))
      in (status, position, w1))"

definition MoveSeatPosition :: "'w seat_net \<Rightarrow> int \<Rightarrow> u32 \<Rightarrow> u32 \<Rightarrow> int \<Rightarrow> 'w \<Rightarrow> grpc_status \<times> 'w" where
  "MoveSeatPosition net component row index position w =
     net_move net \<lparr> comp_seat = Some \<lparr> loc_row = row, loc_index = index \<rparr>, comp_component = component, comp_position = position \<rparr> w"

section \<open>The program\<close>

record client_options =
  co_pos :: int
  co_row :: int
  co_col :: int
  co_wait :: bool
  co_get :: bool
  co_comp :: int
  co_target :: string

definition client_defaults :: client_options where
  "client_defaults = \<lparr> co_pos = 500, co_row = 1, co_col = 1, co_wait = False, co_get = False, co_comp = BASE,
     co_target = ''localhost:50051'' \<rparr>"

fun client_option :: "char \<times> string \<Rightarrow> client_options \<Rightarrow> client_options process" where
  "client_option (opt, optarg) co =
     (if opt = CHR ''t'' then Done (co\<lparr>co_target := optarg\<rparr>)
      else if opt = CHR ''r'' then Done (co\<lparr>co_row := atoi optarg\<rparr>)
      else if opt = CHR ''i'' then Done (co\<lparr>co_col := atoi optarg\<rparr>)
      else if opt = CHR ''c'' then
        (if SeatComponent_IsValid (atoi optarg) then Done (co\<lparr>co_comp := atoi optarg\<rparr>) else Exit 1)
      else if opt = CHR ''h'' then Exit 0
      else if opt = CHR ''g'' then Done (co\<lparr>co_get := True\<rparr>)
      else if opt = CHR ''w'' then Done (co\<lparr>co_wait := True\<rparr>)
      else if opt = CHR ''?'' then Exit 1
      else Done co)"

fun client_parse :: "(char \<times> string) list \<Rightarrow> string option \<Rightarrow> client_options \<Rightarrow> client_options process" where
  "client_parse [] operand co =
     Done (case operand of None \<Rightarrow> co | Some arg \<Rightarrow> co\<lparr>co_pos := atoi arg\<rparr>)"
| "client_parse (o1 # os) operand co =
     (case client_option o1 co of Exit rc \<Rightarrow> Exit rc | Done co1 \<Rightarrow> client_parse os operand co1)"

datatype wait_end = Reached int | Aborted grpc_status | TimedOut

text \<open>The polling loop; \<open>retries\<close> counts the polls that did not find the target.\<close>

function client_wait :: "'w seat_net \<Rightarrow> client_options \<Rightarrow> nat \<Rightarrow> 'w \<Rightarrow> wait_end \<times> 'w" where
  "client_wait net co retries w =
     (let (status, position, w1) = CurrentSeatPosition net (of_int (co_row co)) (of_int (co_col co)) w
      in if \<not> status_ok status then (Aborted status, w1)
         else
           let current_pos = get_component_position (co_comp co) position
           in if co_pos co sdiv 10 = current_pos sdiv 10 then (Reached current_pos, w1)
              else if (retries + 1) * 100 > 15000 then (TimedOut, w1)
              else client_wait net co (retries + 1) (net_sleep net 100 w1))"
  by pat_completeness auto
termination
  by (relation "measure (\<lambda>(net, co, retries, w). 151 - retries)") auto

declare client_wait.simps [simp del]

text \<open>What the program does: its exit code, the status of the query if there was one, the status of the move, how waiting ended.\<close>

record client_run =
  cr_code :: int
  cr_get :: "(grpc_status \<times> Position) option"
  cr_move :: grpc_status
  cr_wait :: "wait_end option"

definition client_main ::
    "'w seat_net \<Rightarrow> (char \<times> string) list \<Rightarrow> string option \<Rightarrow> 'w \<Rightarrow> client_run process \<times> 'w" where
  "client_main net opts operand w =
     (case client_parse opts operand client_defaults of
        Exit rc \<Rightarrow> (Exit rc, w)
      | Done co \<Rightarrow>
          let (got, w1) =
                (if co_get co then
                   let (st, p, v) = CurrentSeatPosition net (of_int (co_row co)) (of_int (co_col co)) w in (Some (st, p), v)
                 else (None, w));
              (move_result, w2) = MoveSeatPosition net (co_comp co) (of_int (co_row co)) (of_int (co_col co)) (co_pos co) w1;
              (waited, w3) =
                (if status_ok move_result \<and> co_wait co then
                   let (e, v) = client_wait net co 0 w2 in (Some e, v)
                 else (None, w2))
          in (Done \<lparr> cr_code = 0, cr_get = got, cr_move = move_result, cr_wait = waited \<rparr>, w3))"

section \<open>Client and service\<close>

text \<open>The stub connected to the handlers; \<open>rest\<close> is what happens to the service while the client sleeps.\<close>

definition service_net ::
    "(int \<Rightarrow> 's \<Rightarrow> SetResult \<times> 's) \<Rightarrow> ('s \<Rightarrow> int) \<Rightarrow> (nat \<Rightarrow> 's \<Rightarrow> 's) \<Rightarrow> 's seat_net" where
  "service_net set_position get_position rest =
     \<lparr> net_current = (\<lambda>req s. (CurrentPosition get_position req s, s)), net_move = MoveComponent set_position,
       net_sleep = rest \<rparr>"

definition base_client :: "client_options \<Rightarrow> bool" where
  "base_client co \<longleftrightarrow> co_row co = 1 \<and> co_col co = 1 \<and> co_comp co = BASE"

text \<open>The base position the service reports.\<close>

definition reported_base :: "int \<Rightarrow> int" where
  "reported_base percent = (if percent = SEAT_POSITION_INVALID then -1 else percent * 10)"

lemma poll_service:
  assumes "base_client co"
  shows "client_wait (service_net set_position get_position rest) co retries s =
    (let current_pos = reported_base (get_position s)
     in if co_pos co sdiv 10 = current_pos sdiv 10 then (Reached current_pos, s)
        else if (retries + 1) * 100 > 15000 then (TimedOut, s)
        else client_wait (service_net set_position get_position rest) co (retries + 1) (rest 100 s))"
  using assms
  by (subst client_wait.simps)
     (simp add: CurrentSeatPosition_def service_net_def CurrentPosition_def base_client_def get_component_position_def
      reported_base_def status_ok_def grpc_OK_def mk_status_def STATUS_defs Let_def)

lemma wait_times_out:
  assumes "base_client co" and "\<And>k. co_pos co sdiv 10 \<noteq> reported_base (get_position ((rest 100 ^^ k) s)) sdiv 10"
    and "retries + n = 150"
  shows "client_wait (service_net set_position get_position rest) co retries s = (TimedOut, (rest 100 ^^ n) s)"
  using assms(2,3)
proof (induction n arbitrary: retries s)
  case 0
  from 0(1) [of 0] 0(2) show ?case by (subst poll_service [OF assms(1)]) (simp add: Let_def)
next
  case (Suc n)
  have "co_pos co sdiv 10 \<noteq> reported_base (get_position ((rest 100 ^^ k) (rest 100 s))) sdiv 10" for k
    using Suc.prems(1) [of "Suc k"] by (simp add: funpow_swap1)
  then have "client_wait (service_net set_position get_position rest) co (retries + 1) (rest 100 s) =
      (TimedOut, (rest 100 ^^ n) (rest 100 s))"
    using Suc.prems(2) by (intro Suc.IH) simp_all
  with Suc.prems(1) [of 0] Suc.prems(2) show ?case
    by (subst poll_service [OF assms(1)]) (simp add: Let_def funpow_swap1)
qed

lemma sdiv_10_nonneg: "0 \<le> x \<Longrightarrow> (x :: int) sdiv 10 = x div 10"
  by (simp add: signed_divide_int_def sgn_if)

lemma percent_of_down: "percent_of pos = pos div 10 \<longleftrightarrow> pos mod 10 < 5"
  unfolding percent_of_def by presburger

text \<open>C40: Waiting for the seat. The client cuts both positions to whole percents, the service rounds to the nearest: when the
  seat has arrived and stays, the client finds it at its first poll exactly if the last digit of the requested position is
  below 5; otherwise it polls 151 times in vain, for 15 seconds. And a position that is not known (-1) counts as
  reached for every target below 10, because C++ rounds -1 / 10 to zero.\<close>

theorem client_wait_rounding:
  assumes "base_client co" and "0 \<le> co_pos co" and "co_pos co \<le> 1000"
    and "\<And>k. get_position ((rest 100 ^^ k) s) = percent_of (co_pos co)"
  shows "client_wait (service_net set_position get_position rest) co 0 s =
      (if co_pos co mod 10 < 5 then (Reached (10 * percent_of (co_pos co)), s) else (TimedOut, (rest 100 ^^ 150) s)) \<and>
    (get_position t = SEAT_POSITION_INVALID \<and> co_pos co < 10 \<longrightarrow>
      client_wait (service_net set_position get_position rest) co 0 t = (Reached (-1), t))"
proof
  let ?net = "service_net set_position get_position rest" and ?p = "percent_of (co_pos co)"
  have p: "0 \<le> ?p" "?p \<le> 100" using percent_of_range [OF assms(2,3)] by simp_all
  have r: "reported_base (get_position ((rest 100 ^^ k) s)) = 10 * ?p" for k
    using assms(4) [of k] p by (simp add: reported_base_def SEAT_POSITION_INVALID_def)
  have eq: "co_pos co sdiv 10 = (10 * ?p) sdiv 10 \<longleftrightarrow> co_pos co mod 10 < 5"
    using assms(2) p percent_of_down [of "co_pos co"] by (auto simp: sdiv_10_nonneg)
  show "client_wait ?net co 0 s =
      (if co_pos co mod 10 < 5 then (Reached (10 * ?p), s) else (TimedOut, (rest 100 ^^ 150) s))"
  proof (cases "co_pos co mod 10 < 5")
    case True
    then show ?thesis using r [of 0] eq by (subst poll_service [OF assms(1)]) (simp add: Let_def)
  next
    case False
    then have "client_wait ?net co 0 s = (TimedOut, (rest 100 ^^ 150) s)"
      by (intro wait_times_out [OF assms(1)]) (simp_all add: r eq)
    with False show ?thesis by simp
  qed
  show "get_position t = SEAT_POSITION_INVALID \<and> co_pos co < 10 \<longrightarrow> client_wait ?net co 0 t = (Reached (-1), t)"
    using assms(2)
    by (subst poll_service [OF assms(1)]) (simp add: Let_def reported_base_def signed_divide_int_def)
qed

theorem client_wait_rounding_witness:
  "client_wait (service_net (\<lambda>p s. (ResOK, p)) (\<lambda>s. s) (\<lambda>_ s. s)) (client_defaults\<lparr>co_pos := 505\<rparr>) 0 51 = (TimedOut, 51)"
proof -
  have "(\<lambda>s :: int. s) ^^ k = id" for k by (induction k) auto
  then show ?thesis
    using client_wait_rounding [of "client_defaults\<lparr>co_pos := 505\<rparr>" "\<lambda>s. s" "\<lambda>_ s. s" 51 "\<lambda>p s. (ResOK, p)"]
    by (simp add: base_client_def client_defaults_def percent_of_def)
qed

end
