(* ===== verification/Closed_Loop.thy ===== *)
theory Closed_Loop
  imports Seat_Controller_Spec
begin

text \<open>
  Controller and simulated ECU in a closed loop: a call of \<open>seatctrl_set_position\<close>, then passes of the CTL thread, on the simulator of
  \<open>tests/cansim\<close>. The simulated seat stops by itself where the real one does, at 85 and at 14 percent, and waits for a new
  command; the workaround of the control loop has to notice and send it. The seat ends exactly at the target.
\<close>

section \<open>Directions\<close>

text \<open>Short of the target; inside the zone at whose border the ECU stops; the flag it sets there; a signed increment.\<close>

definition short :: "MotorDirection \<Rightarrow> int \<Rightarrow> int \<Rightarrow> bool" where
  "short dir d p \<longleftrightarrow> (if dir = INC then p < d else d < p)"

definition zone :: "MotorDirection \<Rightarrow> int \<Rightarrow> bool" where
  "zone dir p \<longleftrightarrow> (if dir = INC then 85 \<le> p else p \<le> 14)"

definition stop_flag :: "MotorDirection \<Rightarrow> sae_context_t \<Rightarrow> bool" where
  "stop_flag dir c \<longleftrightarrow> (if dir = INC then sim_threshold_hi_stop c else sim_threshold_lo_stop c)"

definition toward :: "MotorDirection \<Rightarrow> int \<Rightarrow> int" where
  "toward dir i = (if dir = INC then i else - i)"

text \<open>Raw units that are left to the target.\<close>

definition distance :: "MotorDirection \<Rightarrow> int \<Rightarrow> int \<Rightarrow> int" where
  "distance dir d r = (if dir = INC then d * 1024 - r else r - d * 1024 - 1023)"

abbreviation seat_raw :: "sae_context_t \<Rightarrow> int" where "seat_raw c \<equiv> sae_pos (sim_motor1 c)"
abbreviation seat_percent :: "sae_context_t \<Rightarrow> int" where "seat_percent c \<equiv> sae_pos_percent (sae_pos (sim_motor1 c))"
abbreviation seat_status :: "sae_context_t \<Rightarrow> int" where "seat_status c \<equiv> sae_status (sim_motor1 c)"

lemma short_distance: "short dir d (sae_pos_percent r) \<longleftrightarrow> 0 < distance dir d r"
  by (auto simp: short_def distance_def sae_pos_percent_eq)

lemma distance_toward: "distance dir d (r + toward dir i) = distance dir d r - i"
  by (simp add: distance_def toward_def)

lemma one_tick:
  assumes "short dir d (sae_pos_percent r)" and "0 < i" and "i \<le> 1024"
  shows "sae_pos_percent (r + toward dir i) = d \<or> short dir d (sae_pos_percent (r + toward dir i))"
  using assms by (auto simp: short_def toward_def sae_pos_percent_eq)

section \<open>The engine\<close>

definition tick :: "sae_context_t \<Rightarrow> sae_context_t" where
  "tick c = sae_move_motor1 (sae_reset_thresholds c)"

definition fires :: "MotorDirection \<Rightarrow> int \<Rightarrow> sae_context_t \<Rightarrow> bool" where
  "fires dir r c \<longleftrightarrow> sim_threshold_enabled c \<and> zone dir (sae_pos_percent r) \<and> \<not> (stop_flag dir c \<and> zone dir (seat_percent c))"

lemma tick_frame [simp]:
  "sim_delay (tick c) = sim_delay c" "sim_motor1_inc (tick c) = sim_motor1_inc c" "sim_fd (tick c) = sim_fd c"
  "sim_active (tick c) = sim_active c"
  by (simp_all add: tick_def)

lemma tick_enabled [simp]: "sim_threshold_enabled (tick c) = sim_threshold_enabled c"
  by (simp add: tick_def sae_move_motor1_def sae_move_inc_def sae_move_dec_def sae_reset_thresholds_def Let_def)

lemma tick_inc:
  assumes "seat_status c = 2" and "r = seat_raw c + sim_motor1_inc c" and "sae_pos_percent r \<le> 100"
  shows "seat_raw (tick c) = r" and "seat_status (tick c) = (if fires INC r c then 0 else 2)"
    and "stop_flag INC (tick c) = (fires INC r c \<or> stop_flag INC c \<and> (sim_threshold_enabled c \<longrightarrow> zone INC (seat_percent c)))"
  using assms
  by (simp_all add: tick_def sae_move_motor1_def sae_move_inc_def sae_reset_thresholds_def sae_const_defs
      fires_def zone_def stop_flag_def Let_def not_less) blast

lemma tick_dec:
  assumes "seat_status c = 1" and "r = seat_raw c + sim_motor1_inc c" and "0 \<le> sae_pos_percent r"
  shows "seat_raw (tick c) = r" and "seat_status (tick c) = (if fires DEC r c then 0 else 1)"
    and "stop_flag DEC (tick c) = (fires DEC r c \<or> stop_flag DEC c \<and> (sim_threshold_enabled c \<longrightarrow> zone DEC (seat_percent c)))"
  using assms
  by (simp_all add: tick_def sae_move_motor1_def sae_move_dec_def sae_reset_thresholds_def sae_const_defs
      fires_def zone_def stop_flag_def Let_def not_less) blast

lemma tick_moving:
  assumes "dir = INC \<or> dir = DEC" and "seat_status c = uint (MotorDirection_val dir)"
    and "sim_motor1_inc c = toward dir i" and "r = seat_raw c + toward dir i"
    and "0 \<le> sae_pos_percent r" and "sae_pos_percent r \<le> 100"
  shows "seat_raw (tick c) = r"
    and "seat_status (tick c) = (if fires dir r c then 0 else uint (MotorDirection_val dir))"
    and "stop_flag dir (tick c) =
      (fires dir r c \<or> stop_flag dir c \<and> (sim_threshold_enabled c \<longrightarrow> zone dir (seat_percent c)))"
proof -
  have dec: "MotorDirection_val DEC = 1" and inc: "MotorDirection_val INC = 2" by simp_all
  show "seat_raw (tick c) = r"
    and "seat_status (tick c) = (if fires dir r c then 0 else uint (MotorDirection_val dir))"
    and "stop_flag dir (tick c) =
      (fires dir r c \<or> stop_flag dir c \<and> (sim_threshold_enabled c \<longrightarrow> zone dir (seat_percent c)))"
    using assms(1)
    by (elim disjE; use assms(2-6) tick_inc [of c r] tick_dec [of c r] in \<open>simp add: inc dec\<close>)+
qed

lemma tick_resting:
  assumes "dir = INC \<or> dir = DEC" and "seat_status c = 0"
  shows "sim_motor1 (tick c) = sim_motor1 c"
    and "stop_flag dir (tick c) = (stop_flag dir c \<and> (sim_threshold_enabled c \<longrightarrow> zone dir (seat_percent c)))"
  using assms
  by (auto simp: tick_def sae_move_motor1_def sae_reset_thresholds_def sae_const_defs zone_def stop_flag_def)

text \<open>The status frame of the engine, as the controller decodes it.\<close>

lemma stat_frame_decoded:
  assumes "0 \<le> seat_status c" and "seat_status c \<le> 3"
  shows "fdata (sae_stat_frame am c) ! 0 AND 3 = to_u8 (seat_status c)"
    and "fdata (sae_stat_frame am c) ! 2 = to_u8 (seat_percent c)"
proof -
  have low: "(x OR push_bit 2 y OR push_bit 4 z OR push_bit 6 v) AND 3 = x AND 3" for x y z v :: u8
  proof -
    have three: "w AND 3 = take_bit 2 w" for w :: u8 by (simp add: take_bit_eq_mask mask_eq_exp_minus_1)
    show ?thesis by (simp add: three take_bit_push_bit)
  qed
  have status: "to_u8 (seat_status c) AND 3 = to_u8 (seat_status c)"
  proof -
    have "seat_status c \<in> {0, 1, 2, 3}" using assms by auto
    then show ?thesis by (auto simp: to_u8_def)
  qed
  show "fdata (sae_stat_frame am c) ! 0 AND 3 = to_u8 (seat_status c)"
    by (simp only: sae_stat_frame_def Let_def can_frame.simps nth_Cons_0 low status)
  show "fdata (sae_stat_frame am c) ! 2 = to_u8 (seat_percent c)"
    by (simp add: sae_stat_frame_def Let_def)
qed

section \<open>Commands to the engine\<close>

text \<open>Raw units per tick at a given speed, with the default delay of the simulator.\<close>

definition seat_tick :: "int \<Rightarrow> int" where
  "seat_tick rpm = 2048000 div (8000 + 200 * (100 - rpm))"

lemma seat_tick_range:
  assumes "30 \<le> rpm" and "rpm \<le> 130"
  shows "93 \<le> seat_tick rpm" and "seat_tick rpm \<le> 1024"
proof -
  have "2048000 div 22000 \<le> 2048000 div (8000 + 200 * (100 - rpm))" using assms by (intro zdiv_mono2) auto
  then show "93 \<le> seat_tick rpm" by (simp add: seat_tick_def)
  have "2048000 div (8000 + 200 * (100 - rpm)) \<le> 2048000 div 2000" using assms by (intro zdiv_mono2) auto
  then show "seat_tick rpm \<le> 1024" by (simp add: seat_tick_def)
qed

definition engine_command :: "int \<Rightarrow> MotorDirection \<Rightarrow> u8 \<Rightarrow> sae_context_t \<Rightarrow> sae_context_t" where
  "engine_command now dir r c = sae_command now (MotorDirection_val dir) r (sae_set_rpms (secu1_cmd dir r) c)"

lemma engine_command_frame [simp]:
  "seat_raw (engine_command now dir r c) = seat_raw c" "sim_delay (engine_command now dir r c) = sim_delay c"
  "sim_fd (engine_command now dir r c) = sim_fd c" "sim_active (engine_command now dir r c) = sim_active c"
  "sim_threshold_enabled (engine_command now dir r c) = sim_threshold_enabled c"
  "stop_flag d (engine_command now dir r c) = stop_flag d c"
  by (simp_all add: engine_command_def sae_command_def sae_set_rpms_def stop_flag_def Let_def)

lemma engine_off [simp]: "seat_status (engine_command now OFF r c) = 0"
  by (simp add: engine_command_def sae_command_def sae_const_defs Let_def)

lemma engine_go:
  assumes "dir = INC \<or> dir = DEC" and "30 \<le> uint r" and "uint r \<le> 130" and "sim_delay c = 10" and "sim_fd c \<noteq> -1"
    and "sim_active c"
  shows "seat_status (engine_command now dir r c) = uint (MotorDirection_val dir)"
    and "sim_motor1_inc (engine_command now dir r c) = toward dir (seat_tick (uint r))"
proof -
  have pos: "0 < r" using assms(2) by (simp add: word_less_def)
  have "sae_pos_increment (sae_set_rpms (secu1_cmd dir r) c) = seat_tick (uint r)"
    using assms(2-6)
    by (simp add: sae_pos_increment_def sae_set_rpms_def secu1_cmd_def sae_estimate_move_time_def seat_tick_def POS_SHIFT_def
        Let_def signed_divide_int_def sgn_if)
  with pos show "seat_status (engine_command now dir r c) = uint (MotorDirection_val dir)"
    and "sim_motor1_inc (engine_command now dir r c) = toward dir (seat_tick (uint r))"
    using assms(1) by (auto simp: engine_command_def sae_command_def sae_const_defs toward_def Let_def)
qed

lemma engine_command_ok: "sae_ok c \<Longrightarrow> sae_ok (engine_command now dir r c)"
  unfolding engine_command_def by (rule sae_command_ok(1)) (simp add: sae_set_rpms_def sae_ok_def)

lemma tick_ok:
  assumes "sae_ok c" and "seat_raw c \<noteq> SAE_POS_INVALID"
  shows "sae_ok (tick c)"
  unfolding tick_def using assms by (intro sae_move_motor1_ok) (simp_all add: sae_ok_def)

text \<open>The world after a command, and after a read.\<close>

definition commanded :: "MotorDirection \<Rightarrow> u8 \<Rightarrow> sim_world \<Rightarrow> sim_world" where
  "commanded dir r w = w\<lparr>sae := engine_command (now_us w div 1000) dir r (sae w)\<rparr>"

definition ticked :: "sim_world \<Rightarrow> sim_world" where
  "ticked w = w\<lparr>sae := (tick (sae w))\<lparr>sim_motor1_oldpos := seat_percent (tick (sae w))\<rparr>,
     now_us := now_us w + sim_delay (sae w) * 1000\<rparr>"

lemma sim_alive_commanded: "sim_alive fd w \<Longrightarrow> sim_alive fd (commanded dir r w)"
  by (simp add: sim_alive_def commanded_def sim_is_mocked_fd_def engine_command_ok)

lemma sim_alive_ticked:
  assumes "sim_alive fd w" and "seat_raw (sae w) \<noteq> SAE_POS_INVALID"
  shows "sim_alive fd (ticked w)"
proof -
  have "sae_ok (tick (sae w))" using assms by (intro tick_ok) (simp_all add: sim_alive_def)
  then show ?thesis using assms(1) by (simp add: ticked_def sim_alive_def sim_is_mocked_fd_def sae_ok_def)
qed

lemma ticked_engine [simp]:
  "sim_motor1 (sae (ticked w)) = sim_motor1 (tick (sae w))" "stop_flag dir (sae (ticked w)) = stop_flag dir (tick (sae w))"
  "sim_threshold_enabled (sae (ticked w)) = sim_threshold_enabled (sae w)" "sim_delay (sae (ticked w)) = sim_delay (sae w)"
  "sim_motor1_inc (sae (ticked w)) = sim_motor1_inc (sae w)" "now_us (ticked w) = now_us w + sim_delay (sae w) * 1000"
  by (simp_all add: ticked_def stop_flag_def)

context hooked_os
begin

lemma sim_send:
  assumes "sim_alive (socket (ctx s)) (world s)"
  shows "seatctrl_send_cmd1 K (sim_os hook) (MotorDirection_val dir) r s =
    (SEAT_CTRL_OK, s\<lparr>tx := tx s @ [secu1_cmd dir r], world := commanded dir r (world s)\<rparr>)"
proof -
  have fd: "socket (ctx s) \<noteq> SOCKET_INVALID" "sim_is_mocked_fd (world s) (socket (ctx s))"
    "sim_fd (sae (world s)) = socket (ctx s)" using assms by (simp_all add: sim_alive_def)
  have "sae_write_cb now (secu1_cmd dir r) (sae (world s)) =
      ((sizeof_can_frame, 0), engine_command now dir r (sae (world s)))" for now
    using fd by (simp add: sae_write_cb_def SOCKET_INVALID_def engine_command_def secu1_cmd_def CAN_SECU1_CMD_1_FRAME_ID_def)
  then have "os_write (sim_os hook) (socket (ctx s)) (secu1_cmd dir r) (world s) =
      ((sizeof_can_frame, 0), commanded dir r (world s))"
    using fd by (simp add: sim_os_def hook_write_def commanded_def)
  then show ?thesis using fd by (simp add: send_cmd1_eq)
qed

lemma sim_stop:
  assumes "sim_alive (socket (ctx s)) (world s)"
  shows "seatctrl_stop_movement K (sim_os hook) s =
    (SEAT_CTRL_OK, s\<lparr>ctx := invalidate_command (ctx s), tx := tx s @ [secu1_cmd OFF 0], world := commanded OFF 0 (world s)\<rparr>)"
  by (simp add: seatctrl_stop_movement_def sim_send [OF assms, of OFF 0, simplified])

text \<open>A read of a known position, handled.\<close>

lemma sim_read:
  assumes "sim_alive (socket (ctx s)) (world s)" and "seat_raw (sae (world s)) \<noteq> SAE_POS_INVALID"
    and "0 \<le> seat_status (tick (sae (world s)))" and "seat_status (tick (sae (world s))) \<le> 3"
  obtains t where "threadFunc_body K (sim_os hook) s =
      (Continue, os_usleep (sim_os hook) 1000 (snd (seatctrl_control_loop K (sim_os hook) t)))"
    and "ctx t = (ctx s)\<lparr>motor1_mov_state := to_u8 (seat_status (tick (sae (world s)))),
      motor1_learning_state := motor1_learning_state (ctx t), motor1_pos := to_u8 (seat_percent (tick (sae (world s))))\<rparr>"
    and "world t = ticked (world s)" and "last_ctl_pos t = last_ctl_pos s" and "last_ctl_dir t = last_ctl_dir s"
proof -
  let ?w = "world s" and ?fd = "socket (ctx s)"
  let ?f = "sae_stat_frame (sae_all_motors ?w) (tick (sae ?w))"
  let ?s1 = "s\<lparr>world := ticked ?w\<rparr>"
  have al: "sim_is_mocked_fd ?w ?fd" "sim_fd (sae ?w) = ?fd" "sim_active (sae ?w)" "sae_ok (sae ?w)" "?fd \<noteq> -1"
    using assms(1) by (simp_all add: sim_alive_def SOCKET_INVALID_def)
  have leave: "sae_leave_invalid (sae ?w) = sae ?w" using assms(2) by (simp add: sae_leave_invalid_def)
  have "sae_read_cb (sae_all_motors ?w) (sae ?w) =
      ((sizeof_can_frame, 0, ?f), sim_delay (sae ?w), (tick (sae ?w))\<lparr>sim_motor1_oldpos := seat_percent (tick (sae ?w))\<rparr>)"
    using al assms(2) leave by (simp add: sae_read_cb_def tick_def Let_def)
  then have rd: "os_read (sim_os hook) ?fd s = ((sizeof_can_frame, 0, ?f), ?s1)"
    using al by (simp add: sim_os_def hook_read_def Let_def ticked_def)
  have "stat_frame ?f"
    using sae_move_motor1_range [of "sae_reset_thresholds (sae ?w)"] al(4) assms(2)
    by (intro sae_stat_frame_stat) (simp_all add: tick_def sae_ok_def)
  note h = sim.handle_stat_frame [OF this, of ?s1]
  let ?t = "snd (handle_secu_stat K ?f ?s1)"
  have last: "last_ctl_pos ?t = last_ctl_pos s" "last_ctl_dir ?t = last_ctl_dir s"
    by (simp_all add: handle_secu_stat_def Let_def split: option.split)
  have "can_id ?f = CAN_SECU1_STAT_FRAME_ID" by (simp add: sae_stat_frame_def Let_def CAN_SECU1_STAT_FRAME_ID_def)
  then have "threadFunc_body K (sim_os hook) s = (Continue, os_usleep (sim_os hook) 1000 (snd (seatctrl_control_loop K (sim_os hook) ?t)))"
    using h(1) by (simp add: threadFunc_body_def rd sizeof_can_frame_def Let_def case_prod_unfold)
  then show ?thesis
    using that [of ?t] h(2,3) last stat_frame_decoded [OF assms(3,4)] by (simp add: stat_ctx_def)
qed

end

section \<open>Phases of a movement\<close>

text \<open>An open controller, with its CTL thread in the loop, on a simulator with its default delay; a speed the motor moves
  with; a timeout that leaves the slowest movement the time it needs.\<close>

definition operational :: "sim_world sys \<Rightarrow> bool" where
  "operational s \<longleftrightarrow> magic (ctx s) = SEAT_CTRL_CONTEXT_MAGIC \<and> threadFunc_guard s \<and>
     sim_alive (socket (ctx s)) (world s) \<and> sim_delay (sae (world s)) = 10 \<and> 0 \<le> now_us (world s) \<and>
     30 \<le> motor_rpm (config (ctx s)) \<and> motor_rpm (config (ctx s)) \<le> 130 \<and> 12750 \<le> command_timeout (config (ctx s))"

text \<open>The controller knows where the seat is; its control loop remembers no position.\<close>

definition located :: "int \<Rightarrow> sim_world sys \<Rightarrow> bool" where
  "located p s \<longleftrightarrow> 0 \<le> p \<and> p \<le> 100 \<and> uint (motor1_pos (ctx s)) = p \<and> seat_percent (sae (world s)) = p \<and>
     last_ctl_pos s \<notin> {0..100}"

definition arrived :: "int \<Rightarrow> sim_world sys \<Rightarrow> bool" where
  "arrived d s \<longleftrightarrow> operational s \<and> located d s \<and> cmd_idle (ctx s) \<and> seat_status (sae (world s)) = 0"

text \<open>A command is pending and the seat is short of its target.\<close>

definition steering :: "MotorDirection \<Rightarrow> int \<Rightarrow> sim_world sys \<Rightarrow> bool" where
  "steering dir d s \<longleftrightarrow> operational s \<and> (dir = INC \<or> dir = DEC) \<and> 0 \<le> d \<and> d \<le> 100 \<and>
     desired_direction (ctx s) = dir \<and> desired_position (ctx s) = to_u8 d \<and> 0 < command_ts (ctx s) \<and>
     0 \<le> seat_percent (sae (world s)) \<and> seat_percent (sae (world s)) \<le> 100 \<and> short dir d (seat_percent (sae (world s)))"

lemmas steering_defs = steering_def operational_def

text \<open>The control loop will see a stop as a change; the ECU will not stop by itself any more.\<close>

definition alert :: "sim_world sys \<Rightarrow> bool" where
  "alert s \<longleftrightarrow> last_ctl_dir s \<noteq> 0 \<or> last_ctl_pos s \<notin> {0..100}"

definition past_stop :: "MotorDirection \<Rightarrow> sim_world \<Rightarrow> bool" where
  "past_stop dir w \<longleftrightarrow>
     (sim_threshold_enabled (sae w) \<longrightarrow> stop_flag dir (sae w) \<and> zone dir (seat_percent (sae w)))"

definition moving :: "MotorDirection \<Rightarrow> int \<Rightarrow> sim_world sys \<Rightarrow> bool" where
  "moving dir d s \<longleftrightarrow> steering dir d s \<and> seat_status (sae (world s)) = uint (MotorDirection_val dir) \<and>
     sim_motor1_inc (sae (world s)) = toward dir (seat_tick (motor_rpm (config (ctx s)))) \<and>
     (alert s \<or> past_stop dir (world s))"

definition halted :: "MotorDirection \<Rightarrow> int \<Rightarrow> sim_world sys \<Rightarrow> bool" where
  "halted dir d s \<longleftrightarrow> steering dir d s \<and> seat_status (sae (world s)) = 0 \<and> past_stop dir (world s) \<and> alert s"

text \<open>The same command is still pending.\<close>

definition same_command :: "sim_world sys \<Rightarrow> sim_world sys \<Rightarrow> bool" where
  "same_command s t \<longleftrightarrow> command_ts (ctx t) = command_ts (ctx s) \<and> config (ctx t) = config (ctx s)"

lemma sim_alive_now [simp]: "sim_alive fd (w\<lparr>now_us := x\<rparr>) = sim_alive fd w"
  by (simp add: sim_alive_def sim_is_mocked_fd_def)

lemma past_stop_now [simp]: "past_stop dir (w\<lparr>now_us := x\<rparr>) = past_stop dir w"
  by (simp add: past_stop_def)

lemma past_stop_commanded [simp]: "past_stop dir (commanded d r w) = past_stop dir w"
  by (simp add: past_stop_def commanded_def)

lemma commanded_engine [simp]:
  "sae (commanded d r w) = engine_command (now_us w div 1000) d r (sae w)" "now_us (commanded d r w) = now_us w"
  by (simp_all add: commanded_def)

lemma steering_running: "steering dir d s \<Longrightarrow> is_ctl_running (ctx s)"
  by (auto simp: steering_defs is_ctl_running_def threadFunc_guard_def to_u8_eq_iff)

lemma steering_known: "steering dir d s \<Longrightarrow> seat_raw (sae (world s)) \<noteq> SAE_POS_INVALID"
  by (auto simp: steering_defs SAE_POS_INVALID_def sae_pos_percent_eq)

lemma short_not_target: "short dir d p \<Longrightarrow> p \<noteq> d"
  by (auto simp: short_def split: if_splits)

text \<open>A stopped motor in a position short of the target: the control loop waits, or sends the command again.\<close>

context hooked_os
begin

lemma sim_usleep: "os_usleep (sim_os hook) n s = s\<lparr>world := (world s)\<lparr>now_us := now_us (world s) + n\<rparr>\<rparr>"
  by (simp add: sim_os_def)

lemma sim_resend:
  assumes "sim_alive (socket (ctx v)) (world v)"
  shows "ctx (ctl_resend K (sim_os hook) v) = ctx v"
    and "world (ctl_resend K (sim_os hook) v) =
      commanded (desired_direction (ctx v)) (to_u8 (motor_rpm (config (ctx v))))
        ((commanded OFF 0 (world v))\<lparr>now_us := now_us (world v) + 100000\<rparr>)"
proof -
  define y where "y = os_usleep (sim_os hook) (100 * 1000) (snd (seatctrl_send_cmd1 K (sim_os hook) (MotorDirection_val OFF) 0 v))"
  have y: "ctx y = ctx v" "world y = (commanded OFF 0 (world v))\<lparr>now_us := now_us (world v) + 100000\<rparr>"
    unfolding y_def by (simp_all only: sim_send [OF assms] sim_usleep) simp_all
  have "sim_alive (socket (ctx y)) (world y)" using sim_alive_commanded [OF assms] by (simp add: y)
  note send = sim_send [OF this]
  show "ctx (ctl_resend K (sim_os hook) v) = ctx v"
    and "world (ctl_resend K (sim_os hook) v) =
      commanded (desired_direction (ctx v)) (to_u8 (motor_rpm (config (ctx v))))
        ((commanded OFF 0 (world v))\<lparr>now_us := now_us (world v) + 100000\<rparr>)"
    unfolding ctl_resend_def y_def [symmetric] ctl_resend_cmd_def send by (simp_all add: y)
qed

text \<open>What the control loop sees of a motor that stopped short of the target.\<close>

lemma halted_seen:
  assumes "halted dir d u" and "motor1_mov_state (ctx u) = 0" and "motor1_pos (ctx u) = to_u8 (seat_percent (sae (world u)))"
  shows "motor1_pos (ctx u) \<noteq> desired_position (ctx u)" and "ctl_changed u" and "ctl_stalled (ctx u)"
    and "\<not> target_reached (ctx u)"
proof -
  have st: "steering dir d u" "alert u" using assms(1) by (simp_all add: halted_def)
  let ?p = "seat_percent (sae (world u))"
  have p: "0 \<le> ?p" "?p \<le> 100" "?p \<noteq> d" "0 \<le> d" "d \<le> 100" using st(1) short_not_target by (auto simp: steering_defs)
  have dir: "dir = INC \<or> dir = DEC" "desired_direction (ctx u) = dir" "desired_position (ctx u) = to_u8 d"
    using st(1) by (simp_all add: steering_defs)
  show ne: "motor1_pos (ctx u) \<noteq> desired_position (ctx u)" using p dir(3) assms(3) by (auto simp: to_u8_eq_iff)
  show "ctl_changed u" using st(2) p(1,2) by (auto simp: ctl_changed_def alert_def assms(2,3))
  show "ctl_stalled (ctx u)" using ne assms(2) dir by (auto simp: ctl_stalled_def)
  show "\<not> target_reached (ctx u)"
    using st(1) p dir assms(3) by (auto simp: target_reached_def steering_defs short_def u8_le_iff MOTOR_POS_INVALID_def)
qed

lemma control_loop_wait:
  assumes u: "halted dir d u" and m: "motor1_mov_state (ctx u) = 0" "motor1_pos (ctx u) = to_u8 (seat_percent (sae (world u)))"
    and early: "now_us (world u) div 1000 - command_ts (ctx u) < 500"
  defines "t \<equiv> os_usleep (sim_os hook) 1000 (snd (seatctrl_control_loop K (sim_os hook) u))"
  shows "same_command u t" and "seat_raw (sae (world t)) = seat_raw (sae (world u))" and "halted dir d t"
    and "now_us (world t) = now_us (world u) + 2000"
proof -
  define v where "v = update_learned_mode (sim_os hook) u"
  have v: "ctx v = ctx u" "world v = world u" "last_ctl_pos v = last_ctl_pos u" "last_ctl_dir v = last_ctl_dir u"
    by (simp_all add: v_def)
  have run: "is_ctl_running (ctx v)" using u steering_running by (auto simp: v halted_def)
  have "get_ts (sim_os hook) v = now_us (world u) div 1000" by (simp add: sim_get_ts v)
  then have "ctl_preliminary (get_ts (sim_os hook) v - command_ts (ctx v)) (ctx v)"
    using m early halted_seen(1) [OF u m] by (simp add: ctl_preliminary_def v)
  then have "seatctrl_control_loop K (sim_os hook) u = (SEAT_CTRL_OK, os_usleep (sim_os hook) 1000 v)"
    using run by (simp add: seatctrl_control_loop_def Let_def v_def [symmetric])
  then have t: "ctx t = ctx u" "world t = (world u)\<lparr>now_us := now_us (world u) + 2000\<rparr>"
    "last_ctl_pos t = last_ctl_pos u" "last_ctl_dir t = last_ctl_dir u"
    by (simp_all add: t_def sim_usleep v)
  show "same_command u t" "seat_raw (sae (world t)) = seat_raw (sae (world u))" "now_us (world t) = now_us (world u) + 2000"
    by (simp_all add: same_command_def t)
  show "halted dir d t" using u by (simp add: halted_def steering_defs alert_def threadFunc_guard_def t)
qed

lemma control_loop_resend:
  assumes u: "halted dir d u" and m: "motor1_mov_state (ctx u) = 0" "motor1_pos (ctx u) = to_u8 (seat_percent (sae (world u)))"
    and late: "500 \<le> now_us (world u) div 1000 - command_ts (ctx u)"
    and to: "now_us (world u) div 1000 - command_ts (ctx u) \<le> command_timeout (config (ctx u))"
  defines "t \<equiv> os_usleep (sim_os hook) 1000 (snd (seatctrl_control_loop K (sim_os hook) u))"
  shows "same_command u t" and "seat_raw (sae (world t)) = seat_raw (sae (world u))" and "moving dir d t"
    and "past_stop dir (world t)" and "now_us (world t) = now_us (world u) + 101000"
proof -
  let ?os = "sim_os hook" and ?r = "to_u8 (motor_rpm (config (ctx u)))"
  define v where "v = update_learned_mode ?os u"
  have v: "ctx v = ctx u" "world v = world u" "last_ctl_pos v = last_ctl_pos u" "last_ctl_dir v = last_ctl_dir u"
    by (simp_all add: v_def)
  have st: "steering dir d u" "past_stop dir (world u)" using u by (simp_all add: halted_def)
  define w2 where "w2 = commanded dir ?r ((commanded OFF 0 (world u))\<lparr>now_us := now_us (world u) + 100000\<rparr>)"
  have al: "sim_alive (socket (ctx u)) (world u)" and dir: "desired_direction (ctx u) = dir" "dir = INC \<or> dir = DEC"
    using st(1) by (simp_all add: steering_defs)
  have resent: "ctx (ctl_resend K ?os v) = ctx u" "world (ctl_resend K ?os v) = w2"
    using sim_resend [of v] al by (simp_all add: v dir w2_def)
  have sc: "ctl_state_changed K ?os v = ctl_note_state (ctl_resend K ?os v)"
    using halted_seen(2,3) [OF u m] by (simp add: ctl_state_changed_def v ctl_changed_def)
  have ts: "get_ts ?os v = now_us (world u) div 1000" by (simp add: sim_get_ts v)
  have "ctl_check_end K ?os e (ctl_state_changed K ?os v) = ctl_note_state (ctl_resend K ?os v)"
    if "e \<le> command_timeout (config (ctx u))" for e
    using that halted_seen(4) [OF u m] by (simp add: ctl_check_end_def sc v)
  then have "snd (seatctrl_control_loop K ?os u) = ctl_note_state (ctl_resend K ?os v)"
    using steering_running [OF st(1)] late to
    by (simp add: seatctrl_control_loop_def Let_def v_def [symmetric] ctl_preliminary_def ts v)
  then have t: "ctx t = ctx u" "world t = w2\<lparr>now_us := now_us (world u) + 101000\<rparr>"
    by (simp_all add: t_def sim_usleep resent w2_def v)
  show "same_command u t" "seat_raw (sae (world t)) = seat_raw (sae (world u))" "now_us (world t) = now_us (world u) + 101000"
    by (simp_all add: same_command_def t w2_def)
  show ps: "past_stop dir (world t)" using st(2) by (simp add: t w2_def)
  have "steering dir d t" using st(1) sim_alive_commanded by (simp add: steering_defs threadFunc_guard_def t w2_def)
  then show "moving dir d t"
    using engine_go [OF dir(2), of ?r "engine_command (now_us (world u) div 1000) OFF 0 (sae (world u))"] st(1) al ps
    by (simp add: moving_def t w2_def steering_defs sim_alive_def SOCKET_INVALID_def)
qed

lemma control_loop_halted:
  assumes "halted dir d u" and "motor1_mov_state (ctx u) = 0" and "motor1_pos (ctx u) = to_u8 (seat_percent (sae (world u)))"
    and "now_us (world u) div 1000 - command_ts (ctx u) \<le> command_timeout (config (ctx u))"
  defines "t \<equiv> os_usleep (sim_os hook) 1000 (snd (seatctrl_control_loop K (sim_os hook) u))"
  shows "same_command u t \<and> seat_raw (sae (world t)) = seat_raw (sae (world u)) \<and>
    (halted dir d t \<and> now_us (world t) = now_us (world u) + 2000 \<or>
     moving dir d t \<and> past_stop dir (world t) \<and> now_us (world t) = now_us (world u) + 101000)"
proof (cases "now_us (world u) div 1000 - command_ts (ctx u) < 500")
  case True
  from control_loop_wait [OF assms(1-3) True] show ?thesis by (simp add: t_def)
next
  case False
  then have "500 \<le> now_us (world u) div 1000 - command_ts (ctx u)" by simp
  from control_loop_resend [OF assms(1-3) this assms(4)] show ?thesis by (simp add: t_def)
qed

text \<open>A motor that moves, short of the target.\<close>

lemma control_loop_moving:
  assumes st: "steering dir d u" and m: "motor1_mov_state (ctx u) = MotorDirection_val dir"
      "motor1_pos (ctx u) = to_u8 (seat_percent (sae (world u)))"
    and to: "now_us (world u) div 1000 - command_ts (ctx u) \<le> command_timeout (config (ctx u))"
  defines "t \<equiv> os_usleep (sim_os hook) 1000 (snd (seatctrl_control_loop K (sim_os hook) u))"
  shows "ctx t = ctx u" and "world t = (world u)\<lparr>now_us := now_us (world u) + 1000\<rparr>" and "alert t"
proof -
  let ?os = "sim_os hook" and ?p = "seat_percent (sae (world u))"
  define v where "v = update_learned_mode ?os u"
  have v: "ctx v = ctx u" "world v = world u" by (simp_all add: v_def)
  have p: "0 \<le> ?p" "?p \<le> 100" "0 \<le> d" "d \<le> 100" "short dir d ?p" using st by (simp_all add: steering_defs)
  have dir: "dir = INC \<or> dir = DEC" "desired_direction (ctx u) = dir" "desired_position (ctx u) = to_u8 d"
    using st by (simp_all add: steering_defs)
  have nz: "MotorDirection_val dir \<noteq> 0" "uint (MotorDirection_val dir) \<noteq> 0" using dir(1) by auto
  define x where "x = ctl_state_changed K ?os v"
  have x: "ctx x = ctx u" "world x = world u" "last_ctl_dir x = uint (MotorDirection_val dir)"
    using nz m(1) by (auto simp: x_def ctl_state_changed_def ctl_stalled_def ctl_changed_def ctl_note_state_def v)
  have "\<not> target_reached (ctx u)"
    using p dir m(2) by (auto simp: target_reached_def short_def u8_le_iff MOTOR_POS_INVALID_def)
  then have "ctl_check_end K ?os e x = x" if "e \<le> command_timeout (config (ctx u))" for e
    using that by (simp add: ctl_check_end_def x)
  then have "snd (seatctrl_control_loop K ?os u) = x"
    using steering_running [OF st] to nz m(1)
    by (simp add: seatctrl_control_loop_def Let_def v_def [symmetric] ctl_preliminary_def sim_get_ts v x_def [symmetric])
  then show "ctx t = ctx u" "world t = (world u)\<lparr>now_us := now_us (world u) + 1000\<rparr>" "alert t"
    using nz(2) by (simp_all add: t_def sim_usleep x alert_def)
qed

text \<open>A motor that has reached the target.\<close>

lemma control_loop_arrived:
  assumes "is_ctl_running (ctx u)" and "operational u" and "0 \<le> d" and "d \<le> 100"
    and "desired_direction (ctx u) = INC \<or> desired_direction (ctx u) = DEC" and "desired_position (ctx u) = to_u8 d"
    and "motor1_pos (ctx u) = to_u8 d" and "seat_percent (sae (world u)) = d"
  defines "t \<equiv> os_usleep (sim_os hook) 1000 (snd (seatctrl_control_loop K (sim_os hook) u))"
  shows "arrived d t"
proof -
  let ?os = "sim_os hook"
  define v where "v = update_learned_mode ?os u"
  have v: "ctx v = ctx u" "world v = world u" by (simp_all add: v_def)
  define x where "x = ctl_state_changed K ?os v"
  have x: "ctx x = ctx u" "world x = world u"
    using assms(6,7) by (simp_all add: x_def ctl_state_changed_def ctl_stalled_def v)
  have "target_reached (ctx u)"
    using assms(3-7) by (auto simp: target_reached_def MOTOR_POS_INVALID_def to_u8_eq_iff)
  then have "snd (seatctrl_control_loop K ?os u) = ctl_stop K ?os x"
    using assms(1,6,7)
    by (simp add: seatctrl_control_loop_def Let_def v_def [symmetric] ctl_preliminary_def v x_def [symmetric] ctl_check_end_def x)
  then show ?thesis
    using sim_stop [of x] assms(2-4,7,8) sim_alive_commanded
    by (simp add: t_def arrived_def operational_def located_def threadFunc_guard_def sim_usleep ctl_stop_def x MOTOR_POS_INVALID_def)
qed

section \<open>One pass\<close>

lemma next_in_range:
  assumes "short dir d (sae_pos_percent r)" and "0 \<le> sae_pos_percent r" and "sae_pos_percent r \<le> 100" and "0 < i" and "i \<le> 1024"
    and "0 \<le> d" and "d \<le> 100"
  shows "0 \<le> sae_pos_percent (r + toward dir i)" and "sae_pos_percent (r + toward dir i) \<le> 100"
    and "zone dir (sae_pos_percent r) \<Longrightarrow> zone dir (sae_pos_percent (r + toward dir i))"
  using one_tick [OF assms(1,4,5)] assms sae_percent_mono [of r "r + i"] sae_percent_mono [of "r - i" r]
  by (auto simp: short_def toward_def zone_def split: if_splits)

text \<open>The tick of a moving seat: it arrives, goes on, or stops at the border of the zone.\<close>

lemma moving_tick:
  assumes mv: "moving dir d s" and r: "r = seat_raw (sae (world s)) + toward dir (seat_tick (motor_rpm (config (ctx s))))"
  shows "seat_raw (tick (sae (world s))) = r"
    and "seat_status (tick (sae (world s))) = (if fires dir r (sae (world s)) then 0 else uint (MotorDirection_val dir))"
    and "past_stop dir (world s) \<Longrightarrow> \<not> fires dir r (sae (world s)) \<and> past_stop dir (ticked (world s))"
    and "fires dir r (sae (world s)) \<Longrightarrow> past_stop dir (ticked (world s))"
    and "sae_pos_percent r = d \<or> short dir d (sae_pos_percent r)" and "0 \<le> sae_pos_percent r" and "sae_pos_percent r \<le> 100"
proof -
  let ?c = "sae (world s)" and ?i = "seat_tick (motor_rpm (config (ctx s)))"
  have st: "dir = INC \<or> dir = DEC" "seat_status ?c = uint (MotorDirection_val dir)" "sim_motor1_inc ?c = toward dir ?i"
      "short dir d (seat_percent ?c)" "0 \<le> seat_percent ?c" "seat_percent ?c \<le> 100" "0 \<le> d" "d \<le> 100"
    using mv by (simp_all add: moving_def steering_defs)
  have i: "0 < ?i" "?i \<le> 1024" using mv seat_tick_range [of "motor_rpm (config (ctx s))"] by (simp_all add: moving_def steering_defs)
  note n = next_in_range [OF st(4-6) i st(7,8), folded r]
  show "sae_pos_percent r = d \<or> short dir d (sae_pos_percent r)" using one_tick [OF st(4) i] r by simp
  show "0 \<le> sae_pos_percent r" "sae_pos_percent r \<le> 100" by (rule n)+
  note t = tick_moving [OF st(1-3) r n(1,2)]
  show "seat_raw (tick ?c) = r" and "seat_status (tick ?c) = (if fires dir r ?c then 0 else uint (MotorDirection_val dir))"
    by (rule t)+
  show "past_stop dir (world s) \<Longrightarrow> \<not> fires dir r ?c \<and> past_stop dir (ticked (world s))"
    using n(3) t by (auto simp: past_stop_def fires_def)
  show "fires dir r ?c \<Longrightarrow> past_stop dir (ticked (world s))"
    using t by (auto simp: past_stop_def fires_def)
qed

text \<open>The state in which the control loop runs after the read of a pass.\<close>

lemma steering_read:
  assumes st: "steering dir d s" and "0 \<le> seat_status (tick (sae (world s)))" and "seat_status (tick (sae (world s))) \<le> 3"
    and "0 \<le> seat_percent (tick (sae (world s)))" and "seat_percent (tick (sae (world s))) \<le> 100"
  obtains u where "threadFunc_body K (sim_os hook) s =
      (Continue, os_usleep (sim_os hook) 1000 (snd (seatctrl_control_loop K (sim_os hook) u)))"
    and "same_command s u" and "is_ctl_running (ctx u)" and "operational u" and "world u = ticked (world s)"
    and "motor1_pos (ctx u) = to_u8 (seat_percent (tick (sae (world s))))"
    and "motor1_mov_state (ctx u) = to_u8 (seat_status (tick (sae (world s))))"
    and "desired_direction (ctx u) = dir" and "desired_position (ctx u) = to_u8 d" and "alert u = alert s"
    and "short dir d (seat_percent (tick (sae (world s)))) \<Longrightarrow> steering dir d u"
proof -
  have al: "sim_alive (socket (ctx s)) (world s)" using st by (simp add: steering_defs)
  obtain u where body: "threadFunc_body K (sim_os hook) s =
      (Continue, os_usleep (sim_os hook) 1000 (snd (seatctrl_control_loop K (sim_os hook) u)))"
    and cu: "ctx u = (ctx s)\<lparr>motor1_mov_state := to_u8 (seat_status (tick (sae (world s)))),
      motor1_learning_state := motor1_learning_state (ctx u), motor1_pos := to_u8 (seat_percent (tick (sae (world s))))\<rparr>"
    and wu: "world u = ticked (world s)" and lu: "last_ctl_pos u = last_ctl_pos s" "last_ctl_dir u = last_ctl_dir s"
    by (rule sim_read [OF al steering_known [OF st] assms(2,3)])
  have u: "command_ts (ctx u) = command_ts (ctx s)" "config (ctx u) = config (ctx s)" "socket (ctx u) = socket (ctx s)"
      "running (ctx u) = running (ctx s)" "magic (ctx u) = magic (ctx s)" "desired_direction (ctx u) = desired_direction (ctx s)"
      "desired_position (ctx u) = desired_position (ctx s)"
      "motor1_pos (ctx u) = to_u8 (seat_percent (tick (sae (world s))))"
      "motor1_mov_state (ctx u) = to_u8 (seat_status (tick (sae (world s))))"
    by (subst cu, simp)+
  have al_u: "sim_alive (socket (ctx u)) (world u)" using sim_alive_ticked [OF al steering_known [OF st]] by (simp add: u wu)
  have op: "operational u" using st al_u by (simp add: steering_defs threadFunc_guard_def u wu)
  have "steering dir d u" if "short dir d (seat_percent (tick (sae (world s))))"
    using st that assms(4,5) op by (simp add: steering_def u wu)
  then show ?thesis
    using that [OF body] op wu u st steering_running [OF st]
    by (simp add: same_command_def is_ctl_running_def alert_def lu steering_def)
qed

lemma moving_pass:
  assumes mv: "moving dir d s"
    and to: "(now_us (world s) + 10000) div 1000 - command_ts (ctx s) \<le> command_timeout (config (ctx s))"
  defines "t \<equiv> snd (threadFunc_body K (sim_os hook) s)"
    and "r \<equiv> seat_raw (sae (world s)) + toward dir (seat_tick (motor_rpm (config (ctx s))))"
  shows "fst (threadFunc_body K (sim_os hook) s) = Continue"
    and "arrived d t \<or> same_command s t \<and> seat_raw (sae (world t)) = r \<and>
      (moving dir d t \<and> now_us (world t) = now_us (world s) + 11000 \<and> (past_stop dir (world s) \<longrightarrow> past_stop dir (world t)) \<or>
       \<not> past_stop dir (world s) \<and> halted dir d t \<and> now_us (world t) = now_us (world s) + 12000 \<or>
       \<not> past_stop dir (world s) \<and> moving dir d t \<and> past_stop dir (world t) \<and> now_us (world t) = now_us (world s) + 111000)"
    (is "?goal")
proof -
  note k = moving_tick [OF mv r_def [THEN meta_eq_to_obj_eq]]
  have st: "steering dir d s" using mv by (simp add: moving_def)
  have delay: "sim_delay (sae (world s)) = 10" and dir: "dir = INC \<or> dir = DEC" "0 \<le> d" "d \<le> 100"
    using st by (simp_all add: steering_defs)
  have "0 \<le> seat_status (tick (sae (world s)))" "seat_status (tick (sae (world s))) \<le> 3"
    using k(2) dir(1) by (auto split: if_splits)
  then obtain u where body: "threadFunc_body K (sim_os hook) s =
      (Continue, os_usleep (sim_os hook) 1000 (snd (seatctrl_control_loop K (sim_os hook) u)))"
    and same: "same_command s u" and run: "is_ctl_running (ctx u)" and op_u: "operational u"
    and wu: "world u = ticked (world s)" and pu: "motor1_pos (ctx u) = to_u8 (sae_pos_percent r)"
    and mu: "motor1_mov_state (ctx u) = to_u8 (seat_status (tick (sae (world s))))"
    and du: "desired_direction (ctx u) = dir" "desired_position (ctx u) = to_u8 d" and lu: "alert u = alert s"
    and st_u: "short dir d (sae_pos_percent r) \<Longrightarrow> steering dir d u"
    using steering_read [OF st] k(1,6,7) by metis
  have t: "t = os_usleep (sim_os hook) 1000 (snd (seatctrl_control_loop K (sim_os hook) u))" by (simp add: t_def body)
  show "fst (threadFunc_body K (sim_os hook) s) = Continue" by (simp add: body)
  have to_u: "now_us (world u) div 1000 - command_ts (ctx u) \<le> command_timeout (config (ctx u))"
    using to same by (simp add: wu delay same_command_def)
  have pos: "motor1_pos (ctx u) = to_u8 (seat_percent (sae (world u)))" using pu k(1) by (simp add: wu)
  consider "sae_pos_percent r = d" | "short dir d (sae_pos_percent r)" "\<not> fires dir r (sae (world s))"
    | "short dir d (sae_pos_percent r)" "fires dir r (sae (world s))" using k(5) by blast
  then show ?goal
  proof cases
    case 1
    then have "arrived d t" unfolding t
      using run op_u dir du pu k(1) by (intro control_loop_arrived) (simp_all add: wu)
    then show ?thesis by blast
  next
    case 2
    have "motor1_mov_state (ctx u) = MotorDirection_val dir" using 2 k(2) mu by simp
    note c = control_loop_moving [OF st_u [OF 2(1)] this pos to_u, folded t]
    have "moving dir d t"
      using st_u [OF 2(1)] c mv k(2) 2(2) same by (simp add: moving_def steering_defs threadFunc_guard_def wu same_command_def)
    then show ?thesis using c k(1,3) same by (auto simp: same_command_def wu delay)
  next
    case 3
    have ps: "\<not> past_stop dir (world s)" using k(3) 3(2) by blast
    have m: "motor1_mov_state (ctx u) = 0" using 3 k(2) mu by (simp add: to_u8_def)
    have "alert u" using mv ps lu by (simp add: moving_def)
    then have h: "halted dir d u" using st_u [OF 3(1)] k(2,4) 3(2) by (simp add: halted_def wu)
    from control_loop_halted [OF h m pos to_u, folded t] same ps k(1) show ?thesis
      by (auto simp: same_command_def wu delay)
  qed
qed

lemma halted_pass:
  assumes h: "halted dir d s"
    and to: "(now_us (world s) + 10000) div 1000 - command_ts (ctx s) \<le> command_timeout (config (ctx s))"
  defines "t \<equiv> snd (threadFunc_body K (sim_os hook) s)"
  shows "fst (threadFunc_body K (sim_os hook) s) = Continue"
    and "same_command s t" and "seat_raw (sae (world t)) = seat_raw (sae (world s))"
    and "if (now_us (world s) + 10000) div 1000 - command_ts (ctx s) < 500
      then halted dir d t \<and> now_us (world t) = now_us (world s) + 12000
      else moving dir d t \<and> past_stop dir (world t) \<and> now_us (world t) = now_us (world s) + 111000"
proof -
  have st: "steering dir d s" "seat_status (sae (world s)) = 0" "past_stop dir (world s)" using h by (simp_all add: halted_def)
  then have delay: "sim_delay (sae (world s)) = 10" and dir: "dir = INC \<or> dir = DEC" by (simp_all add: steering_defs)
  note k = tick_resting [OF dir st(2)]
  have z: "0 \<le> seat_percent (tick (sae (world s)))" "seat_percent (tick (sae (world s))) \<le> 100"
      "short dir d (seat_percent (tick (sae (world s))))" using st(1) k(1) by (simp_all add: steering_defs)
  obtain u where body: "threadFunc_body K (sim_os hook) s =
      (Continue, os_usleep (sim_os hook) 1000 (snd (seatctrl_control_loop K (sim_os hook) u)))"
    and same: "same_command s u" and wu: "world u = ticked (world s)"
    and pu: "motor1_pos (ctx u) = to_u8 (seat_percent (tick (sae (world s))))"
    and mu: "motor1_mov_state (ctx u) = to_u8 (seat_status (tick (sae (world s))))" and lu: "alert u = alert s"
    and st_u: "steering dir d u"
    using steering_read [OF st(1) _ _ z(1,2)] z(3) k(1) st(2) by (metis order_refl zero_le_numeral)
  have t: "t = os_usleep (sim_os hook) 1000 (snd (seatctrl_control_loop K (sim_os hook) u))" by (simp add: t_def body)
  show "fst (threadFunc_body K (sim_os hook) s) = Continue" by (simp add: body)
  have ps: "past_stop dir (world u)" using st(3) k by (simp add: past_stop_def wu)
  have m: "motor1_mov_state (ctx u) = 0" "motor1_pos (ctx u) = to_u8 (seat_percent (sae (world u)))"
    using mu pu k(1) st(2) by (simp_all add: wu to_u8_def)
  have hu: "halted dir d u" using h st_u lu ps k(1) st(2) by (simp add: halted_def wu)
  have now: "now_us (world u) = now_us (world s) + 10000" "seat_raw (sae (world u)) = seat_raw (sae (world s))"
    using k(1) by (simp_all add: wu delay)
  have "same_command s t \<and> seat_raw (sae (world t)) = seat_raw (sae (world s)) \<and>
    (if (now_us (world s) + 10000) div 1000 - command_ts (ctx s) < 500
      then halted dir d t \<and> now_us (world t) = now_us (world s) + 12000
      else moving dir d t \<and> past_stop dir (world t) \<and> now_us (world t) = now_us (world s) + 111000)"
    using control_loop_wait [OF hu m, folded t] control_loop_resend [OF hu m, folded t] to same
    by (auto simp: same_command_def now)
  then show "same_command s t" "seat_raw (sae (world t)) = seat_raw (sae (world s))"
    "if (now_us (world s) + 10000) div 1000 - command_ts (ctx s) < 500
      then halted dir d t \<and> now_us (world t) = now_us (world s) + 12000
      else moving dir d t \<and> past_stop dir (world t) \<and> now_us (world t) = now_us (world s) + 111000"
    by blast+
qed

end

section \<open>The whole movement\<close>

text \<open>The passes of the CTL thread from one state to another, in none of which it leaves its loop.\<close>

definition runs_to :: "can_codec \<Rightarrow> 'w os \<Rightarrow> nat \<Rightarrow> 'w sys \<Rightarrow> 'w sys \<Rightarrow> bool" where
  "runs_to K os n s t \<longleftrightarrow> t = passes K os n s \<and>
     (\<forall>j < n. threadFunc_guard (passes K os j s) \<and> fst (threadFunc_body K os (passes K os j s)) = Continue)"

lemma runs_to_0: "runs_to K os 0 s s"
  by (simp add: runs_to_def)

lemma runs_to_Suc:
  "threadFunc_guard s \<Longrightarrow> fst (threadFunc_body K os s) = Continue \<Longrightarrow> runs_to K os n (snd (threadFunc_body K os s)) t \<Longrightarrow>
    runs_to K os (Suc n) s t"
  by (auto simp: runs_to_def less_Suc_eq_0_disj)

definition arrives :: "can_codec \<Rightarrow> sim_world os \<Rightarrow> int \<Rightarrow> nat \<Rightarrow> sim_world sys \<Rightarrow> bool" where
  "arrives K os d m s \<longleftrightarrow> (\<exists>n t. n \<le> m \<and> runs_to K os n s t \<and> arrived d t)"

lemma arrives_now: "arrived d s \<Longrightarrow> arrives K os d m s"
  unfolding arrives_def using runs_to_0 by (intro exI [of _ 0] exI [of _ s]) simp

lemma arrives_pass:
  assumes "threadFunc_guard s" and "fst (threadFunc_body K os s) = Continue"
    and "arrives K os d m (snd (threadFunc_body K os s))" and "Suc m \<le> m'"
  shows "arrives K os d m' s"
  using assms runs_to_Suc unfolding arrives_def by (meson Suc_le_mono order_trans)

lemma arrives_mono: "arrives K os d m s \<Longrightarrow> m \<le> m' \<Longrightarrow> arrives K os d m' s"
  unfolding arrives_def by (elim exE conjE, intro exI conjI) (rule order_trans)

definition time_limit :: "sim_world sys \<Rightarrow> int" where
  "time_limit s = 1000 * (command_ts (ctx s) + command_timeout (config (ctx s)))"

lemma in_time:
  "now_us (world s) + 10000 \<le> time_limit s \<Longrightarrow>
    (now_us (world s) + 10000) div 1000 - command_ts (ctx s) \<le> command_timeout (config (ctx s))"
  by (simp add: time_limit_def)

lemma same_command_limit: "same_command s t \<Longrightarrow> time_limit t = time_limit s"
  by (simp add: same_command_def time_limit_def)

context hooked_os
begin

lemma moving_guard: "moving dir d s \<Longrightarrow> threadFunc_guard s" "halted dir d s \<Longrightarrow> threadFunc_guard s"
  by (auto simp: moving_def halted_def steering_defs)

lemma moving_distance:
  "moving dir d s \<Longrightarrow> distance dir d (seat_raw (sae (world s))) \<le> 0 \<Longrightarrow> False"
  using short_distance by (auto simp: moving_def steering_defs)

text \<open>Past the stop, the seat goes straight to the target.\<close>

lemma past_stop_arrives:
  assumes "moving dir d s" and "past_stop dir (world s)"
    and "distance dir d (seat_raw (sae (world s))) \<le> int k * seat_tick (motor_rpm (config (ctx s)))"
    and "now_us (world s) + 11000 * int k \<le> time_limit s"
  shows "arrives K (sim_os hook) d k s"
  using assms
proof (induction k arbitrary: s)
  case 0
  then show ?case using moving_distance by fastforce
next
  case (Suc k)
  let ?t = "snd (threadFunc_body K (sim_os hook) s)"
  have "now_us (world s) + 10000 \<le> time_limit s" using Suc.prems(4) by (simp add: algebra_simps)
  note p = moving_pass [OF Suc.prems(1) in_time [OF this]]
  have "arrives K (sim_os hook) d k ?t"
  proof (cases "arrived d ?t")
    case True
    then show ?thesis by (rule arrives_now)
  next
    case False
    then have t: "moving dir d ?t" "past_stop dir (world ?t)" "same_command s ?t" "now_us (world ?t) = now_us (world s) + 11000"
      "seat_raw (sae (world ?t)) = seat_raw (sae (world s)) + toward dir (seat_tick (motor_rpm (config (ctx s))))"
      using p(2) Suc.prems(2) by blast+
    show ?thesis
    proof (rule Suc.IH [OF t(1,2)])
      show "distance dir d (seat_raw (sae (world ?t))) \<le> int k * seat_tick (motor_rpm (config (ctx ?t)))"
        using Suc.prems(3) t(3) by (simp add: t(5) distance_toward same_command_def algebra_simps)
      show "now_us (world ?t) + 11000 * int k \<le> time_limit ?t"
        using Suc.prems(4) by (simp add: t(4) same_command_limit [OF t(3)])
    qed
  qed
  then show ?case by (rule arrives_pass [OF moving_guard(1) [OF Suc.prems(1)] p(1)]) simp
qed

text \<open>At the stop, the command is sent again half a second after it was given, or at once.\<close>

lemma halted_resends:
  assumes "halted dir d s" and late: "\<not> (now_us (world s) + 10000) div 1000 - command_ts (ctx s) < 500"
    and "distance dir d (seat_raw (sae (world s))) \<le> int k * seat_tick (motor_rpm (config (ctx s)))"
    and lim: "now_us (world s) + 111000 + 11000 * int k \<le> time_limit s"
  shows "arrives K (sim_os hook) d (Suc k) s"
proof -
  let ?t = "snd (threadFunc_body K (sim_os hook) s)"
  have "now_us (world s) + 10000 \<le> time_limit s" using lim by simp
  note p = halted_pass [OF assms(1) in_time [OF this]]
  have t: "moving dir d ?t" "past_stop dir (world ?t)" "now_us (world ?t) = now_us (world s) + 111000"
    using p(4) late by simp_all
  have "arrives K (sim_os hook) d k ?t"
  proof (rule past_stop_arrives [OF t(1,2)])
    show "distance dir d (seat_raw (sae (world ?t))) \<le> int k * seat_tick (motor_rpm (config (ctx ?t)))"
      using assms(3) p(2) by (simp add: p(3) same_command_def)
    show "now_us (world ?t) + 11000 * int k \<le> time_limit ?t"
      using lim by (simp add: t(3) same_command_limit [OF p(2)])
  qed
  then show ?thesis by (rule arrives_pass [OF moving_guard(2) [OF assms(1)] p(1)]) simp
qed

lemma halted_arrives:
  assumes "halted dir d s" and "1000 * command_ts (ctx s) + 490000 \<le> now_us (world s) + 12000 * int m"
    and "distance dir d (seat_raw (sae (world s))) \<le> int k * seat_tick (motor_rpm (config (ctx s)))"
    and "now_us (world s) + 12000 * int m + 111000 + 11000 * int k \<le> time_limit s"
  shows "arrives K (sim_os hook) d (Suc (m + k)) s"
  using assms
proof (induction m arbitrary: s)
  case 0
  then have "\<not> (now_us (world s) + 10000) div 1000 - command_ts (ctx s) < 500" by simp
  from halted_resends [OF "0.prems"(1) this "0.prems"(3)] "0.prems"(4) show ?case by simp
next
  case (Suc m)
  let ?t = "snd (threadFunc_body K (sim_os hook) s)"
  show ?case
  proof (cases "(now_us (world s) + 10000) div 1000 - command_ts (ctx s) < 500")
    case True
    have "now_us (world s) + 10000 \<le> time_limit s" using Suc.prems(4) by (simp add: algebra_simps)
    note p = halted_pass [OF Suc.prems(1) in_time [OF this]]
    have t: "halted dir d ?t" "now_us (world ?t) = now_us (world s) + 12000" using p(4) True by simp_all
    have "arrives K (sim_os hook) d (Suc (m + k)) ?t"
    proof (rule Suc.IH [OF t(1)])
      show "1000 * command_ts (ctx ?t) + 490000 \<le> now_us (world ?t) + 12000 * int m"
        using Suc.prems(2) p(2) by (simp add: t(2) same_command_def)
      show "distance dir d (seat_raw (sae (world ?t))) \<le> int k * seat_tick (motor_rpm (config (ctx ?t)))"
        using Suc.prems(3) p(2) by (simp add: p(3) same_command_def)
      show "now_us (world ?t) + 12000 * int m + 111000 + 11000 * int k \<le> time_limit ?t"
        using Suc.prems(4) by (simp add: t(2) same_command_limit [OF p(2)])
    qed
    then show ?thesis by (rule arrives_pass [OF moving_guard(2) [OF Suc.prems(1)] p(1)]) simp
  next
    case False
    from halted_resends [OF Suc.prems(1) this Suc.prems(3)] Suc.prems(4)
    have "arrives K (sim_os hook) d (Suc k) s" by simp
    then show ?thesis by (rule arrives_mono) simp
  qed
qed

lemma moving_arrives:
  assumes "moving dir d s" and "1000 * command_ts (ctx s) \<le> now_us (world s)"
    and "distance dir d (seat_raw (sae (world s))) \<le> int k * seat_tick (motor_rpm (config (ctx s)))"
    and "now_us (world s) + 11000 * int k + 615000 \<le> time_limit s"
  shows "arrives K (sim_os hook) d (k + 42) s"
  using assms
proof (induction k arbitrary: s)
  case 0
  then show ?case using moving_distance by fastforce
next
  case (Suc k)
  let ?t = "snd (threadFunc_body K (sim_os hook) s)"
  have "now_us (world s) + 10000 \<le> time_limit s" using Suc.prems(4) by (simp add: algebra_simps)
  note p = moving_pass [OF Suc.prems(1) in_time [OF this]]
  have "arrives K (sim_os hook) d (k + 42) ?t"
  proof (cases "arrived d ?t")
    case True
    then show ?thesis by (rule arrives_now)
  next
    case False
    then have t: "same_command s ?t"
      "seat_raw (sae (world ?t)) = seat_raw (sae (world s)) + toward dir (seat_tick (motor_rpm (config (ctx s))))"
      using p(2) by blast+
    have dist: "distance dir d (seat_raw (sae (world ?t))) \<le> int k * seat_tick (motor_rpm (config (ctx ?t)))"
      using Suc.prems(3) t(1) by (simp add: t(2) distance_toward same_command_def algebra_simps)
    have ts: "command_ts (ctx ?t) = command_ts (ctx s)" using t(1) by (simp add: same_command_def)
    note lim = same_command_limit [OF t(1)]
    from p(2) False consider "moving dir d ?t" "now_us (world ?t) = now_us (world s) + 11000"
      | "halted dir d ?t" "now_us (world ?t) = now_us (world s) + 12000"
      | "moving dir d ?t" "past_stop dir (world ?t)" "now_us (world ?t) = now_us (world s) + 111000" by blast
    then show ?thesis
    proof cases
      case 1
      show ?thesis by (rule Suc.IH [OF 1(1) _ dist]) (use Suc.prems(2,4) in \<open>simp_all add: 1(2) lim ts\<close>)
    next
      case 2
      have "arrives K (sim_os hook) d (Suc (40 + k)) ?t"
        by (rule halted_arrives [OF 2(1) _ dist]) (use Suc.prems(2,4) in \<open>simp_all add: 2(2) lim ts\<close>)
      then show ?thesis by (rule arrives_mono) simp
    next
      case 3
      have "arrives K (sim_os hook) d k ?t"
        by (rule past_stop_arrives [OF 3(1,2) dist]) (use Suc.prems(4) in \<open>simp add: 3(3) lim\<close>)
      then show ?thesis by (rule arrives_mono) simp
    qed
  qed
  then show ?case by (rule arrives_pass [OF moving_guard(1) [OF Suc.prems(1)] p(1)]) simp
qed

text \<open>The call that starts the movement.\<close>

lemma set_position_stops_first:
  assumes "operational s" and "located p s" and "0 \<le> d" and "d \<le> 100"
  obtains v where "seatctrl_set_position K (sim_os hook) CTX d s = set_position_resume K (sim_os hook) d v"
    and "operational v" and "located p v" and "cmd_idle (ctx v)" and "seat_status (sae (world v)) = 0"
    and "100000 \<le> now_us (world v)"
proof -
  define v where "v = os_usleep (sim_os hook) (100 * 1000) (snd (seatctrl_stop_movement K (sim_os hook) s))"
  have al: "sim_alive (socket (ctx s)) (world s)" using assms(1) by (simp add: operational_def)
  have v: "v = s\<lparr>ctx := invalidate_command (ctx s), tx := tx s @ [secu1_cmd OFF 0],
      world := (commanded OFF 0 (world s))\<lparr>now_us := now_us (world s) + 100000\<rparr>\<rparr>"
    by (simp add: v_def sim_stop [OF al] sim_usleep)
  show ?thesis
  proof (rule that [of v])
    have "motor1_pos (ctx s) \<noteq> MOTOR_POS_INVALID" using assms(2) by (auto simp: located_def MOTOR_POS_INVALID_def)
    then show "seatctrl_set_position K (sim_os hook) CTX d s = set_position_resume K (sim_os hook) d v"
      using assms(1,3,4) by (simp add: seatctrl_set_position_def operational_def set_position_move_def v_def)
    show "operational v" using assms(1) sim_alive_commanded by (simp add: v operational_def threadFunc_guard_def)
    show "located p v" using assms(2) by (simp add: v located_def)
    show "cmd_idle (ctx v)" "seat_status (sae (world v)) = 0" "100000 \<le> now_us (world v)"
      using assms(1) by (simp_all add: v operational_def)
  qed
qed

lemma set_position_starts:
  assumes "operational v" and "located p v" and "p \<noteq> d" and "0 \<le> d" and "d \<le> 100" and "100000 \<le> now_us (world v)"
  obtains dir s1 where "set_position_resume K (sim_os hook) d v = (SEAT_CTRL_OK, s1)" and "moving dir d s1"
    and "1000 * command_ts (ctx s1) \<le> now_us (world s1)" and "now_us (world s1) < 1000 * command_ts (ctx s1) + 1000"
proof -
  define dir where "dir = (if p < d then INC else DEC)"
  define u where "u = upd_ctx (\<lambda>c. c\<lparr>command_ts := get_ts (sim_os hook) v, desired_direction := dir, desired_position := to_u8 d\<rparr>) v"
  let ?r = "to_u8 (motor_rpm (config (ctx v)))"
  let ?s1 = "u\<lparr>tx := tx u @ [secu1_cmd dir ?r], world := commanded dir ?r (world u)\<rparr>"
  have al: "sim_alive (socket (ctx v)) (world v)" using assms(1) by (simp add: operational_def)
  have dir: "dir = INC \<or> dir = DEC" by (simp add: dir_def)
  show ?thesis
  proof (rule that [of ?s1 dir])
    show "set_position_resume K (sim_os hook) d v = (SEAT_CTRL_OK, ?s1)"
      using sim_send [of u dir] al assms(2,3)
      by (simp add: set_position_resume_def set_position_start_def Let_def located_def dir_def [symmetric] u_def)
    have "short dir d p" using assms(3) by (simp add: short_def dir_def)
    then have "steering dir d ?s1"
      using assms dir sim_alive_commanded [OF al]
      by (simp add: steering_defs u_def located_def threadFunc_guard_def sim_get_ts)
    moreover have "alert ?s1" using assms(2) by (simp add: alert_def u_def located_def)
    ultimately show "moving dir d ?s1"
      using engine_go [OF dir, of ?r "sae (world v)"] assms(1)
      by (simp add: moving_def operational_def u_def sim_alive_def SOCKET_INVALID_def)
    show "1000 * command_ts (ctx ?s1) \<le> now_us (world ?s1)" and "now_us (world ?s1) < 1000 * command_ts (ctx ?s1) + 1000"
      by (simp_all add: u_def sim_get_ts)
  qed
qed

lemma distance_range:
  assumes "steering dir d s"
  shows "distance dir d (seat_raw (sae (world s))) \<le> 102400"
  using assms by (auto simp: steering_def distance_def sae_pos_percent_eq)

lemma set_position_arrives:
  assumes "operational s" and "located p s" and "0 \<le> d" and "d \<le> 100"
  obtains s1 where "seatctrl_set_position K (sim_os hook) CTX d s = (SEAT_CTRL_OK, s1)" and "arrives K (sim_os hook) d 1144 s1"
proof -
  obtain v where v: "seatctrl_set_position K (sim_os hook) CTX d s = set_position_resume K (sim_os hook) d v"
      "operational v" "located p v" "cmd_idle (ctx v)" "seat_status (sae (world v)) = 0" "100000 \<le> now_us (world v)"
    using set_position_stops_first [OF assms] .
  show ?thesis
  proof (cases "p = d")
    case True
    let ?w = "snd (set_position_resume K (sim_os hook) d v)"
    have "arrived d ?w" and "set_position_resume K (sim_os hook) d v = (SEAT_CTRL_OK, ?w)"
      using v True sim_stop [of v] sim_alive_commanded
      by (auto simp: set_position_resume_def arrived_def located_def operational_def threadFunc_guard_def)
    then show ?thesis using that v(1) arrives_now by metis
  next
    case False
    obtain dir s1 where s1: "set_position_resume K (sim_os hook) d v = (SEAT_CTRL_OK, s1)" "moving dir d s1"
        "1000 * command_ts (ctx s1) \<le> now_us (world s1)" "now_us (world s1) < 1000 * command_ts (ctx s1) + 1000"
      using set_position_starts [OF v(2,3) False assms(3,4) v(6)] .
    have st: "steering dir d s1" using s1(2) by (simp add: moving_def)
    then have "93 \<le> seat_tick (motor_rpm (config (ctx s1)))" by (intro seat_tick_range) (simp_all add: steering_defs)
    then have "distance dir d (seat_raw (sae (world s1))) \<le> int 1102 * seat_tick (motor_rpm (config (ctx s1)))"
      using distance_range [OF st] by simp
    moreover have "now_us (world s1) + 11000 * int 1102 + 615000 \<le> time_limit s1"
      using s1(4) st by (simp add: time_limit_def steering_defs)
    ultimately have "arrives K (sim_os hook) d (1102 + 42) s1" by (rule moving_arrives [OF s1(2,3)])
    then show ?thesis using that v(1) s1(1) by simp
  qed
qed

end

section \<open>The result\<close>

text \<open>C3: A request for a position from 0 to 100 is carried out exactly: on the simulated ECU, from any known position, at any
  speed from 30 to 130, within 1144 passes of the CTL thread (less than the command timeout) the controller and the simulated
  seat both are at the requested position, the motor is off, no command is pending and the controller is ready for the next
  request. The stops of the ECU at 85 and 14 percent do not prevent it: the control loop sends the command again.\<close>

theorem set_position_reaches_target:
  assumes "hooked_os K hook" and "operational s" and "located p s" and "0 \<le> d" and "d \<le> 100"
    and "seatctrl_set_position K (sim_os hook) CTX d s = (rc, s1)"
  shows "rc = SEAT_CTRL_OK \<and> (\<exists>n t. n \<le> 1144 \<and> runs_to K (sim_os hook) n s1 t \<and> operational t \<and> located d t \<and>
    cmd_idle (ctx t) \<and> seat_status (sae (world t)) = 0)"
proof -
  have "rc = SEAT_CTRL_OK \<and> arrives K (sim_os hook) d 1144 s1"
    using hooked_os.set_position_arrives [OF assms(1-5)] assms(6) by auto
  then show ?thesis unfolding arrives_def arrived_def by blast
qed

definition demo_parked :: "sim_world sys" where
  "demo_parked = (demo_sys (demo_ctx 50))
     \<lparr>world := demo_world\<lparr>sae := sae_start 1023 (sae_init [''SAE_POS'' \<mapsto> ''50''])\<rparr>\<rparr>"

lemma demo_parked_ready: "operational demo_parked" "located 50 demo_parked"
proof -
  have pos: "atoi ''50'' = 50" by code_simp
  note defs = demo_parked_def demo_defs sae_start_def sae_init_def env_int_def env_bool_def sae_pos_raw_eq sae_pos_percent_eq pos
  show "located 50 demo_parked" by (simp add: located_def defs)
  show "operational demo_parked"
    by (simp add: operational_def defs threadFunc_guard_def SOCKET_INVALID_def sim_alive_def sim_is_mocked_fd_def sae_ok_def
        sae_motor_init_def sae_const_defs)
qed

theorem set_position_reaches_target_witness:
  "\<exists>n t. n \<le> 1144 \<and> runs_to dbc_codec sim n (snd (seatctrl_set_position dbc_codec sim CTX 100 demo_parked)) t \<and>
     uint (motor1_pos (ctx t)) = 100 \<and> seat_percent (sae (world t)) = 100 \<and> cmd_idle (ctx t)"
proof -
  obtain rc s1 where r: "seatctrl_set_position dbc_codec sim CTX 100 demo_parked = (rc, s1)" by fastforce
  from set_position_reaches_target [OF cansim.hooked_os_axioms demo_parked_ready _ _ r] show ?thesis
    by (auto simp: r located_def)
qed

end
