(* ===== verification/Seat_Reports.thy ===== *)
theory Seat_Reports
  imports Closed_Loop
begin

text \<open>
  The positions the controller reports through its event callback, and that the last one reported is the one it holds: whoever
  listens to the callback from the first frame on is up to date after every pass of the CTL thread and after every call.
\<close>

section \<open>The last position reported\<close>

definition last_report :: "cb_call list \<Rightarrow> int option" where
  "last_report cs = fold (\<lambda>c r. case c of CbCall f ev v u \<Rightarrow> if ev = Motor1Pos then Some v else r) cs None"

definition up_to_date :: "'w sys \<Rightarrow> bool" where
  "up_to_date s \<longleftrightarrow> event_cb (ctx s) \<noteq> None \<and> last_report (cbs s) = Some (uint (motor1_pos (ctx s)))"

text \<open>The callback is registered with a user pointer, and no report was made without one.\<close>

definition with_user :: "cb_call list \<Rightarrow> bool" where
  "with_user cs \<longleftrightarrow> (\<forall>f v u. CbCall f Motor1Pos v u \<in> set cs \<longrightarrow> u \<noteq> 0)"

definition addressed :: "'w sys \<Rightarrow> bool" where
  "addressed s \<longleftrightarrow> event_cb_user_data (ctx s) \<noteq> 0 \<and> with_user (cbs s)"

text \<open>Code that neither takes over a position nor reports one.\<close>

definition same_reports :: "'w sys \<Rightarrow> 'w sys \<Rightarrow> bool" where
  "same_reports s t \<longleftrightarrow> event_cb (ctx t) = event_cb (ctx s) \<and> motor1_pos (ctx t) = motor1_pos (ctx s) \<and>
     event_cb_user_data (ctx t) = event_cb_user_data (ctx s) \<and> last_report (cbs t) = last_report (cbs s) \<and> with_user (cbs t) = with_user (cbs s)"

lemma same_reports_refl: "same_reports s s"
  by (simp add: same_reports_def)

lemma same_reports_up_to_date: "same_reports s t \<Longrightarrow> up_to_date s \<Longrightarrow> up_to_date t"
  by (simp add: same_reports_def up_to_date_def)

lemma same_reports_addressed: "same_reports s t \<Longrightarrow> addressed s \<Longrightarrow> addressed t"
  by (simp add: same_reports_def addressed_def)

text \<open>Rules that add one more operation.\<close>

named_theorems report_intros

lemma same_reports_error [report_intros]: "same_reports s t \<Longrightarrow> same_reports s (call_event_cb CanError v t)"
  by (simp add: same_reports_def call_event_cb_def last_report_def with_user_def split: option.split)

lemma same_reports_tx [report_intros]: "same_reports s t \<Longrightarrow> same_reports s (t\<lparr>tx := fs, world := w\<rparr>)"
  by (simp add: same_reports_def)

lemma same_reports_send [report_intros]: "same_reports s t \<Longrightarrow> same_reports s (snd (seatctrl_send_cmd1 K os d r t))"
  by (auto simp: seatctrl_send_cmd1_def Let_def split: option.split prod.split intro!: report_intros)

lemma same_reports_invalidate [report_intros]: "same_reports s t \<Longrightarrow> same_reports s (t\<lparr>ctx := invalidate_command (ctx t)\<rparr>)"
  by (simp add: same_reports_def invalidate_command_def)

lemma same_reports_stop [report_intros]: "same_reports s t \<Longrightarrow> same_reports s (snd (seatctrl_stop_movement K os t))"
  using same_reports_invalidate [OF same_reports_send] by (simp add: seatctrl_stop_movement_def case_prod_unfold)

lemma same_reports_command:
  "same_reports s t \<Longrightarrow> same_reports s (t\<lparr>ctx := (ctx t)\<lparr>command_ts := ts, desired_direction := dir, desired_position := pos\<rparr>\<rparr>)"
  by (simp add: same_reports_def)

lemma same_reports_start [report_intros]: "same_reports s t \<Longrightarrow> same_reports s (snd (set_position_start K os p d t))"
  by (auto simp: set_position_start_def Let_def intro!: same_reports_send same_reports_command)

lemma same_reports_statics [report_intros]:
  "same_reports s t \<Longrightarrow> same_reports s (ctl_note_state t)" "same_reports s t \<Longrightarrow> same_reports s (update_learned_mode os t)"
  "same_reports s t \<Longrightarrow> same_reports s (t\<lparr>last_ctl_dir := a, last_ctl_pos := b\<rparr>)"
  by (simp_all add: same_reports_def ctl_note_state_def)

lemma same_reports_check_end [report_intros]: "same_reports s t \<Longrightarrow> same_reports s (ctl_check_end K os e t)"
  by (auto simp: ctl_check_end_def ctl_stop_def intro!: report_intros)

lemma handle_secu_stat_reports:
  assumes "up_to_date s" and "running (ctx s)"
  shows "up_to_date (snd (handle_secu_stat K f s))"
  using assms by (auto simp: handle_secu_stat_def up_to_date_def call_event_cb_def last_report_def Let_def split: option.split)

lemma handle_secu_stat_addressed: "addressed s \<Longrightarrow> addressed (snd (handle_secu_stat K f s))"
  by (auto simp: handle_secu_stat_def addressed_def call_event_cb_def with_user_def Let_def split: option.split)

context ctl_os
begin

lemma same_reports_usleep [report_intros]: "same_reports s t \<Longrightarrow> same_reports s (os_usleep os n t)"
  using usleep_quiet [of n t] by (auto simp: same_reports_def)

lemma same_reports_state_changed [report_intros]: "same_reports s t \<Longrightarrow> same_reports s (ctl_state_changed K os t)"
  by (auto simp: ctl_state_changed_def ctl_resend_def ctl_resend_cmd_def intro!: report_intros)

lemma same_reports_control_loop [report_intros]: "same_reports s t \<Longrightarrow> same_reports s (snd (seatctrl_control_loop K os t))"
  by (auto simp: seatctrl_control_loop_def Let_def intro!: report_intros)

lemma pass_up_to_date:
  assumes "up_to_date s" and "threadFunc_guard s"
  shows "up_to_date (snd (threadFunc_body K os s))"
proof -
  obtain cnt err f r where rd: "os_read os (socket (ctx s)) s = ((cnt, err, f), r)" by (metis prod.exhaust)
  obtain w where "r = s\<lparr>world := w\<rparr>" using read_quiet [OF rd] by blast
  then have r: "up_to_date r" "running (ctx r)" using assms by (simp_all add: up_to_date_def threadFunc_guard_def)
  note h = handle_secu_stat_reports [OF r, of K f]
  note keep = same_reports_up_to_date [OF same_reports_usleep [OF same_reports_refl]]
    same_reports_up_to_date [OF same_reports_control_loop [OF same_reports_refl]]
    same_reports_up_to_date [OF same_reports_error [OF same_reports_refl]]
  show ?thesis
    by (auto simp: threadFunc_body_def rd Let_def case_prod_unfold intro!: keep h r(1))
qed

lemma pass_addressed:
  assumes "addressed s"
  shows "addressed (snd (threadFunc_body K os s))"
proof -
  obtain cnt err f r where rd: "os_read os (socket (ctx s)) s = ((cnt, err, f), r)" by (metis prod.exhaust)
  obtain w where "r = s\<lparr>world := w\<rparr>" using read_quiet [OF rd] by blast
  then have r: "addressed r" using assms by (simp add: addressed_def)
  note h = handle_secu_stat_addressed [OF r, of K f]
  note keep = same_reports_addressed [OF same_reports_usleep [OF same_reports_refl]]
    same_reports_addressed [OF same_reports_control_loop [OF same_reports_refl]]
    same_reports_addressed [OF same_reports_error [OF same_reports_refl]]
  show ?thesis
    by (auto simp: threadFunc_body_def rd Let_def case_prod_unfold intro!: keep h r)
qed

lemma same_reports_resume [report_intros]: "same_reports s t \<Longrightarrow> same_reports s (snd (set_position_resume K os d t))"
  by (auto simp: set_position_resume_def Let_def intro!: report_intros)

lemma same_reports_move: "same_reports s t \<Longrightarrow> same_reports s (snd (set_position_move K os d t))"
  unfolding set_position_move_def by (intro report_intros)

lemma same_reports_wait: "same_reports s t \<Longrightarrow> same_reports s (wait_motor1_pos os n t)"
  by (induction n arbitrary: t) (auto intro: same_reports_usleep)

lemma set_position_same_reports: "same_reports s (snd (seatctrl_set_position K os p d s))"
proof -
  note move = same_reports_move [OF same_reports_wait [OF same_reports_refl]] same_reports_move [OF same_reports_refl]
  show ?thesis
    unfolding seatctrl_set_position_def Let_def
    using move [of s] same_reports_wait [OF same_reports_refl [of s]] same_reports_refl [of s] by (simp del: wait_motor1_pos.simps)
qed

lemma passes_snoc: "passes K os (Suc n) s = snd (threadFunc_body K os (passes K os n s))"
  by (induction n arbitrary: s) simp_all

lemma runs_invariant:
  assumes "runs_to K os n s t" and "P s" and "\<And>s. P s \<Longrightarrow> threadFunc_guard s \<Longrightarrow> P (snd (threadFunc_body K os s))"
  shows "P t"
proof -
  have "P (passes K os j s)" if "j \<le> n" for j
    using that
  proof (induction j)
    case (Suc j)
    then show ?case using assms(3) [of "passes K os j s"] assms(1) unfolding passes_snoc by (simp add: runs_to_def del: passes.simps)
  qed (simp add: assms(2))
  then show ?thesis using assms(1) by (simp add: runs_to_def)
qed

lemmas runs_up_to_date = runs_invariant [where P = up_to_date, OF _ _ pass_up_to_date]
lemmas runs_addressed = runs_invariant [where P = addressed, OF _ _ pass_addressed]

end

text \<open>In the closed loop with the simulated ECU: the target is what is reported last.\<close>

context hooked_os
begin

lemma set_position_reported:
  assumes "operational s" and "located p s" and "up_to_date s" and "0 \<le> d" and "d \<le> 100"
  obtains s1 n t where "seatctrl_set_position K (sim_os hook) CTX d s = (SEAT_CTRL_OK, s1)" and "n \<le> 1144"
    and "runs_to K (sim_os hook) n s1 t" and "arrived d t" and "last_report (cbs t) = Some d" and "addressed s \<longrightarrow> addressed t"
proof -
  obtain s1 where s1: "seatctrl_set_position K (sim_os hook) CTX d s = (SEAT_CTRL_OK, s1)" "arrives K (sim_os hook) d 1144 s1"
    using set_position_arrives [OF assms(1,2,4,5)] .
  then obtain n t where t: "n \<le> 1144" "runs_to K (sim_os hook) n s1 t" "arrived d t" by (auto simp: arrives_def)
  have same: "same_reports s s1" using sim.set_position_same_reports [of s CTX d] s1(1) by simp
  have "up_to_date s1" using same assms(3) by (rule same_reports_up_to_date)
  then have "up_to_date t" by (rule sim.runs_up_to_date [OF t(2)])
  then have "last_report (cbs t) = Some d" using t(3) by (simp add: up_to_date_def arrived_def located_def)
  moreover have "addressed t" if "addressed s" using sim.runs_addressed [OF t(2) same_reports_addressed [OF same that]] .
  ultimately show ?thesis using that s1(1) t by blast
qed

end

end
