(* ===== verification/Seat_Publication.thy ===== *)
theory Seat_Publication
  imports Seat_Reports Seat_Service
begin

text \<open>
  The way of a report to the broker: the controller calls the adjuster's event callback, which calls the function of the data feeder, which
  feeds the value; meanwhile the feeder's own thread runs. When all reports have been delivered, the newest value the feeder was given is
  the last position reported, so that the contract of the feeder applies to it.
\<close>

text \<open>\<open>fed_by env a name c0 cs c\<close>: from the state \<open>c0\<close> of the feeder the calls \<open>cs\<close> of the event callback, in their order, lead to \<open>c\<close>, with
  steps of the feeder's thread and of the other user of the client in between.\<close>

inductive fed_by :: "environ \<Rightarrow> 'w SeatAdjusterImpl \<Rightarrow> string \<Rightarrow> feeding \<Rightarrow> cb_call list \<Rightarrow> feeding \<Rightarrow> bool"
  for env :: environ and a :: "'w SeatAdjusterImpl" and name :: string and c0 :: feeding where
  fed_start: "fed_by env a name c0 [] c0"
| fed_run: "fed_by env a name c0 cs c \<Longrightarrow> run_step c d \<Longrightarrow> fed_by env a name c0 cs d"
| fed_reconnect: "fed_by env a name c0 cs c \<Longrightarrow>
    fed_by env a name c0 cs (c\<lparr>fd := (fd c)\<lparr>fd_client := snd (WaitForConnected answer (fd_client (fd c)))\<rparr>\<rparr>)"
| fed_report: "fed_by env a name c0 cs c \<Longrightarrow> seatctrl_event_cb env a ev v u = Done (CallCb f p) \<Longrightarrow>
    fed_by env a name c0 (cs @ [CbCall g ev v u]) (c\<lparr>fd := SeatDataFeeder_cb name p (fd c),
      latest := (if feeder_active (fd c) then (latest c)(name \<mapsto> position_datapoint p) else latest c)\<rparr>)"
| fed_ignored: "fed_by env a name c0 cs c \<Longrightarrow> seatctrl_event_cb env a ev v u = Done NoEffect \<Longrightarrow>
    fed_by env a name c0 (cs @ [CbCall g ev v u]) c"

text \<open>The datapoint that stands for a reported position.\<close>

definition reported_datapoint :: "int \<Rightarrow> Datapoint" where
  "reported_datapoint v = position_datapoint (if v = uint MOTOR_POS_INVALID then -1 else v)"

lemma fed_by_steps: "fed_by env a name c0 cs c \<Longrightarrow> feed_step\<^sup>*\<^sup>* c0 c"
proof (induction rule: fed_by.induct)
  case (fed_run cs c d)
  then show ?case by (simp add: feed_step_def rtranclp.rtrancl_into_rtrancl)
next
  case (fed_reconnect cs c answer)
  from fed_reconnect.IH show ?case
    by (rule rtranclp.rtrancl_into_rtrancl) (simp add: feed_step_def client_step.reconnected)
next
  case (fed_report cs c ev v u f p g)
  from fed_report.IH show ?case
    by (rule rtranclp.rtrancl_into_rtrancl) (simp add: feed_step_def SeatDataFeeder_cb_def client_step.feed_value)
qed auto

lemma run_step_latest: "run_step c d \<Longrightarrow> latest d = latest c"
  by (induction rule: run_step.induct) simp_all

lemma last_report_snoc: "last_report (cs @ [CbCall f ev v u]) = (if ev = Motor1Pos then Some v else last_report cs)"
  by (simp add: last_report_def)

lemma with_user_snoc: "with_user (cs @ [c]) \<longleftrightarrow> with_user cs \<and> with_user [c]"
  by (auto simp: with_user_def)

text \<open>While the feeder is active, its newest value is the last report.\<close>

lemma fed_by_latest:
  assumes "fed_by env a name (feeding_start client cfg) cs c" and "adj_cb a = Some f" and "with_user cs" and "feeder_active (fd c)"
  shows "latest c name = map_option reported_datapoint (last_report cs)"
  using assms(1,3,4)
proof (induction rule: fed_by.induct)
  case fed_start
  then show ?case by (simp add: feeding_start_def last_report_def)
next
  case (fed_run cs c d)
  then have "feeder_active (fd c)" using inactive_run_step(1) [OF _ fed_run.hyps(2)] by blast
  then show ?case using fed_run by (simp add: run_step_latest)
next
  case (fed_reconnect cs c answer)
  then show ?case by simp
next
  case (fed_report cs c ev v u f' p g)
  then show ?case
    using assms(2)
    by (auto simp: last_report_snoc with_user_snoc SeatDataFeeder_cb_def FeedValue_def reported_datapoint_def seatctrl_event_cb_def abort_service_def
        split: SeatCtrlEvent.splits if_splits option.splits)
next
  case (fed_ignored cs c ev v u g)
  then show ?case
    using assms(2)
    by (auto simp: last_report_snoc with_user_snoc with_user_def seatctrl_event_cb_def split: SeatCtrlEvent.splits if_splits option.splits)
qed

end
