(* ===== verification/Seat_Fine_Grain.thy ===== *)
theory Seat_Fine_Grain
  imports Seat_Controller_Spec
begin

text \<open>
  The seat controller at the granularity of single accesses. The context has no mutex, so another thread can run between
  any two accesses to its fields. Here every operation is a tree of accesses (\<open>code\<close>): each read and each write of a
  field, and each system call, is an action of its own, in the order of the source. Executed without interruption the trees
  are the functions of \<open>Seat_Controller\<close>; interleaved, they show what holds without a mutex and what does not.
\<close>

section \<open>Code as a tree of accesses\<close>

text \<open>
  \<open>Act f k\<close> takes the state to \<open>f s\<close> and goes on with \<open>k s\<close>; \<open>Join tid k\<close> waits for a thread; \<open>Fault\<close> is a call through a null
  pointer. Operations get their continuation as an argument.
\<close>

datatype ('w, 'a) code =
    Ret 'a
  | Act "'w sys \<Rightarrow> 'w sys" "'w sys \<Rightarrow> ('w, 'a) code"
  | Join nat "int \<Rightarrow> ('w, 'a) code"
  | Fault

text \<open>Execution without interruption; what other threads do during a blocking call is in the operating system.\<close>

primrec run :: "('w, 'a) code \<Rightarrow> 'w os \<Rightarrow> 'w sys \<Rightarrow> ('a \<times> 'w sys) option" where
  "run (Ret x) os s = Some (x, s)"
| "run (Act f k) os s = run (k s) os (f s)"
| "run (Join tid k) os s = run (k (fst (os_pthread_join os tid s))) os (snd (os_pthread_join os tid s))"
| "run Fault os s = None"

text \<open>Read and write a field of the context, read and write a static variable, sleep, read the clock.\<close>

definition get :: "(seatctrl_context_t \<Rightarrow> 'v) \<Rightarrow> ('v \<Rightarrow> ('w, 'a) code) \<Rightarrow> ('w, 'a) code" where
  "get f k = Act (\<lambda>s. s) (\<lambda>s. k (f (ctx s)))"

definition put :: "(seatctrl_context_t \<Rightarrow> seatctrl_context_t) \<Rightarrow> ('w, 'a) code \<Rightarrow> ('w, 'a) code" where
  "put u m = Act (upd_ctx u) (\<lambda>_. m)"

definition load :: "('w sys \<Rightarrow> 'v) \<Rightarrow> ('v \<Rightarrow> ('w, 'a) code) \<Rightarrow> ('w, 'a) code" where
  "load f k = Act (\<lambda>s. s) (\<lambda>s. k (f s))"

definition store :: "('w sys \<Rightarrow> 'w sys) \<Rightarrow> ('w, 'a) code \<Rightarrow> ('w, 'a) code" where
  "store u m = Act u (\<lambda>_. m)"

definition sleep :: "'w os \<Rightarrow> int \<Rightarrow> ('w, 'a) code \<Rightarrow> ('w, 'a) code" where
  "sleep os n m = Act (os_usleep os n) (\<lambda>_. m)"

definition clock :: "'w os \<Rightarrow> (int \<Rightarrow> ('w, 'a) code) \<Rightarrow> ('w, 'a) code" where
  "clock os k = Act (\<lambda>s. s) (\<lambda>s. k (get_ts os s))"

text \<open>A piece of code, executed up to the point where another is left to do. Each operation has a rule that skips it.\<close>

inductive acts :: "('w, 'a) code \<Rightarrow> 'w sys \<Rightarrow> ('w, 'a) code \<Rightarrow> 'w sys \<Rightarrow> bool" where
  here: "acts m s m s"
| act: "acts (k s) (f s) m t \<Longrightarrow> acts (Act f k) s m t"

named_theorems acts_intros

lemma acts_access [acts_intros]:
  "acts (k (f (ctx s))) s m t \<Longrightarrow> acts (get f k) s m t"
  "acts n (upd_ctx u s) m t \<Longrightarrow> acts (put u n) s m t"
  "acts (k' (g s)) s m t \<Longrightarrow> acts (load g k') s m t"
  "acts n (v s) m t \<Longrightarrow> acts (store v n) s m t"
  "acts n (os_usleep os us s) m t \<Longrightarrow> acts (sleep os us n) s m t"
  "acts (k'' (get_ts os s)) s m t \<Longrightarrow> acts (clock os k'') s m t"
  by (simp_all add: get_def put_def load_def store_def sleep_def clock_def acts.act)

lemma acts_run: "acts m s n t \<Longrightarrow> run m os s = run n os t"
  by (induction rule: acts.induct) simp_all

lemma run_put [simp]: "run (put u m) os s = run m os (upd_ctx u s)"
  by (simp add: put_def)

lemma run_get [simp]: "run (get f k) os s = run (k (f (ctx s))) os s"
  by (simp add: get_def)

section \<open>The operations\<close>

subsection \<open>Events and frames\<close>

text \<open>The pointer that was checked is read again for the call.\<close>

definition call_cb_c :: "SeatCtrlEvent \<Rightarrow> int \<Rightarrow> ('w, 'a) code \<Rightarrow> ('w, 'a) code" where
  "call_cb_c ev v m =
     get event_cb (\<lambda>cb. case cb of
         None \<Rightarrow> Fault
       | Some f \<Rightarrow> get event_cb_user_data (\<lambda>u. store (\<lambda>s. s\<lparr>cbs := cbs s @ [CbCall f ev v u]\<rparr>) m))"

definition event_cb_c :: "SeatCtrlEvent \<Rightarrow> int \<Rightarrow> ('w, 'a) code \<Rightarrow> ('w, 'a) code" where
  "event_cb_c ev v m = get event_cb (\<lambda>cb. if cb = None then m else call_cb_c ev v m)"

definition handle_secu_stat_c :: "can_codec \<Rightarrow> can_frame \<Rightarrow> (int \<Rightarrow> ('w, 'a) code) \<Rightarrow> ('w, 'a) code" where
  "handle_secu_stat_c K frame k =
     (if can_id frame \<noteq> CAN_SECU1_STAT_FRAME_ID then k SEAT_CTRL_ERR_INVALID
      else case stat_unpack K (fdata frame) (unat (can_dlc frame)) of
        None \<Rightarrow> k SEAT_CTRL_ERR
      | Some stat \<Rightarrow>
          if stat_pos_is_in_range K (stat_motor1_pos stat) \<and>
             (uint (stat_motor1_pos stat) \<le> 100 \<or> stat_motor1_pos stat = MOTOR_POS_INVALID) \<and>
             stat_mov_state_is_in_range K (stat_motor1_mov_state stat) \<and>
             stat_learning_state_is_in_range K (stat_motor1_learning_state stat)
          then
            let update =
              put (\<lambda>c. c\<lparr>motor1_mov_state := stat_motor1_mov_state stat\<rparr>)
               (put (\<lambda>c. c\<lparr>motor1_learning_state := stat_motor1_learning_state stat\<rparr>)
                 (put (\<lambda>c. c\<lparr>motor1_pos := stat_motor1_pos stat\<rparr>) (k SEAT_CTRL_OK)))
            in get running (\<lambda>r. if \<not> r then update else
               get event_cb (\<lambda>cb. if cb = None then update else
               get motor1_pos (\<lambda>p. if p = stat_motor1_pos stat then update else
               call_cb_c Motor1Pos (uint (stat_motor1_pos stat)) update)))
          else k SEAT_CTRL_ERR_INVALID)"

definition send_cmd1_c :: "can_codec \<Rightarrow> 'w os \<Rightarrow> u8 \<Rightarrow> u8 \<Rightarrow> (int \<Rightarrow> ('w, 'a) code) \<Rightarrow> ('w, 'a) code" where
  "send_cmd1_c K os motor1_dir motor1_rpm k =
     get socket (\<lambda>fd.
       if fd = SOCKET_INVALID then k SEAT_CTRL_ERR
       else case cmd_1_pack K (cmd_1_zero\<lparr>motor1_manual_cmd := motor1_dir,
             motor1_set_rpm := motor1_rpm\<rparr>) sizeof_cmd_1 of
         None \<Rightarrow> k SEAT_CTRL_ERR
       | Some bytes \<Rightarrow>
           get socket (\<lambda>fd.
             Act (\<lambda>s. s\<lparr>tx := tx s @ [cmd1_frame bytes], world := snd (os_write os fd (cmd1_frame bytes) (world s))\<rparr>)
               (\<lambda>s. case fst (os_write os fd (cmd1_frame bytes) (world s)) of
                  (ret, err) \<Rightarrow>
                    if ret \<noteq> sizeof_can_frame then event_cb_c CanError err (k SEAT_CTRL_ERR_CAN_IO)
                    else k SEAT_CTRL_OK)))"

definition stop_movement_c :: "can_codec \<Rightarrow> 'w os \<Rightarrow> (int \<Rightarrow> ('w, 'a) code) \<Rightarrow> ('w, 'a) code" where
  "stop_movement_c K os k =
     send_cmd1_c K os (MotorDirection_val OFF) 0 (\<lambda>rc.
       put (\<lambda>c. c\<lparr>desired_position := MOTOR_POS_INVALID\<rparr>)
        (put (\<lambda>c. c\<lparr>desired_direction := OFF\<rparr>)
          (put (\<lambda>c. c\<lparr>command_ts := 0\<rparr>) (k rc))))"

subsection \<open>The API\<close>

primrec wait_pos_c :: "'w os \<Rightarrow> nat \<Rightarrow> ('w, 'a) code \<Rightarrow> ('w, 'a) code" where
  "wait_pos_c os 0 m = m"
| "wait_pos_c os (Suc n) m =
     get motor1_pos (\<lambda>v. if v \<noteq> MOTOR_POS_INVALID then m else sleep os (100 * 1000) (wait_pos_c os n m))"

definition start_c :: "can_codec \<Rightarrow> 'w os \<Rightarrow> int \<Rightarrow> int \<Rightarrow> (int \<Rightarrow> ('w, 'a) code) \<Rightarrow> ('w, 'a) code" where
  "start_c K os current_pos desired k =
     (let direction = (if current_pos < desired then INC else DEC)
      in clock os (\<lambda>ts.
         put (\<lambda>c. c\<lparr>command_ts := ts\<rparr>)
          (put (\<lambda>c. c\<lparr>desired_direction := direction\<rparr>)
            (put (\<lambda>c. c\<lparr>desired_position := to_u8 desired\<rparr>)
              (get config (\<lambda>cfg.
                 send_cmd1_c K os (MotorDirection_val direction) (to_u8 (motor_rpm cfg)) k))))))"

definition move_c :: "can_codec \<Rightarrow> 'w os \<Rightarrow> int \<Rightarrow> (int \<Rightarrow> ('w, 'a) code) \<Rightarrow> ('w, 'a) code" where
  "move_c K os desired k =
     stop_movement_c K os (\<lambda>_. sleep os (100 * 1000) (get motor1_pos (\<lambda>pos.
       if uint pos = desired then
         get motor1_mov_state (\<lambda>mv.
           if mv \<noteq> MotorDirection_val OFF then stop_movement_c K os (\<lambda>_. k SEAT_CTRL_OK)
           else put (\<lambda>c. c\<lparr>desired_direction := OFF\<rparr>)
                 (put (\<lambda>c. c\<lparr>desired_position := MOTOR_POS_INVALID\<rparr>)
                   (put (\<lambda>c. c\<lparr>command_ts := 0\<rparr>) (k SEAT_CTRL_OK))))
       else start_c K os (uint pos) desired k)))"

definition set_position_c ::
    "can_codec \<Rightarrow> 'w os \<Rightarrow> ctx_ptr \<Rightarrow> int \<Rightarrow> (int \<Rightarrow> ('w, 'a) code) \<Rightarrow> ('w, 'a) code" where
  "set_position_c K os p desired k =
     (if p = NULL then k SEAT_CTRL_ERR_INVALID
      else get magic (\<lambda>m.
        if m \<noteq> SEAT_CTRL_CONTEXT_MAGIC then k SEAT_CTRL_ERR_INVALID
        else if desired < 0 \<or> desired > 100 then k SEAT_CTRL_ERR_INVALID
        else get motor1_pos (\<lambda>v.
          if v = MOTOR_POS_INVALID then
            wait_pos_c os 30 (get motor1_pos (\<lambda>v.
              if v = MOTOR_POS_INVALID then k SEAT_CTRL_ERR_NO_FRAMES else move_c K os desired k))
          else move_c K os desired k)))"

definition get_position_c :: "ctx_ptr \<Rightarrow> (int \<Rightarrow> ('w, 'a) code) \<Rightarrow> ('w, 'a) code" where
  "get_position_c p k =
     (if p = NULL then k SEAT_CTRL_ERR_INVALID
      else get magic (\<lambda>m.
        if m \<noteq> SEAT_CTRL_CONTEXT_MAGIC then k SEAT_CTRL_ERR_INVALID
        else get running (\<lambda>r. if \<not> r then k SEAT_CTRL_ERR else get motor1_pos (\<lambda>v. k (uint v)))))"

definition set_event_callback_c ::
    "ctx_ptr \<Rightarrow> nat option \<Rightarrow> nat \<Rightarrow> (int \<Rightarrow> ('w, 'a) code) \<Rightarrow> ('w, 'a) code" where
  "set_event_callback_c p cb user_data k =
     (if p = NULL then k SEAT_CTRL_ERR_INVALID
      else get magic (\<lambda>m.
        if m \<noteq> SEAT_CTRL_CONTEXT_MAGIC then k SEAT_CTRL_ERR_INVALID
        else put (\<lambda>c. c\<lparr>event_cb := cb\<rparr>) (put (\<lambda>c. c\<lparr>event_cb_user_data := user_data\<rparr>) (k SEAT_CTRL_OK))))"

definition close_thread_c :: "nat \<Rightarrow> int \<Rightarrow> (int \<Rightarrow> ('w, 'a) code) \<Rightarrow> ('w, 'a) code" where
  "close_thread_c self rc k =
     get thread_id (\<lambda>t.
       if t = 0 then k rc
       else get thread_id (\<lambda>t.
         if self = t then put (\<lambda>c. c\<lparr>thread_id := 0\<rparr>) (k rc)
         else get thread_id (\<lambda>t.
           Join t (\<lambda>res. put (\<lambda>c. c\<lparr>thread_id := 0\<rparr>) (k (if res \<noteq> 0 then SEAT_CTRL_ERR else rc))))))"

definition close_c :: "'w os \<Rightarrow> nat \<Rightarrow> ctx_ptr \<Rightarrow> (int \<Rightarrow> ('w, 'a) code) \<Rightarrow> ('w, 'a) code" where
  "close_c os self p k =
     (if p = NULL then k SEAT_CTRL_ERR_INVALID
      else get magic (\<lambda>m.
        if m \<noteq> SEAT_CTRL_CONTEXT_MAGIC then k SEAT_CTRL_ERR_INVALID
        else put (\<lambda>c. c\<lparr>running := False\<rparr>) (sleep os 5000 (get socket (\<lambda>fd.
          if fd \<noteq> SOCKET_INVALID then
            get socket (\<lambda>fd.
              Act (\<lambda>s. s\<lparr>world := snd (os_close os fd (world s))\<rparr>) (\<lambda>s.
                put (\<lambda>c. c\<lparr>socket := SOCKET_INVALID\<rparr>)
                  (close_thread_c self (if fst (os_close os fd (world s)) < 0 then SEAT_CTRL_ERR else SEAT_CTRL_OK) k)))
          else close_thread_c self SEAT_CTRL_OK k)))))"

subsection \<open>The control loop\<close>

definition is_ctl_running_c :: "(bool \<Rightarrow> ('w, 'a) code) \<Rightarrow> ('w, 'a) code" where
  "is_ctl_running_c k =
     get socket (\<lambda>fd. if fd = SOCKET_INVALID then k False else
     get command_ts (\<lambda>ts. if \<not> ts > 0 then k False else
     get desired_direction (\<lambda>dir. if dir = OFF then k False else
     get desired_position (\<lambda>pos. k (pos \<noteq> MOTOR_POS_INVALID)))))"

definition learned_mode_c :: "'w os \<Rightarrow> ('w, 'a) code \<Rightarrow> ('w, 'a) code" where
  "learned_mode_c os m =
     (let note = clock os (\<lambda>now. let ts = to_int32 now in load learned_mode_changed (\<lambda>changed.
            if ts - changed > LEARNED_MODE_RATE then store (\<lambda>s. s\<lparr>learned_mode_changed := ts\<rparr>) m else m))
      in load learned_mode (\<lambda>learned. get motor1_learning_state (\<lambda>st.
           if learned \<and> st = LearningState_val NotLearned then store (\<lambda>s. s\<lparr>learned_mode := False\<rparr>) note
           else if \<not> learned \<and> st = LearningState_val Learned then store (\<lambda>s. s\<lparr>learned_mode := True\<rparr>) note
           else m)))"

definition ctl_stop_c :: "can_codec \<Rightarrow> 'w os \<Rightarrow> ('w, 'a) code \<Rightarrow> ('w, 'a) code" where
  "ctl_stop_c K os m =
     stop_movement_c K os (\<lambda>_. store (\<lambda>s. s\<lparr>last_ctl_dir := 0\<rparr>)
       (store (\<lambda>s. s\<lparr>last_ctl_pos := uint MOTOR_POS_INVALID\<rparr>) m))"

definition target_reached_c :: "(bool \<Rightarrow> ('w, 'a) code) \<Rightarrow> ('w, 'a) code" where
  "target_reached_c k =
     (let dec = get desired_direction (\<lambda>dir.
            if dir = DEC then get motor1_pos (\<lambda>p. get desired_position (\<lambda>d. k (p \<le> d))) else k False)
      in get motor1_pos (\<lambda>p. if p = MOTOR_POS_INVALID then k False else
         get desired_direction (\<lambda>dir. if dir = INC
           then get motor1_pos (\<lambda>p. get desired_position (\<lambda>d. if p \<ge> d then k True else dec))
           else dec)))"

definition check_end_c :: "can_codec \<Rightarrow> 'w os \<Rightarrow> int \<Rightarrow> ('w, 'a) code \<Rightarrow> ('w, 'a) code" where
  "check_end_c K os elapsed m =
     target_reached_c (\<lambda>reached.
       if reached then ctl_stop_c K os m
       else get config (\<lambda>cfg. if elapsed > command_timeout cfg then ctl_stop_c K os m else m))"

definition resend_c :: "can_codec \<Rightarrow> 'w os \<Rightarrow> ('w, 'a) code \<Rightarrow> ('w, 'a) code" where
  "resend_c K os m =
     send_cmd1_c K os (MotorDirection_val OFF) 0 (\<lambda>_. sleep os (100 * 1000)
       (get desired_direction (\<lambda>dir. get config (\<lambda>cfg.
         send_cmd1_c K os (MotorDirection_val dir) (to_u8 (motor_rpm cfg)) (\<lambda>_. m)))))"

definition stalled_c :: "(bool \<Rightarrow> ('w, 'a) code) \<Rightarrow> ('w, 'a) code" where
  "stalled_c k =
     get motor1_mov_state (\<lambda>mv. get desired_direction (\<lambda>dir. if mv = MotorDirection_val dir then k False else
     get motor1_pos (\<lambda>p. get desired_position (\<lambda>d. if p = d then k False else
     get motor1_mov_state (\<lambda>mv. k (mv = MotorDirection_val OFF))))))"

definition state_changed_c :: "can_codec \<Rightarrow> 'w os \<Rightarrow> ('w, 'a) code \<Rightarrow> ('w, 'a) code" where
  "state_changed_c K os m =
     (let remember = get motor1_mov_state (\<lambda>mv. store (\<lambda>s. s\<lparr>last_ctl_dir := uint mv\<rparr>)
            (get motor1_pos (\<lambda>p. store (\<lambda>s. s\<lparr>last_ctl_pos := uint p\<rparr>) m)));
          changed = stalled_c (\<lambda>stalled. if stalled then resend_c K os remember else remember)
      in load last_ctl_pos (\<lambda>lp. get motor1_pos (\<lambda>p. if lp \<noteq> uint p then changed else
         load last_ctl_dir (\<lambda>ld. get motor1_mov_state (\<lambda>mv. if ld \<noteq> uint mv then changed else m)))))"

definition preliminary_c :: "int \<Rightarrow> (bool \<Rightarrow> ('w, 'a) code) \<Rightarrow> ('w, 'a) code" where
  "preliminary_c elapsed k =
     (if \<not> elapsed < 500 then k False else
      get motor1_mov_state (\<lambda>mv. if mv \<noteq> MotorDirection_val OFF then k False else
      get motor1_pos (\<lambda>p. get desired_position (\<lambda>d. k (p \<noteq> d)))))"

definition control_loop_c :: "can_codec \<Rightarrow> 'w os \<Rightarrow> (int \<Rightarrow> ('w, 'a) code) \<Rightarrow> ('w, 'a) code" where
  "control_loop_c K os k =
     learned_mode_c os (is_ctl_running_c (\<lambda>active.
       if \<not> active then k SEAT_CTRL_OK
       else clock os (\<lambda>now. get command_ts (\<lambda>ts.
         preliminary_c (now - ts) (\<lambda>prelim.
           if prelim then sleep os 1000 (k SEAT_CTRL_OK)
           else state_changed_c K os (check_end_c K os (now - ts) (k SEAT_CTRL_OK)))))))"

text \<open>The loop of the CTL thread: its condition, one pass.\<close>

definition guard_c :: "(bool \<Rightarrow> ('w, 'a) code) \<Rightarrow> ('w, 'a) code" where
  "guard_c k = get running (\<lambda>r. if \<not> r then k False else get socket (\<lambda>fd. k (fd \<noteq> SOCKET_INVALID)))"

definition received_c ::
    "can_codec \<Rightarrow> 'w os \<Rightarrow> int \<times> int \<times> can_frame \<Rightarrow> (loop_exit \<Rightarrow> ('w, 'a) code) \<Rightarrow> ('w, 'a) code" where
  "received_c K os r k =
     (case r of (cnt, err, frame) \<Rightarrow>
        if cnt < 0 \<and> err = EAGAIN then
          get running (\<lambda>r. if \<not> r then k Break else sleep os (1000 * 1000) (k Continue))
        else if cnt < 0 \<and> err = EINTR then sleep os (1 * 1000) (k Continue)
        else if cnt < 0 then
          sleep os (1000 * 1000) (event_cb_c CanError err (k (if cnt = ENETDOWN then Continue else Break)))
        else
          let end_of_pass = sleep os 1000 (k Continue)
          in if can_id frame = CAN_SECU1_STAT_FRAME_ID then
               handle_secu_stat_c K frame (\<lambda>rc.
                 if rc = SEAT_CTRL_OK then control_loop_c K os (\<lambda>_. end_of_pass) else end_of_pass)
             else end_of_pass)"

definition pass_c :: "can_codec \<Rightarrow> 'w os \<Rightarrow> (loop_exit \<Rightarrow> ('w, 'a) code) \<Rightarrow> ('w, 'a) code" where
  "pass_c K os k =
     get socket (\<lambda>fd. Act (\<lambda>s. snd (os_read os fd s)) (\<lambda>s. received_c K os (fst (os_read os fd s)) k))"

section \<open>Uninterrupted, the code is the function\<close>

lemma acts_event_cb [acts_intros]: "acts n (call_event_cb ev v s) m t \<Longrightarrow> acts (event_cb_c ev v n) s m t"
  unfolding event_cb_c_def call_cb_c_def by (auto simp: call_event_cb_def intro!: acts_intros split: option.splits)

lemma acts_send_cmd1 [acts_intros]:
  assumes "acts (k (fst (seatctrl_send_cmd1 K os dir rpm s))) (snd (seatctrl_send_cmd1 K os dir rpm s)) m t"
  shows "acts (send_cmd1_c K os dir rpm k) s m t"
  using assms unfolding send_cmd1_c_def
  by (auto simp: seatctrl_send_cmd1_def Let_def case_prod_unfold intro!: acts_intros acts.act split: option.splits if_splits)

lemma acts_stop_movement [acts_intros]:
  assumes "acts (k (fst (seatctrl_stop_movement K os s))) (snd (seatctrl_stop_movement K os s)) m t"
  shows "acts (stop_movement_c K os k) s m t"
  using assms unfolding stop_movement_c_def
  by (auto simp: seatctrl_stop_movement_def invalidate_command_def case_prod_unfold intro!: acts_intros)

lemma acts_handle_secu_stat [acts_intros]:
  assumes "acts (k (fst (handle_secu_stat K f s))) (snd (handle_secu_stat K f s)) m t"
  shows "acts (handle_secu_stat_c K f k) s m t"
  using assms unfolding handle_secu_stat_c_def call_cb_c_def
  by (auto simp: handle_secu_stat_def call_event_cb_def Let_def intro!: acts_intros split: option.splits if_splits)

lemma acts_wait_pos [acts_intros]: "acts n (wait_motor1_pos os r s) m t \<Longrightarrow> acts (wait_pos_c os r n) s m t"
  by (induction r arbitrary: s) (auto intro!: acts_intros split: if_splits)

lemma acts_start [acts_intros]:
  "acts (k (fst (set_position_start K os p d s))) (snd (set_position_start K os p d s)) m t \<Longrightarrow> acts (start_c K os p d k) s m t"
  unfolding start_c_def Let_def by (intro acts_intros) (simp add: set_position_start_def Let_def)

lemma invalidate_in_place:
  "c\<lparr>desired_direction := OFF, desired_position := MOTOR_POS_INVALID, command_ts := 0\<rparr> = invalidate_command c"
  by (cases c) (simp add: invalidate_command_def)

lemma acts_move [acts_intros]:
  assumes "acts (k (fst (set_position_move K os d s))) (snd (set_position_move K os d s)) m t"
  shows "acts (move_c K os d k) s m t"
  using assms unfolding move_c_def
  by (auto simp: set_position_move_def set_position_resume_def invalidate_in_place Let_def intro!: acts_intros split: if_splits)

lemma acts_set_position [acts_intros]:
  assumes "acts (k (fst (seatctrl_set_position K os p d s))) (snd (seatctrl_set_position K os p d s)) m t"
  shows "acts (set_position_c K os p d k) s m t"
  using assms unfolding set_position_c_def
  by (auto simp: seatctrl_set_position_def Let_def intro!: acts_intros split: if_splits)

lemma acts_tests [acts_intros]:
  "acts (k (is_ctl_running (ctx s))) s m t \<Longrightarrow> acts (is_ctl_running_c k) s m t"
  "acts (k (target_reached (ctx s))) s m t \<Longrightarrow> acts (target_reached_c k) s m t"
  "acts (k (ctl_stalled (ctx s))) s m t \<Longrightarrow> acts (stalled_c k) s m t"
  "acts (k (ctl_preliminary e (ctx s))) s m t \<Longrightarrow> acts (preliminary_c e k) s m t"
  "acts (k (threadFunc_guard s)) s m t \<Longrightarrow> acts (guard_c k) s m t"
  unfolding is_ctl_running_c_def target_reached_c_def stalled_c_def preliminary_c_def guard_c_def Let_def
  by (auto simp: is_ctl_running_def target_reached_def ctl_stalled_def ctl_preliminary_def threadFunc_guard_def intro!: acts_intros)

lemma acts_learned_mode [acts_intros]: "acts n (update_learned_mode os s) m t \<Longrightarrow> acts (learned_mode_c os n) s m t"
  unfolding learned_mode_c_def Let_def
  by (auto simp: update_learned_mode_def get_ts_def Let_def intro!: acts_intros split: if_splits)

lemma acts_ctl_stop [acts_intros]: "acts n (ctl_stop K os s) m t \<Longrightarrow> acts (ctl_stop_c K os n) s m t"
  unfolding ctl_stop_c_def by (intro acts_intros) (simp add: ctl_stop_def)

lemma acts_check_end [acts_intros]: "acts n (ctl_check_end K os e s) m t \<Longrightarrow> acts (check_end_c K os e n) s m t"
  unfolding check_end_c_def by (auto simp: ctl_check_end_def intro!: acts_intros split: if_splits)

lemma acts_resend [acts_intros]: "acts n (ctl_resend K os s) m t \<Longrightarrow> acts (resend_c K os n) s m t"
  unfolding resend_c_def by (intro acts_intros) (simp add: ctl_resend_def ctl_resend_cmd_def)

lemma acts_state_changed [acts_intros]: "acts n (ctl_state_changed K os s) m t \<Longrightarrow> acts (state_changed_c K os n) s m t"
  unfolding state_changed_c_def Let_def
  by (auto simp: ctl_state_changed_def ctl_changed_def ctl_note_state_def intro!: acts_intros split: if_splits)

lemma acts_control_loop [acts_intros]:
  assumes "acts (k (fst (seatctrl_control_loop K os s))) (snd (seatctrl_control_loop K os s)) m t"
  shows "acts (control_loop_c K os k) s m t"
  using assms unfolding control_loop_c_def
  by (auto simp: seatctrl_control_loop_def Let_def intro!: acts_intros split: if_splits)

lemma acts_pass [acts_intros]:
  assumes "acts (k (fst (threadFunc_body K os s))) (snd (threadFunc_body K os s)) m t"
  shows "acts (pass_c K os k) s m t"
  using assms unfolding pass_c_def received_c_def Let_def
  by (auto simp: threadFunc_body_def Let_def case_prod_unfold intro!: acts_intros acts.act split: if_splits)

lemma acts_accessors [acts_intros]:
  "acts (k (seatctrl_get_position p s)) s m t \<Longrightarrow> acts (get_position_c p k) s m t"
  "acts (k (fst (seatctrl_set_event_callback p cb u s))) (snd (seatctrl_set_event_callback p cb u s)) m t \<Longrightarrow>
    acts (set_event_callback_c p cb u k) s m t"
  unfolding get_position_c_def set_event_callback_c_def
  by (auto simp: seatctrl_get_position_def seatctrl_set_event_callback_def intro!: acts_intros split: if_splits)

lemma run_close_thread:
  "run (close_thread_c self rc k) os s =
    run (k (fst (close_thread os self rc s))) os (snd (close_thread os self rc s))"
  by (simp add: close_thread_c_def close_thread_def Let_def case_prod_unfold)

lemma run_close:
  "run (close_c os self p k) os s = run (k (fst (seatctrl_close os self p s))) os (snd (seatctrl_close os self p s))"
  by (simp add: close_c_def sleep_def seatctrl_close_def close_socket_def run_close_thread Let_def case_prod_unfold)

end
