(* ===== verification/Seat_Supervision.thy ===== *)
theory Seat_Supervision
  imports Seat_Controller_Spec
begin

text \<open>
  Supervision: the last command on the bus is a movement only while the control loop watches over it. This holds in the interleaving of
  \<open>Seat_Interleaving\<close> while requests do not overlap and the controller stays open; two overlapping requests can leave a
  movement that nobody will stop.
\<close>

section \<open>Supervised movements\<close>

definition supervised :: "'w sys \<Rightarrow> bool" where
  "supervised s \<longleftrightarrow> (\<forall>fs dir r. tx s = fs @ [secu1_cmd dir r] \<and> dir \<noteq> OFF \<longrightarrow> cmd_active (ctx s) \<and> desired_direction (ctx s) = dir)"

lemma supervised_off [simp]: "tx s = fs @ [secu1_cmd OFF r] \<Longrightarrow> supervised s"
  by (simp add: supervised_def)

lemma supervised_nothing [simp]: "tx s = [] \<Longrightarrow> supervised s"
  by (simp add: supervised_def)

lemma supervised_cong:
  "tx t = tx s \<Longrightarrow> desired_position (ctx t) = desired_position (ctx s) \<Longrightarrow> desired_direction (ctx t) = desired_direction (ctx s) \<Longrightarrow>
    supervised t = supervised s"
  by (simp add: supervised_def cmd_active_def)

context secu_codec
begin

lemma send_cmd1_open:
  assumes "socket (ctx s) \<noteq> SOCKET_INVALID"
  shows "tx (snd (seatctrl_send_cmd1 K os (MotorDirection_val d) r s)) = tx s @ [secu1_cmd d r]"
    and "ctx (snd (seatctrl_send_cmd1 K os (MotorDirection_val d) r s)) = ctx s"
  using assms by (simp_all add: send_cmd1_tx)

lemma stop_supervised:
  assumes "socket (ctx s) \<noteq> SOCKET_INVALID"
  shows "supervised (snd (seatctrl_stop_movement K os s))"
  using send_cmd1_open [OF assms, of os OFF 0]
  by (intro supervised_off [where fs = "tx s" and r = 0]) (simp add: seatctrl_stop_movement_def case_prod_unfold)

lemma start_supervised:
  assumes "socket (ctx s) \<noteq> SOCKET_INVALID" and "0 \<le> d" and "d \<le> 100"
  shows "supervised (snd (set_position_start K os p d s))"
  using assms by (auto simp: supervised_def set_position_start_def send_cmd1_tx cmd_active_def Let_def)

end

definition watched :: "'w sys \<Rightarrow> bool" where
  "watched s \<longleftrightarrow> (socket (ctx s) = SOCKET_INVALID \<longrightarrow> tx s = []) \<and> supervised s"

lemma watched_cong:
  "tx t = tx s \<Longrightarrow> desired_position (ctx t) = desired_position (ctx s) \<Longrightarrow> desired_direction (ctx t) = desired_direction (ctx s) \<Longrightarrow>
    socket (ctx t) = socket (ctx s) \<Longrightarrow> watched t = watched s"
  by (simp add: watched_def supervised_def cmd_active_def)

lemma idle_inactive: "cmd_idle c \<Longrightarrow> \<not> cmd_active c"
  by (auto simp: cmd_idle_def cmd_active_def)

lemma watched_invalidate:
  assumes "watched s" and "\<not> cmd_active (ctx s)"
  shows "watched (s\<lparr>ctx := invalidate_command (ctx s)\<rparr>)"
  using assms by (auto simp: watched_def supervised_def invalidate_command_def)

context secu_codec
begin

lemma send_off_watched: "watched s \<Longrightarrow> watched (snd (seatctrl_send_cmd1 K os 0 0 s))"
  using supervised_off [of "snd (seatctrl_send_cmd1 K os 0 0 s)" "tx s" 0]
  by (cases "socket (ctx s) = SOCKET_INVALID") (auto simp: watched_def send_off_tx)

lemma stop_watched: "watched s \<Longrightarrow> watched (snd (seatctrl_stop_movement K os s))"
  using stop_supervised [of s os]
  by (cases "socket (ctx s) = SOCKET_INVALID")
    (auto simp: watched_def seatctrl_stop_movement_def invalidate_command_def case_prod_unfold)

lemma start_watched:
  "watched s \<Longrightarrow> 0 \<le> d \<Longrightarrow> d \<le> 100 \<Longrightarrow> watched (snd (set_position_start K os p d s))"
  using start_supervised [of s d os p]
  by (cases "socket (ctx s) = SOCKET_INVALID") (auto simp: watched_def set_position_start_def Let_def)

lemma resume_watched:
  assumes "watched s" and "cmd_idle (ctx s)" and "0 \<le> d" and "d \<le> 100"
  shows "watched (snd (set_position_resume K os d s))"
  using assms watched_invalidate [OF assms(1) idle_inactive [OF assms(2)]]
  by (auto simp: set_position_resume_def Let_def stop_watched start_watched)

lemma check_end_watched: "watched s \<Longrightarrow> watched (ctl_check_end K os e s)"
proof -
  assume "watched s"
  then have "watched (ctl_stop K os s)"
    using stop_watched [of s os] watched_cong [of "ctl_stop K os s" "snd (seatctrl_stop_movement K os s)"]
    by (simp add: ctl_stop_def)
  then show ?thesis using \<open>watched s\<close> by (simp add: ctl_check_end_def)
qed

lemma resend_watched:
  assumes "watched s" and "ctx_inv (ctx s)"
  shows "watched (ctl_resend_cmd K os s)"
proof (cases "socket (ctx s) = SOCKET_INVALID")
  case True
  then show ?thesis using assms(1) by (simp add: ctl_resend_cmd_def)
next
  case False
  have "desired_direction (ctx s) \<noteq> OFF \<Longrightarrow> cmd_active (ctx s)" using assms(2) by (auto simp: ctx_inv_def cmd_idle_def)
  then show ?thesis using False by (auto simp: watched_def supervised_def ctl_resend_cmd_def send_cmd1_tx)
qed

lemma handle_secu_stat_watched: "length (fdata f) = 8 \<Longrightarrow> watched s \<Longrightarrow> watched (snd (handle_secu_stat K f s))"
  using watched_cong [of "snd (handle_secu_stat K f s)" s] by (auto simp: handle_secu_stat_eq)

lemma ctl_enter_watched:
  assumes "watched s"
  shows "watched (snd (ctl_enter K os s))"
proof -
  let ?u = "update_learned_mode os s"
  have u: "watched ?u" using assms watched_cong [of ?u s] by simp
  then have "watched (ctl_note_state ?u)" using watched_cong [of "ctl_note_state ?u" ?u] by simp
  then show ?thesis using u by (auto simp: ctl_enter_def Let_def intro: check_end_watched send_off_watched)
qed

lemma ctl_reenter_watched:
  assumes "watched s" and "ctx_inv (ctx s)"
  shows "watched (ctl_reenter K os e s)"
proof -
  let ?r = "ctl_resend_cmd K os s"
  have "watched (ctl_note_state ?r)"
    using resend_watched [OF assms, of os] watched_cong [of "ctl_note_state ?r" ?r] by simp
  then show ?thesis by (simp add: ctl_reenter_def check_end_watched)
qed

lemma ctl_received_watched:
  assumes "length (fdata f) = 8" and "watched s"
  shows "watched (snd (ctl_received K os cnt err f s))"
  using handle_secu_stat_watched [OF assms] assms(2)
  by (auto simp: ctl_received_def ctl_enter_watched split: prod.split)

lemma pos_poll_watched: "watched s \<Longrightarrow> watched (snd (pos_poll K os d n s))"
  by (auto simp: pos_poll_def stop_watched split: nat.split)

end

lemma open_watched: "watched s \<Longrightarrow> watched (snd (seatctrl_open os p s))"
  by (auto simp: seatctrl_open_def open_bind_def watched_def supervised_def cmd_active_def Let_def split: prod.split option.split)

lemma open_idle: "cmd_idle (ctx (snd (seatctrl_open os p s))) = cmd_idle (ctx s)"
  by (auto simp: seatctrl_open_def open_bind_def cmd_idle_def Let_def split: prod.split option.split)

lemma close_wake_idle: "cmd_idle (ctx (snd (close_wake os i s))) = cmd_idle (ctx s)"
  by (simp add: close_wake_def close_socket_def cmd_idle_def case_prod_unfold)

section \<open>Requests that do not overlap\<close>

fun waiting :: "pc \<Rightarrow> bool" where
  "waiting (PosWait d n) = True"
| "waiting (PosPause d) = True"
| "waiting _ = False"

text \<open>No thread is closing the controller, and at most one is inside \<open>seatctrl_set_position\<close>.\<close>

definition calm :: "'w conc \<Rightarrow> bool" where
  "calm c \<longleftrightarrow> (\<forall>i. pcs c i \<noteq> CloseSleep) \<and> (\<forall>i j. waiting (pcs c i) \<longrightarrow> waiting (pcs c j) \<longrightarrow> i = j)"

definition calm_step :: "can_codec \<Rightarrow> 'w conc \<Rightarrow> 'w conc \<Rightarrow> bool" where
  "calm_step K c c' \<longleftrightarrow> some_step K c c' \<and> calm c'"

text \<open>A request that has stopped the motor and pauses finds no command when it wakes up.\<close>

definition pause_idle :: "'w conc \<Rightarrow> bool" where
  "pause_idle c \<longleftrightarrow> (\<forall>i d. pcs c i = PosPause d \<longrightarrow> cmd_idle (ctx (sh c)))"

context secu_codec
begin

lemma step_watched:
  assumes "step K i c c'" and "safe cfg c" and "calm c" and "watched (sh c)" and "pause_idle c"
  shows "watched (sh c')"
proof -
  have inv: "ctx_inv (ctx (sh c))" and pc: "pc_ok (pcs c i)" using assms(2) by (simp_all add: safe_def sys_safe_def)
  note same = watched_cong [of "sh c'" "sh c"]
  from assms(1) show ?thesis
  proof cases
    case (set_position r os p d)
    then show ?thesis using assms(4) pos_poll_watched [OF assms(4)] by (simp add: pos_enter_def)
  next
    case (pos_wake d n os)
    then show ?thesis using pos_poll_watched [OF assms(4)] by simp
  next
    case (pos_resume d os rc t)
    then have "cmd_idle (ctx (sh c))" using assms(5) by (auto simp: pause_idle_def)
    with pos_resume pc show ?thesis using resume_watched [OF assms(4), of d os] by simp
  next
    case (stop r os rc t)
    then show ?thesis using stop_watched [OF assms(4), of os] by simp
  next
    case (set_callback r p cb u rc t)
    then show ?thesis using assms(4) same by (auto simp: seatctrl_set_event_callback_def split: if_splits)
  next
    case (open_failed r os p rc t)
    then show ?thesis using open_watched [OF assms(4), of os p] by simp
  next
    case (opened r os p t tid)
    then show ?thesis using open_watched [OF assms(4), of os p] by simp
  next
    case (close_wake os)
    then show ?thesis using assms(3) by (simp add: calm_def)
  next
    case (ctl_read frame os cnt err)
    then show ?thesis using assms(4) ctl_received_watched by simp
  next
    case (ctl_resume elapsed os)
    then show ?thesis using assms(4) inv ctl_reenter_watched by simp
  qed (use assms(4) same in \<open>simp_all add: close_enter_def close_joined_def threadFunc_start_def ctl_err_wake_def\<close>)
qed

text \<open>What other threads do to a request that pauses: its stop command stays the last word.\<close>

lemma step_keeps_idle:
  assumes "step K i c c'" and "cmd_idle (ctx (sh c))" and "\<not> waiting (pcs c i)" and "\<not> waiting (pcs c' i)"
  shows "cmd_idle (ctx (sh c'))"
proof (cases "ctl_pc (pcs c i)")
  case True
  then have "ctl_guar (sh c) (sh c')" by (rule ctl_step_guar [OF assms(1)])
  then show ?thesis using assms(2) by (simp add: ctl_guar_def)
next
  case False
  from assms(1) show ?thesis
  proof cases
    case (world w)
    then show ?thesis using assms(2) by simp
  next
    case (set_position r os p d)
    have "waiting (fst (pos_poll K os d 30 (sh c)))" by (simp add: pos_poll_def)
    then show ?thesis using set_position(1) assms(2,4) by (auto simp: pos_enter_def split: if_splits)
  next
    case (stop r os rc t)
    then have "t = snd (seatctrl_stop_movement K os (sh c))" by simp
    then show ?thesis using stop(1) by (simp add: seatctrl_stop_movement_def case_prod_unfold)
  next
    case (set_callback r p cb u rc t)
    then have "t = snd (seatctrl_set_event_callback p cb u (sh c))" by simp
    then show ?thesis using set_callback(1) assms(2) by (simp add: seatctrl_set_event_callback_def cmd_idle_def)
  next
    case (open_failed r os p rc t)
    then show ?thesis using assms(2) open_idle [of os p "sh c"] by simp
  next
    case (opened r os p t tid)
    then show ?thesis using assms(2) open_idle [of os p "sh c"] by simp
  next
    case (close_wake os)
    then show ?thesis using assms(2) by (simp add: close_wake_idle)
  qed (use False assms(2,3) in \<open>simp_all add: close_enter_def close_joined_def cmd_idle_def\<close>)
qed

lemma only_requests_pause [simp]:
  "fst (close_enter p s) \<noteq> PosPause d" "fst (close_wake os i s) \<noteq> PosPause d" "fst (close_joined rc res s) \<noteq> PosPause d"
  "fst (ctl_enter K os s) \<noteq> PosPause d" "fst (ctl_err_wake cnt err s) \<noteq> PosPause d"
  by (simp_all add: close_enter_def close_wake_def close_joined_def ctl_enter_def ctl_err_wake_def Let_def split: prod.split)

lemma received_no_pause [simp]: "fst (ctl_received K os cnt err f s) \<noteq> PosPause d"
  by (simp add: ctl_received_def split: prod.split)

lemma step_pause_idle:
  assumes st: "step K i c c'" and "calm c" and "calm c'" and "pause_idle c"
  shows "pause_idle c'"
  unfolding pause_idle_def
proof (intro allI impI)
  fix j d
  assume j: "pcs c' j = PosPause d"
  show "cmd_idle (ctx (sh c'))"
  proof (cases "j = i")
    case False
    from st have same: "pcs c j = PosPause d" by cases (use j False in \<open>auto split: if_splits\<close>)
    then have "\<not> waiting (pcs c i)" and "\<not> waiting (pcs c' i)"
      using j False assms(2,3) unfolding calm_def by (metis waiting.simps(2))+
    then show ?thesis using step_keeps_idle [OF st] same assms(4) by (auto simp: pause_idle_def)
  next
    case True
    have poll: "fst (pos_poll K os e n s) = PosPause d \<Longrightarrow> cmd_idle (ctx (snd (pos_poll K os e n s)))" for os e n and s :: "'w sys"
      by (auto simp: pos_poll_def seatctrl_stop_movement_def case_prod_unfold split: if_splits nat.splits)
    from st show ?thesis
    proof cases
      case (world w)
      then show ?thesis using j assms(4) by (auto simp: pause_idle_def)
    next
      case (set_position r os p e)
      then show ?thesis using j True poll [of os e 30 "sh c"] by (auto simp: pos_enter_def split: if_splits)
    next
      case (pos_wake e n os)
      then show ?thesis using j True poll [of os e n "sh c"] by simp
    qed (use j True in \<open>simp_all split: if_splits\<close>)
  qed
qed

lemma calm_supervised:
  assumes "initial cfg c0" and "(calm_step K)\<^sup>*\<^sup>* c0 c"
  shows "safe cfg c \<and> calm c \<and> watched (sh c) \<and> pause_idle c"
  using assms(2)
proof (induction rule: rtranclp_induct)
  case base
  have pcs: "pcs c0 i = Unused \<or> (\<exists>rc. pcs c0 i = AppReady rc)" for i using assms(1) by (simp add: initial_def)
  have "\<not> waiting (pcs c0 i) \<and> pcs c0 i \<noteq> CloseSleep \<and> pcs c0 i \<noteq> PosPause d" for i d using pcs [of i] by auto
  then show ?case
    using initial_safe [OF assms(1)] assms(1) by (auto simp: calm_def pause_idle_def watched_def initial_def)
next
  case (step c c')
  then obtain i where "step K i c c'" and "calm c'" by (auto simp: calm_step_def some_step_def)
  then show ?case using step.IH step_safe step_watched step_pause_idle by blast
qed

end


section \<open>A movement nobody will stop\<close>

text \<open>While no command is pending, the CTL thread sends nothing, however long it runs.\<close>

context ctl_os
begin

lemma idle_pass:
  assumes "cmd_idle (ctx s)"
  shows "cmd_idle (ctx (snd (threadFunc_body K os s)))" and "tx (snd (threadFunc_body K os s)) = tx s"
proof -
  obtain cnt err f r where rd: "os_read os (socket (ctx s)) s = ((cnt, err, f), r)" by (metis prod.exhaust)
  have r: "ctx r = ctx s" "tx r = tx s" using read_quiet [OF rd] by auto
  let ?h = "snd (handle_secu_stat K f r)"
  have h: "cmd_idle (ctx ?h)" "tx ?h = tx s"
    using handle_secu_stat_guar [OF read_buffer [OF rd], of r] assms r
    by (auto simp: ctl_guar_def handle_secu_stat_eq [OF read_buffer [OF rd]])
  then show "cmd_idle (ctx (snd (threadFunc_body K os s)))" "tx (snd (threadFunc_body K os s)) = tx s"
    using assms r control_loop_idle [OF idle_not_running [OF h(1)]]
    by (auto simp: threadFunc_body_def rd Let_def case_prod_unfold)
qed

lemma idle_passes: "cmd_idle (ctx s) \<Longrightarrow> tx (passes K os n s) = tx s"
  by (induction n arbitrary: s) (simp_all add: idle_pass)

end

text \<open>A system that delivers one status frame, and the frame of a movement and a position.\<close>

definition frame_os :: "can_frame \<Rightarrow> 'w os" where
  "frame_os f = ok_os\<lparr>os_read := (\<lambda>_ s. ((16, 0, f), s))\<rparr>"

definition status_frame :: "MotorDirection \<Rightarrow> u8 \<Rightarrow> can_frame" where
  "status_frame dir pos = \<lparr> can_id = CAN_SECU1_STAT_FRAME_ID, can_dlc = 8,
     fdata = [MotorDirection_val dir, 0, pos, 0, 0, 0, 0, 0] \<rparr>"

lemma frame_os_ctl_os: "secu_codec K \<Longrightarrow> ctl_os K (frame_os (status_frame dir pos))"
  by (auto simp: ctl_os_def ctl_os_axioms_def frame_os_def ok_os_def status_frame_def intro: sys_world_self)

text \<open>
  Two application threads, the seat at 50 percent and at rest. One asks for 50 percent, the other for 80; both have stopped the motor and
  pause. The second starts its movement; the first finds the seat in place and, as no movement has been reported yet, clears the
  command without a command to the motor.
\<close>

definition overlap0 :: "unit sys" where
  "overlap0 = snd (seatctrl_init_ctx CTX (Some demo_config)
     \<lparr> ctx = demo_ctx 0, last_ctl_pos = 255, last_ctl_dir = 0, learned_mode = True, learned_mode_changed = 0,
       tx = [], cbs = [], world = () \<rparr>)"

definition overlap1 :: "unit sys" where "overlap1 = threadFunc_start (snd (seatctrl_open ok_os CTX overlap0))"
definition overlap2 :: "unit sys" where "overlap2 = snd (ctl_received dbc_codec ok_os 16 0 (status_frame OFF 50) overlap1)"
definition overlap3 :: "unit sys" where "overlap3 = snd (pos_enter dbc_codec ok_os CTX 50 overlap2)"
definition overlap4 :: "unit sys" where "overlap4 = snd (pos_enter dbc_codec ok_os CTX 80 overlap3)"
definition overlap5 :: "unit sys" where "overlap5 = snd (set_position_resume dbc_codec ok_os 80 overlap4)"
definition overlap6 :: "unit sys" where "overlap6 = snd (set_position_resume dbc_codec ok_os 50 overlap5)"

lemma overlap_evaluated:
  "fst (seatctrl_open ok_os CTX overlap0) = SEAT_CTRL_OK" "thread_id (ctx (snd (seatctrl_open ok_os CTX overlap0))) = 1"
  "threadFunc_guard overlap1" "fst (ctl_received dbc_codec ok_os 16 0 (status_frame OFF 50) overlap1) = CtlSleep"
  "fst (pos_enter dbc_codec ok_os CTX 50 overlap2) = PosPause 50" "fst (pos_enter dbc_codec ok_os CTX 80 overlap3) = PosPause 80"
  "fst (set_position_resume dbc_codec ok_os 80 overlap4) = SEAT_CTRL_OK"
  "fst (set_position_resume dbc_codec ok_os 50 overlap5) = SEAT_CTRL_OK"
  "tx overlap6 = [secu1_cmd OFF 0, secu1_cmd OFF 0, secu1_cmd INC 80]" "cmd_idle (ctx overlap6)" "threadFunc_guard overlap6"
  by code_simp+

definition three_threads :: "'w sys \<Rightarrow> pc \<Rightarrow> pc \<Rightarrow> pc \<Rightarrow> 'w conc" where
  "three_threads s a ctl b = \<lparr> sh = s, pcs = (\<lambda>i. if i = 0 then a else if i = 1 then ctl else if i = 2 then b else Unused) \<rparr>"

lemma three_threads_simps [simp]:
  "sh (three_threads s a ctl b) = s" "pcs (three_threads s a ctl b) 0 = a" "pcs (three_threads s a ctl b) (Suc 0) = ctl"
  "pcs (three_threads s a ctl b) 2 = b" "goto 0 r (three_threads s a ctl b) = three_threads (snd r) (fst r) ctl b"
  "goto (Suc 0) r (three_threads s a ctl b) = three_threads (snd r) a (fst r) b"
  "goto 2 r (three_threads s a ctl b) = three_threads (snd r) a ctl (fst r)"
  "(three_threads s a ctl b)\<lparr>pcs := (pcs (three_threads s a ctl b))(Suc 0 := ctl')\<rparr> = three_threads s a ctl' b"
  by (auto simp: three_threads_def goto_def)

lemma overlap_initial: "initial demo_config (three_threads overlap0 (AppReady SEAT_CTRL_OK) Unused (AppReady SEAT_CTRL_OK))"
proof -
  have "seatctrl_init_ctx CTX (Some demo_config) overlap0 = (SEAT_CTRL_OK, overlap0)"
    by (simp add: overlap0_def seatctrl_init_ctx_def demo_config_def)
  then show ?thesis
    by (auto simp: initial_def three_threads_def) (simp_all add: overlap0_def seatctrl_init_ctx_def demo_config_def)
qed

lemma three_threads_calm [simp]:
  "a \<noteq> CloseSleep \<Longrightarrow> ctl \<noteq> CloseSleep \<Longrightarrow> b \<noteq> CloseSleep \<Longrightarrow> \<not> waiting ctl \<Longrightarrow> \<not> waiting b \<Longrightarrow> calm (three_threads s a ctl b)"
  by (simp add: calm_def three_threads_def)

lemma calm_path: "(calm_step K)\<^sup>*\<^sup>* c c1 \<Longrightarrow> step K i c1 c2 \<Longrightarrow> calm c2 \<Longrightarrow> (calm_step K)\<^sup>*\<^sup>* c c2"
  by (rule rtranclp.rtrancl_into_rtrancl) (auto simp: calm_step_def intro: some_stepI)

lemma calm_path_steps: "(calm_step K)\<^sup>*\<^sup>* c c' \<Longrightarrow> (some_step K)\<^sup>*\<^sup>* c c'"
  by (induction rule: rtranclp_induct) (auto simp: calm_step_def intro: rtranclp.rtrancl_into_rtrancl)

lemma overlap_started:
  "(calm_step dbc_codec)\<^sup>*\<^sup>* (three_threads overlap0 (AppReady SEAT_CTRL_OK) Unused (AppReady SEAT_CTRL_OK))
     (three_threads overlap2 (AppReady SEAT_CTRL_OK) CtlSleep (AppReady SEAT_CTRL_OK))"
proof -
  let ?ok = "AppReady SEAT_CTRL_OK" and ?K = dbc_codec and ?open = "snd (seatctrl_open ok_os CTX overlap0)"
  have "step ?K 0 (three_threads overlap0 ?ok Unused ?ok) (three_threads ?open ?ok CtlCreated ?ok)"
    using step.opened [of "three_threads overlap0 ?ok Unused ?ok" 0 SEAT_CTRL_OK ok_os CTX ?open 1 ?K] overlap_evaluated(1,2)
    by (simp add: prod_eq_iff)
  moreover have "step ?K 1 (three_threads ?open ?ok CtlCreated ?ok) (three_threads overlap1 ?ok CtlTop ?ok)"
    using step.ctl_start [of "three_threads ?open ?ok CtlCreated ?ok" 1 ?K] by (simp add: overlap1_def)
  moreover have "step ?K 1 (three_threads overlap1 ?ok CtlTop ?ok) (three_threads overlap1 ?ok CtlReading ?ok)"
    using step.ctl_top [of "three_threads overlap1 ?ok CtlTop ?ok" 1 ?K] overlap_evaluated(3) by simp
  moreover have "step ?K 1 (three_threads overlap1 ?ok CtlReading ?ok) (three_threads overlap2 ?ok CtlSleep ?ok)"
    using step.ctl_read [of "three_threads overlap1 ?ok CtlReading ?ok" 1 "status_frame OFF 50" ?K ok_os 16 0] overlap_evaluated(4)
    by (simp add: overlap2_def) (simp add: status_frame_def)
  ultimately show ?thesis by (intro calm_path [OF calm_path [OF calm_path [OF calm_path [OF rtranclp.rtrancl_refl]]]]) simp_all
qed

lemma request_step:
  "fst (pos_enter K os CTX d s) = p \<Longrightarrow> step K 0 (three_threads s (AppReady r) ctl b) (three_threads (snd (pos_enter K os CTX d s)) p ctl b)"
  "fst (pos_enter K os CTX d s) = p \<Longrightarrow> step K 2 (three_threads s a ctl (AppReady r)) (three_threads (snd (pos_enter K os CTX d s)) a ctl p)"
  using step.set_position [of "three_threads s (AppReady r) ctl b" 0 r K os CTX d]
    step.set_position [of "three_threads s a ctl (AppReady r)" 2 r K os CTX d] by simp_all

lemma resume_step:
  "fst (set_position_resume K os d s) = rc \<Longrightarrow>
    step K 0 (three_threads s (PosPause d) ctl b) (three_threads (snd (set_position_resume K os d s)) (AppReady rc) ctl b)"
  "fst (set_position_resume K os d s) = rc \<Longrightarrow>
    step K 2 (three_threads s a ctl (PosPause d)) (three_threads (snd (set_position_resume K os d s)) a ctl (AppReady rc))"
  using step.pos_resume [of "three_threads s (PosPause d) ctl b" 0 d K os rc "snd (set_position_resume K os d s)"]
    step.pos_resume [of "three_threads s a ctl (PosPause d)" 2 d K os rc "snd (set_position_resume K os d s)"]
  by (simp_all add: prod_eq_iff)

lemma overlap_reachable:
  "reachable dbc_codec demo_config (three_threads overlap6 (AppReady SEAT_CTRL_OK) CtlSleep (AppReady SEAT_CTRL_OK))"
proof -
  note go = path_step [OF path_step [OF path_step [OF path_step [OF calm_path_steps [OF overlap_started]]]]]
  show ?thesis
    unfolding reachable_def
    using go [OF request_step(1) [OF overlap_evaluated(5), folded overlap3_def]
        request_step(2) [OF overlap_evaluated(6), folded overlap4_def] resume_step(2) [OF overlap_evaluated(7), folded overlap5_def]
        resume_step(1) [OF overlap_evaluated(8), folded overlap6_def]] overlap_initial by blast
qed

text \<open>C9: Overlapping requests. Two requests that overlap can end, both with OK and with the CTL thread in its loop, so that the last command
  on the bus is a movement while no command is pending; from there on the CTL thread sends nothing, however long it runs: the
  timeout does not apply and the movement is not stopped.\<close>

theorem overlapping_requests_unsupervised:
  "\<exists>c :: unit conc. reachable dbc_codec demo_config c \<and>
     pcs c 0 = AppReady SEAT_CTRL_OK \<and> pcs c 1 = CtlSleep \<and> pcs c 2 = AppReady SEAT_CTRL_OK \<and> threadFunc_guard (sh c) \<and>
     last (tx (sh c)) = secu1_cmd INC 80 \<and> cmd_idle (ctx (sh c)) \<and>
     (\<forall>os n. ctl_os dbc_codec os \<longrightarrow> tx (passes dbc_codec os n (sh c)) = tx (sh c))"
proof (intro exI conjI allI impI)
  let ?c = "three_threads overlap6 (AppReady SEAT_CTRL_OK) CtlSleep (AppReady SEAT_CTRL_OK)"
  show "reachable dbc_codec demo_config ?c" by (rule overlap_reachable)
  show "tx (passes dbc_codec os n (sh ?c)) = tx (sh ?c)" if "ctl_os dbc_codec os" for os n
    using ctl_os.idle_passes [OF that] overlap_evaluated(10) by simp
qed (use overlap_evaluated(9-11) in simp_all)

theorem overlapping_requests_unsupervised_witness:
  "\<exists>c :: unit conc. reachable dbc_codec demo_config c \<and> last (tx (sh c)) = secu1_cmd INC 80 \<and> cmd_idle (ctx (sh c)) \<and>
     last (tx (passes dbc_codec ok_os 100000 (sh c))) = secu1_cmd INC 80"
  using overlapping_requests_unsupervised ok_os_ctl_os [OF dbc.secu_codec_axioms] by metis

text \<open>The same request on its own.\<close>

definition single :: "unit sys" where
  "single = snd (set_position_resume dbc_codec ok_os 80 (snd (pos_enter dbc_codec ok_os CTX 80 overlap2)))"

lemma single_evaluated:
  "fst (pos_enter dbc_codec ok_os CTX 80 overlap2) = PosPause 80"
  "fst (set_position_resume dbc_codec ok_os 80 (snd (pos_enter dbc_codec ok_os CTX 80 overlap2))) = SEAT_CTRL_OK"
  "tx single = [secu1_cmd OFF 0] @ [secu1_cmd INC 80]"
  by code_simp+


end
