(* ===== verification/Seat_Races.thy ===== *)
theory Seat_Races
  imports Seat_Fine_Grain Seat_Supervision
begin

text \<open>
  The seat controller with its threads interleaved between any two accesses. First what survives without a mutex: every
  field keeps its range, and only well-formed commands and valid positions leave the controller. Then what a mutex around the code
  between two blocking calls would add: a movement on the bus always belongs to a pending command. Last that without one this
  fails: a movement can be left that nobody will stop.
\<close>

section \<open>Threads\<close>

text \<open>
  \<open>Ready rc\<close>: an application thread outside the API whose last call returned \<open>rc\<close>. \<open>Busy m\<close>: a thread with \<open>m\<close> left to execute, which
  ends in the return of an API call or in the end of a pass of the CTL thread. \<open>Crashed\<close>: a call through a null pointer.
\<close>

datatype outcome = Returned int | Passed loop_exit

datatype 'w thread = NoThread | Ready int | Created | Busy "('w, outcome) code" | Ended | Crashed

record 'w pool =
  mem :: "'w sys"
  threads :: "nat \<Rightarrow> 'w thread"

definition switch :: "nat \<Rightarrow> 'w thread \<Rightarrow> 'w sys \<Rightarrow> 'w pool \<Rightarrow> 'w pool" where
  "switch i t s c = c\<lparr>mem := s, threads := (threads c)(i := t)\<rparr>"

lemma switch_simps [simp]: "mem (switch i t s c) = s" "threads (switch i t s c) = (threads c)(i := t)"
  by (simp_all add: switch_def)

text \<open>The calls an application thread can make, and a turn of the loop of the CTL thread.\<close>

inductive api_call :: "can_codec \<Rightarrow> 'w os \<Rightarrow> nat \<Rightarrow> ('w, outcome) code \<Rightarrow> bool" for K os i where
  set_position: "api_call K os i (set_position_c K os p d (\<lambda>rc. Ret (Returned rc)))"
| stop_movement: "api_call K os i (stop_movement_c K os (\<lambda>rc. Ret (Returned rc)))"
| get_position: "api_call K os i (get_position_c p (\<lambda>rc. Ret (Returned rc)))"
| set_event_callback: "api_call K os i (set_event_callback_c p cb u (\<lambda>rc. Ret (Returned rc)))"
| close: "api_call K os i (close_c os i p (\<lambda>rc. Ret (Returned rc)))"

definition turn_c :: "can_codec \<Rightarrow> 'w os \<Rightarrow> ('w, outcome) code" where
  "turn_c K os = guard_c (\<lambda>b. if b then pass_c K os (\<lambda>x. Ret (Passed x)) else Ret (Passed Break))"

text \<open>
  One access of one thread. \<open>seatctrl_open\<close> is one step. The operating system of a call only changes the outside world; which one
  it is may differ from call to call and from pass to pass.
\<close>

inductive access :: "can_codec \<Rightarrow> nat \<Rightarrow> 'w pool \<Rightarrow> 'w pool \<Rightarrow> bool" for K i where
  world: "access K i c (c\<lparr>mem := (mem c)\<lparr>world := w\<rparr>\<rparr>)"
| call: "threads c i = Ready r \<Longrightarrow> ctl_os K os \<Longrightarrow> api_call K os i m \<Longrightarrow> access K i c (switch i (Busy m) (mem c) c)"
| act: "threads c i = Busy (Act f k) \<Longrightarrow> access K i c (switch i (Busy (k (mem c))) (f (mem c)) c)"
| join: "threads c i = Busy (Join tid k) \<Longrightarrow> threads c tid = Ended \<or> res \<noteq> 0 \<Longrightarrow>
    access K i c (switch i (Busy (k (if threads c tid = Ended then 0 else res))) (mem c) c)"
| return: "threads c i = Busy (Ret (Returned rc)) \<Longrightarrow> access K i c (switch i (Ready rc) (mem c) c)"
| again: "threads c i = Busy (Ret (Passed Continue)) \<Longrightarrow> ctl_os K os \<Longrightarrow>
    access K i c (switch i (Busy (turn_c K os)) (mem c) c)"
| finish: "threads c i = Busy (Ret (Passed Break)) \<Longrightarrow> access K i c (switch i Ended (mem c) c)"
| fault: "threads c i = Busy Fault \<Longrightarrow> access K i c (switch i Crashed (mem c) c)"
| open_failed: "threads c i = Ready r \<Longrightarrow> seatctrl_open os p (mem c) = (rc, s) \<Longrightarrow> rc \<noteq> SEAT_CTRL_OK \<Longrightarrow>
    access K i c (switch i (Ready rc) s c)"
| opened: "threads c i = Ready r \<Longrightarrow> seatctrl_open os p (mem c) = (SEAT_CTRL_OK, s) \<Longrightarrow> thread_id (ctx s) = tid \<Longrightarrow>
    tid \<noteq> 0 \<Longrightarrow> threads c tid = NoThread \<Longrightarrow>
    access K i c (switch i (Ready SEAT_CTRL_OK) s (c\<lparr>threads := (threads c)(tid := Created)\<rparr>))"
| start: "threads c i = Created \<Longrightarrow> ctl_os K os \<Longrightarrow> access K i c (switch i (Busy (turn_c K os)) (threadFunc_start (mem c)) c)"

definition some_access :: "can_codec \<Rightarrow> 'w pool \<Rightarrow> 'w pool \<Rightarrow> bool" where
  "some_access K c c' \<longleftrightarrow> (\<exists>i. access K i c c')"

definition fresh :: "seatctrl_config_t \<Rightarrow> 'w pool \<Rightarrow> bool" where
  "fresh cfg c \<longleftrightarrow>
     (\<exists>s. seatctrl_init_ctx CTX (Some cfg) s = (SEAT_CTRL_OK, mem c)) \<and> tx (mem c) = [] \<and> cbs (mem c) = [] \<and>
     (\<forall>i. threads c i = NoThread \<or> (\<exists>rc. threads c i = Ready rc))"

section \<open>What survives without a mutex\<close>

text \<open>All actions of a piece of code keep a condition on the state, whatever the other threads do to it in between.\<close>

primrec keeps :: "('w sys \<Rightarrow> bool) \<Rightarrow> ('w, 'a) code \<Rightarrow> bool" where
  "keeps I (Ret x) = True"
| "keeps I (Act f k) = (\<forall>s. I s \<longrightarrow> I (f s) \<and> keeps I (k s))"
| "keeps I (Join tid k) = (\<forall>r. keeps I (k r))"
| "keeps I Fault = True"

text \<open>The range of every field, by itself: no relation between fields.\<close>

definition fields_ok :: "seatctrl_config_t \<Rightarrow> 'w sys \<Rightarrow> bool" where
  "fields_ok cfg s \<longleftrightarrow>
     magic (ctx s) = SEAT_CTRL_CONTEXT_MAGIC \<and> config (ctx s) = cfg \<and>
     motor_pos_valid (motor1_pos (ctx s)) \<and> motor1_mov_state (ctx s) \<le> 3 \<and> motor1_learning_state (ctx s) \<le> 3 \<and>
     motor_pos_valid (desired_position (ctx s)) \<and> desired_direction (ctx s) \<noteq> INV \<and>
     list_all (frame_ok cfg) (tx s) \<and> list_all cb_ok (cbs s)"

lemma keeps_access:
  "(\<And>s. I s \<Longrightarrow> keeps I (k (f (ctx s)))) \<Longrightarrow> keeps I (get f k)"
  "(\<And>s. I s \<Longrightarrow> I (upd_ctx u s)) \<Longrightarrow> keeps I m \<Longrightarrow> keeps I (put u m)"
  "(\<And>v. keeps I (k v)) \<Longrightarrow> keeps I (load g k)"
  "(\<And>s. I s \<Longrightarrow> I (v s)) \<Longrightarrow> keeps I m \<Longrightarrow> keeps I (store v m)"
  "(\<And>s. I s \<Longrightarrow> I (os_usleep os n s)) \<Longrightarrow> keeps I m \<Longrightarrow> keeps I (sleep os n m)"
  "(\<And>v. keeps I (k' v)) \<Longrightarrow> keeps I (clock os k')"
  by (simp_all add: get_def put_def load_def store_def sleep_def clock_def)

lemma keeps_any: "(\<And>v. keeps I (k v)) \<Longrightarrow> keeps I (get f k)"
  by (simp add: get_def)

named_theorems keeps_intros

lemma fields_ok_world [simp]: "fields_ok cfg (s\<lparr>world := w\<rparr>) = fields_ok cfg s"
  by (simp add: fields_ok_def)

lemma fields_ok_put:
  "fields_ok cfg s \<Longrightarrow> fields_ok cfg (upd_ctx (\<lambda>c. c\<lparr>desired_position := MOTOR_POS_INVALID\<rparr>) s)"
  "fields_ok cfg s \<Longrightarrow> d \<noteq> INV \<Longrightarrow> fields_ok cfg (upd_ctx (\<lambda>c. c\<lparr>desired_direction := d\<rparr>) s)"
  "fields_ok cfg s \<Longrightarrow> fields_ok cfg (upd_ctx (\<lambda>c. c\<lparr>command_ts := ts\<rparr>) s)"
  "fields_ok cfg s \<Longrightarrow> motor_pos_valid v \<Longrightarrow> fields_ok cfg (upd_ctx (\<lambda>c. c\<lparr>motor1_pos := v\<rparr>) s)"
  "fields_ok cfg s \<Longrightarrow> v \<le> 3 \<Longrightarrow> fields_ok cfg (upd_ctx (\<lambda>c. c\<lparr>motor1_mov_state := v\<rparr>) s)"
  "fields_ok cfg s \<Longrightarrow> v \<le> 3 \<Longrightarrow> fields_ok cfg (upd_ctx (\<lambda>c. c\<lparr>motor1_learning_state := v\<rparr>) s)"
  "fields_ok cfg s \<Longrightarrow> fields_ok cfg (upd_ctx (\<lambda>c. c\<lparr>running := b\<rparr>) s)"
  "fields_ok cfg s \<Longrightarrow> fields_ok cfg (upd_ctx (\<lambda>c. c\<lparr>socket := fd\<rparr>) s)"
  "fields_ok cfg s \<Longrightarrow> fields_ok cfg (upd_ctx (\<lambda>c. c\<lparr>thread_id := tid\<rparr>) s)"
  "fields_ok cfg s \<Longrightarrow> fields_ok cfg (upd_ctx (\<lambda>c. c\<lparr>event_cb := cb\<rparr>) s)"
  "fields_ok cfg s \<Longrightarrow> fields_ok cfg (upd_ctx (\<lambda>c. c\<lparr>event_cb_user_data := u\<rparr>) s)"
  by (simp_all add: fields_ok_def motor_pos_valid_def)

lemma fields_ok_target:
  "fields_ok cfg s \<Longrightarrow> 0 \<le> d \<Longrightarrow> d \<le> 100 \<Longrightarrow> fields_ok cfg (upd_ctx (\<lambda>c. c\<lparr>desired_position := to_u8 d\<rparr>) s)"
  by (simp add: fields_ok_def motor_pos_valid_def)

lemma fields_ok_statics:
  "fields_ok cfg s \<Longrightarrow> fields_ok cfg (s\<lparr>last_ctl_pos := v\<rparr>)" "fields_ok cfg s \<Longrightarrow> fields_ok cfg (s\<lparr>last_ctl_dir := v\<rparr>)"
  "fields_ok cfg s \<Longrightarrow> fields_ok cfg (s\<lparr>learned_mode := b\<rparr>)" "fields_ok cfg s \<Longrightarrow> fields_ok cfg (s\<lparr>learned_mode_changed := v\<rparr>)"
  by (simp_all add: fields_ok_def)

lemma fields_ok_sent: "fields_ok cfg s \<Longrightarrow> frame_ok cfg f \<Longrightarrow> fields_ok cfg (s\<lparr>tx := tx s @ [f]\<rparr>)"
  by (simp add: fields_ok_def)

lemma keeps_call_cb [keeps_intros]:
  assumes "\<And>f u. cb_ok (CbCall f ev v u)" and "keeps (fields_ok cfg) m"
  shows "keeps (fields_ok cfg) (call_cb_c ev v m)"
  unfolding call_cb_c_def
  by (rule keeps_any) (auto simp: fields_ok_def assms simp del: cb_ok.simps split: option.split intro!: keeps_any keeps_access(4))

lemma keeps_event_cb [keeps_intros]: "keeps (fields_ok cfg) m \<Longrightarrow> keeps (fields_ok cfg) (event_cb_c CanError v m)"
  unfolding event_cb_c_def by (rule keeps_any) (simp add: keeps_call_cb)

context ctl_os
begin

lemma keeps_sleep [keeps_intros]: "keeps (fields_ok cfg) m \<Longrightarrow> keeps (fields_ok cfg) (sleep os n m)"
  by (rule keeps_access(5)) (metis fields_ok_world usleep_quiet)

lemma keeps_send_cmd1:
  assumes "d \<noteq> INV" and "d = OFF \<and> r = 0 \<or> r = to_u8 (motor_rpm cfg)" and "\<And>rc. keeps (fields_ok cfg) (k rc)"
  shows "keeps (fields_ok cfg) (send_cmd1_c K os (MotorDirection_val d) r k)"
proof -
  have "frame_ok cfg (secu1_cmd d r)" using assms(1,2) by (auto simp: frame_ok_def)
  then show ?thesis
    unfolding send_cmd1_c_def pack_motor1 option.case cmd1_frame_motor1
    by (auto intro!: assms(3) keeps_any keeps_event_cb fields_ok_sent split: prod.split)
qed

lemma keeps_send_off [keeps_intros]:
  "(\<And>rc. keeps (fields_ok cfg) (k rc)) \<Longrightarrow> keeps (fields_ok cfg) (send_cmd1_c K os (MotorDirection_val OFF) 0 k)"
  by (rule keeps_send_cmd1) simp_all

lemma keeps_stop_movement [keeps_intros]:
  "(\<And>rc. keeps (fields_ok cfg) (k rc)) \<Longrightarrow> keeps (fields_ok cfg) (stop_movement_c K os k)"
  unfolding stop_movement_c_def by (intro keeps_send_off keeps_access(2) fields_ok_put) simp_all

lemma keeps_start [keeps_intros]:
  assumes "0 \<le> d" and "d \<le> 100" and "\<And>rc. keeps (fields_ok cfg) (k rc)"
  shows "keeps (fields_ok cfg) (start_c K os p d k)"
  unfolding start_c_def Let_def
  by (intro keeps_access fields_ok_put fields_ok_target keeps_send_cmd1) (use assms in \<open>auto simp: fields_ok_def\<close>)

lemma keeps_move [keeps_intros]:
  "0 \<le> d \<Longrightarrow> d \<le> 100 \<Longrightarrow> (\<And>rc. keeps (fields_ok cfg) (k rc)) \<Longrightarrow> keeps (fields_ok cfg) (move_c K os d k)"
  unfolding move_c_def by (auto intro!: keeps_intros keeps_any keeps_access(2) fields_ok_put simp del: upd_ctx_def)

lemma keeps_wait_pos [keeps_intros]: "keeps (fields_ok cfg) m \<Longrightarrow> keeps (fields_ok cfg) (wait_pos_c os n m)"
  by (induction n) (auto intro!: keeps_intros keeps_any)

lemma keeps_set_position [keeps_intros]:
  "(\<And>rc. keeps (fields_ok cfg) (k rc)) \<Longrightarrow> keeps (fields_ok cfg) (set_position_c K os p d k)"
  unfolding set_position_c_def by (auto intro!: keeps_intros keeps_any)

lemma keeps_handle_secu_stat [keeps_intros]:
  assumes "\<And>rc. keeps (fields_ok cfg) (k rc)"
  shows "keeps (fields_ok cfg) (handle_secu_stat_c K f k)"
  unfolding handle_secu_stat_c_def Let_def
  by (auto intro!: assms keeps_any keeps_call_cb keeps_access(2) fields_ok_put simp: mov_state_range learning_state_range
      motor_pos_valid_def simp del: upd_ctx_def split: option.split)

lemma keeps_learned_mode [keeps_intros]: "keeps (fields_ok cfg) m \<Longrightarrow> keeps (fields_ok cfg) (learned_mode_c os m)"
  unfolding learned_mode_c_def Let_def
  by (auto intro!: keeps_any keeps_access(3,4,6) fields_ok_statics)

lemma keeps_tests [keeps_intros]:
  "(\<And>b. keeps (fields_ok cfg) (k b)) \<Longrightarrow> keeps (fields_ok cfg) (is_ctl_running_c k)"
  "(\<And>b. keeps (fields_ok cfg) (k b)) \<Longrightarrow> keeps (fields_ok cfg) (target_reached_c k)"
  "(\<And>b. keeps (fields_ok cfg) (k b)) \<Longrightarrow> keeps (fields_ok cfg) (stalled_c k)"
  "(\<And>b. keeps (fields_ok cfg) (k b)) \<Longrightarrow> keeps (fields_ok cfg) (preliminary_c e k)"
  "(\<And>b. keeps (fields_ok cfg) (k b)) \<Longrightarrow> keeps (fields_ok cfg) (guard_c k)"
  unfolding is_ctl_running_c_def target_reached_c_def stalled_c_def preliminary_c_def guard_c_def Let_def
  by (auto intro!: keeps_any)

lemma keeps_ctl_stop [keeps_intros]: "keeps (fields_ok cfg) m \<Longrightarrow> keeps (fields_ok cfg) (ctl_stop_c K os m)"
  unfolding ctl_stop_c_def by (intro keeps_intros keeps_access(4) fields_ok_statics)

lemma keeps_check_end [keeps_intros]: "keeps (fields_ok cfg) m \<Longrightarrow> keeps (fields_ok cfg) (check_end_c K os e m)"
  unfolding check_end_c_def by (auto intro!: keeps_intros keeps_any)

lemma keeps_resend [keeps_intros]:
  assumes "keeps (fields_ok cfg) m"
  shows "keeps (fields_ok cfg) (resend_c K os m)"
  unfolding resend_c_def
  by (intro keeps_intros keeps_access(1) keeps_send_cmd1) (use assms in \<open>auto simp: fields_ok_def\<close>)

lemma keeps_state_changed [keeps_intros]: "keeps (fields_ok cfg) m \<Longrightarrow> keeps (fields_ok cfg) (state_changed_c K os m)"
  unfolding state_changed_c_def Let_def
  by (auto intro!: keeps_intros keeps_any keeps_access(3,4) fields_ok_statics)

lemma keeps_control_loop [keeps_intros]:
  "(\<And>rc. keeps (fields_ok cfg) (k rc)) \<Longrightarrow> keeps (fields_ok cfg) (control_loop_c K os k)"
  unfolding control_loop_c_def by (auto intro!: keeps_intros keeps_any keeps_access(6))

lemma keeps_turn: "keeps (fields_ok cfg) (turn_c K os)"
proof -
  have received: "keeps (fields_ok cfg) (received_c K os r (\<lambda>x. Ret (Passed x)))" for r
    unfolding received_c_def Let_def by (auto intro!: keeps_intros keeps_any split: prod.split)
  have read: "fields_ok cfg (snd (os_read os fd s)) = fields_ok cfg s" for fd s
    using read_quiet [of fd s "fst (os_read os fd s)" "snd (os_read os fd s)"] by auto
  show ?thesis
    unfolding turn_c_def pass_c_def by (auto intro!: keeps_intros keeps_any received simp: read)
qed

lemma keeps_api_call:
  assumes "api_call K os i m"
  shows "keeps (fields_ok cfg) m"
  using assms
proof cases
  case (close p)
  then show ?thesis
    by (auto simp: close_c_def close_thread_c_def simp del: upd_ctx_def
        intro!: keeps_any keeps_intros keeps_access(2) fields_ok_put)
qed (auto simp: get_position_c_def set_event_callback_c_def simp del: upd_ctx_def
    intro!: keeps_any keeps_intros keeps_access(2) fields_ok_put)

end

text \<open>The code each thread has left keeps the condition, hence every access does.\<close>

definition pool_ok :: "seatctrl_config_t \<Rightarrow> 'w pool \<Rightarrow> bool" where
  "pool_ok cfg c \<longleftrightarrow> fields_ok cfg (mem c) \<and> (\<forall>i m. threads c i = Busy m \<longrightarrow> keeps (fields_ok cfg) m)"

lemma pool_ok_switch:
  "pool_ok cfg c \<Longrightarrow> fields_ok cfg s \<Longrightarrow> (\<And>m. t = Busy m \<Longrightarrow> keeps (fields_ok cfg) m) \<Longrightarrow> pool_ok cfg (switch i t s c)"
  by (simp add: pool_ok_def)

lemma seatctrl_open_fields:
  assumes "fields_ok cfg s"
  shows "fields_ok cfg (snd (seatctrl_open os p s))"
  using assms by (auto simp: seatctrl_open_def open_bind_def fields_ok_def Let_def split: prod.split option.split)

lemma access_ok:
  assumes "access K i c c'" and "pool_ok cfg c"
  shows "pool_ok cfg c'"
proof -
  have s: "fields_ok cfg (mem c)" and m: "\<And>j m. threads c j = Busy m \<Longrightarrow> keeps (fields_ok cfg) m"
    using assms(2) by (simp_all add: pool_ok_def)
  from assms(1) show ?thesis
  proof cases
    case (world w)
    then show ?thesis using assms(2) by (simp add: pool_ok_def)
  next
    case (call r os code)
    then show ?thesis using ctl_os.keeps_api_call by (auto intro!: pool_ok_switch assms(2) s)
  next
    case (act f k)
    then show ?thesis using m [OF act(2)] s by (auto intro!: pool_ok_switch assms(2))
  next
    case (join tid k res)
    then show ?thesis using m [OF join(2)] by (auto intro!: pool_ok_switch assms(2) s)
  next
    case (open_failed r os p rc t)
    then show ?thesis using seatctrl_open_fields [OF s, of os p] by (auto intro!: pool_ok_switch assms(2))
  next
    case (opened r os p t tid)
    have "pool_ok cfg (c\<lparr>threads := (threads c)(tid := Created)\<rparr>)" using assms(2) by (simp add: pool_ok_def)
    then show ?thesis using opened seatctrl_open_fields [OF s, of os p] by (auto intro!: pool_ok_switch)
  next
    case (start os)
    have "fields_ok cfg (threadFunc_start (mem c))" using s by (simp add: threadFunc_start_def fields_ok_def)
    then show ?thesis using start ctl_os.keeps_turn by (auto intro!: pool_ok_switch assms(2))
  qed (auto intro!: pool_ok_switch assms(2) s intro: ctl_os.keeps_turn)
qed

lemma fresh_ok:
  assumes "fresh cfg c"
  shows "pool_ok cfg c"
proof -
  have "ctx_inv (ctx (mem c)) \<and> config (ctx (mem c)) = cfg \<and> magic (ctx (mem c)) = SEAT_CTRL_CONTEXT_MAGIC \<and> cmd_idle (ctx (mem c))"
    using assms by (auto simp: fresh_def dest: init_ctx_ok)
  moreover have "threads c i \<noteq> Busy m" for i m
  proof -
    have "threads c i = NoThread \<or> (\<exists>rc. threads c i = Ready rc)" using assms by (simp add: fresh_def)
    then show ?thesis by auto
  qed
  ultimately show ?thesis
    using assms by (auto simp: pool_ok_def fields_ok_def fresh_def ctx_inv_def cmd_idle_def motor_pos_valid_def)
qed

lemma accesses_ok: "(some_access K)\<^sup>*\<^sup>* c0 c \<Longrightarrow> pool_ok cfg c0 \<Longrightarrow> pool_ok cfg c"
  by (induction rule: rtranclp_induct) (auto simp: some_access_def intro: access_ok)


text \<open>C10: Without a mutex. However the threads interleave, down to single accesses to the context: every field keeps its range, every frame
  sent is an off command or a movement of motor 1 at the configured speed, and every position reported is a percentage or the invalid
  marker.\<close>

theorem every_access_safe:
  assumes "fresh cfg c0" and "(some_access K)\<^sup>*\<^sup>* c0 c"
  shows "fields_ok cfg (mem c)"
  using accesses_ok [OF assms(2) fresh_ok [OF assms(1)]] by (simp add: pool_ok_def)

section \<open>A movement nobody will stop\<close>

text \<open>A thread that executes a piece of code while the others wait.\<close>

lemma acts_path:
  assumes "acts m s n t" and "threads c i = Busy m" and "mem c = s"
  shows "(some_access K)\<^sup>*\<^sup>* c (switch i (Busy n) t c)"
  using assms
proof (induction arbitrary: c rule: acts.induct)
  case (here m s)
  then have "switch i (Busy m) s c = c" by (cases c) (auto simp: switch_def fun_upd_idem)
  then show ?case by simp
next
  case (act k s f m t)
  let ?c = "switch i (Busy (k s)) (f s) c"
  have "some_access K c ?c"
    unfolding some_access_def using access.act [of c i f k K] act.prems by auto
  also have "(some_access K)\<^sup>*\<^sup>* ?c (switch i (Busy m) t ?c)" by (rule act.IH) simp_all
  also have "switch i (Busy m) t ?c = switch i (Busy m) t c" by (simp add: switch_def)
  finally show ?case .
qed

lemma access_path: "access K i c c' \<Longrightarrow> (some_access K)\<^sup>*\<^sup>* c c'"
  by (rule r_into_rtranclp) (auto simp: some_access_def)

lemma call_path:
  assumes "threads c i = Ready r" and "ctl_os K os" and "seatctrl_set_position K os p d (mem c) = (rc, t)"
  shows "(some_access K)\<^sup>*\<^sup>* c (switch i (Ready rc) t c)"
proof -
  let ?m = "set_position_c K os p d (\<lambda>rc. Ret (Returned rc))"
  let ?c = "switch i (Busy ?m) (mem c) c" and ?d = "switch i (Busy (Ret (Returned rc))) t c"
  have "some_access K c ?c"
    unfolding some_access_def using access.call [OF assms(1,2) api_call.set_position] by blast
  also have "(some_access K)\<^sup>*\<^sup>* ?c (switch i (Busy (Ret (Returned rc))) t ?c)"
    by (rule acts_path [where m = ?m]) (auto intro!: acts_set_position acts.here simp: assms(3))
  also have "switch i (Busy (Ret (Returned rc))) t ?c = ?d" by (simp add: switch_def)
  also have "some_access K ?d (switch i (Ready rc) (mem ?d) ?d)"
    unfolding some_access_def using access.return [of ?d i rc] by auto
  also have "switch i (Ready rc) (mem ?d) ?d = switch i (Ready rc) t c" by (simp add: switch_def)
  finally show ?thesis .
qed

text \<open>A complete turn of the CTL thread, and one up to the moment when the off command of \<open>seatctrl_stop_movement\<close> is sent.\<close>

lemma acts_turn:
  "threadFunc_guard s \<Longrightarrow> threadFunc_body K os s = (x, t) \<Longrightarrow> acts (turn_c K os) s (Ret (Passed x)) t"
  unfolding turn_c_def by (auto intro!: acts_tests acts_pass acts.here)

definition stopping :: "'w os \<Rightarrow> ('w, outcome) code" where
  "stopping os =
     put (\<lambda>c. c\<lparr>desired_position := MOTOR_POS_INVALID\<rparr>) (put (\<lambda>c. c\<lparr>desired_direction := OFF\<rparr>)
       (put (\<lambda>c. c\<lparr>command_ts := 0\<rparr>) (store (\<lambda>s. s\<lparr>last_ctl_dir := 0\<rparr>)
         (store (\<lambda>s. s\<lparr>last_ctl_pos := uint MOTOR_POS_INVALID\<rparr>) (sleep os 1000 (Ret (Passed Continue)))))))"

lemma acts_until_stop:
  assumes "threadFunc_guard s" and "os_read os (socket (ctx s)) s = ((cnt, err, f), r)" and "0 \<le> cnt"
    and "can_id f = CAN_SECU1_STAT_FRAME_ID" and "handle_secu_stat K f r = (SEAT_CTRL_OK, h)"
    and "u = update_learned_mode os h" and "is_ctl_running (ctx u)"
    and "\<not> ctl_preliminary (get_ts os u - command_ts (ctx u)) (ctx u)" and "v = ctl_state_changed K os u"
    and "target_reached (ctx v)"
  shows "acts (turn_c K os) s (stopping os) (snd (seatctrl_send_cmd1 K os (MotorDirection_val OFF) 0 v))"
proof -
  have "acts (check_end_c K os e (sleep os 1000 (Ret (Passed Continue)))) v (stopping os)
      (snd (seatctrl_send_cmd1 K os (MotorDirection_val OFF) 0 v))" for e
    unfolding check_end_c_def ctl_stop_c_def stop_movement_c_def
    by (rule acts_tests(2)) (simp add: assms(10) stopping_def, rule acts_send_cmd1, rule acts.here)
  then have "acts (control_loop_c K os (\<lambda>_. sleep os 1000 (Ret (Passed Continue)))) h (stopping os)
      (snd (seatctrl_send_cmd1 K os (MotorDirection_val OFF) 0 v))"
    unfolding control_loop_c_def using assms(6-9)
    by (intro acts_learned_mode acts_tests(1)) (simp, intro acts_access acts_tests(4), simp, rule acts_state_changed, simp)
  then show ?thesis
    unfolding turn_c_def pass_c_def received_c_def Let_def using assms(1-5)
    by (intro acts_tests(5)) (simp, intro acts_access(1) acts.act, simp add: acts_handle_secu_stat)
qed

lemma acts_stopping:
  "acts (stopping os) s (Ret (Passed Continue))
    (os_usleep os 1000 (s\<lparr>ctx := invalidate_command (ctx s), last_ctl_dir := 0, last_ctl_pos := uint MOTOR_POS_INVALID\<rparr>))"
  unfolding stopping_def by (intro acts_access) (simp add: invalidate_command_def acts.here)

text \<open>A request that is carried out while the CTL thread is in this place is lost: its movement is commanded, its command is not pending.\<close>

lemma request_overtakes_stop:
  assumes "threads c j = Busy (stopping os)" and "threads c i = Ready r" and "i \<noteq> j" and "ctl_os K os"
    and "seatctrl_set_position K os CTX d (mem c) = (rc, t)"
  obtains u where "(some_access K)\<^sup>*\<^sup>* c (switch j (Busy (Ret (Passed Continue))) u (switch i (Ready rc) t c))"
    and "tx u = tx t" and "ctx u = invalidate_command (ctx t)"
proof -
  let ?c = "switch i (Ready rc) t c"
  let ?u = "os_usleep os 1000 (t\<lparr>ctx := invalidate_command (ctx t), last_ctl_dir := 0, last_ctl_pos := uint MOTOR_POS_INVALID\<rparr>)"
  have "(some_access K)\<^sup>*\<^sup>* c ?c" by (rule call_path [OF assms(2,4,5)])
  also have "(some_access K)\<^sup>*\<^sup>* ?c (switch j (Busy (Ret (Passed Continue))) ?u ?c)"
    using assms(1,3) by (intro acts_path [OF acts_stopping]) auto
  finally show ?thesis using that ctl_os.usleep_frame [OF assms(4)] by simp
qed

text \<open>
  A schedule from the start that leads there. The CTL thread handles a first frame; a request for 50 percent; the frame that reports 50
  percent, in whose turn the CTL thread sends the off command; then, before it has marked the command as done, a request for 80
  percent.
\<close>

definition race_os :: "unit os" where "race_os = frame_os (status_frame INC 50)"

definition race0 :: "unit sys" where
  "race0 = snd (seatctrl_init_ctx CTX (Some demo_config)
     \<lparr> ctx = demo_ctx 0, last_ctl_pos = 255, last_ctl_dir = 0, learned_mode = True, learned_mode_changed = 0,
       tx = [], cbs = [], world = () \<rparr>)"

definition race1 :: "unit sys" where "race1 = snd (seatctrl_open ok_os CTX race0)"
definition race2 :: "unit sys" where
  "race2 = snd (threadFunc_body dbc_codec (frame_os (status_frame OFF 20)) (threadFunc_start race1))"
definition race3 :: "unit sys" where "race3 = snd (seatctrl_set_position dbc_codec ok_os CTX 50 race2)"
definition race4 :: "unit sys" where
  "race4 = update_learned_mode race_os (snd (handle_secu_stat dbc_codec (status_frame INC 50) race3))"
definition race5 :: "unit sys" where "race5 = ctl_state_changed dbc_codec race_os race4"
definition race6 :: "unit sys" where "race6 = snd (seatctrl_send_cmd1 dbc_codec race_os (MotorDirection_val OFF) 0 race5)"
definition race7 :: "unit sys" where "race7 = snd (seatctrl_set_position dbc_codec race_os CTX 80 race6)"

lemma race_evaluated:
  "fst (seatctrl_open ok_os CTX race0) = SEAT_CTRL_OK" "thread_id (ctx race1) = 1"
  "threadFunc_guard (threadFunc_start race1)"
  "fst (threadFunc_body dbc_codec (frame_os (status_frame OFF 20)) (threadFunc_start race1)) = Continue"
  "fst (seatctrl_set_position dbc_codec ok_os CTX 50 race2) = SEAT_CTRL_OK"
  "threadFunc_guard race3" "fst (handle_secu_stat dbc_codec (status_frame INC 50) race3) = SEAT_CTRL_OK"
  "is_ctl_running (ctx race4)" "\<not> ctl_preliminary (get_ts race_os race4 - command_ts (ctx race4)) (ctx race4)"
  "target_reached (ctx race5)"
  "fst (seatctrl_set_position dbc_codec race_os CTX 80 race6) = SEAT_CTRL_OK"
  "tx race7 = [secu1_cmd OFF 0, secu1_cmd INC 80, secu1_cmd OFF 0, secu1_cmd OFF 0, secu1_cmd INC 80]"
  "motor1_pos (ctx race7) = 50" "desired_position (ctx race7) = 80" "socket (ctx race7) = 3" "running (ctx race7)"
  by code_simp+

definition race_pool :: "unit sys \<Rightarrow> unit thread \<Rightarrow> unit pool" where
  "race_pool s t = \<lparr> mem = s, threads = (\<lambda>i. if i = 0 then Ready SEAT_CTRL_OK else if i = 1 then t else NoThread) \<rparr>"

lemma race_pool_simps [simp]:
  "mem (race_pool s t) = s" "threads (race_pool s t) 0 = Ready SEAT_CTRL_OK" "threads (race_pool s t) (Suc 0) = t"
  "switch (Suc 0) t' s' (race_pool s t) = race_pool s' t'" "switch 0 (Ready SEAT_CTRL_OK) s' (race_pool s t) = race_pool s' t"
  "(race_pool s t)\<lparr>threads := (threads (race_pool s t))(Suc 0 := t')\<rparr> = race_pool s t'"
  by (auto simp: race_pool_def switch_def fun_eq_iff)

lemma race_fresh: "fresh demo_config (race_pool race0 NoThread)"
proof -
  have "seatctrl_init_ctx CTX (Some demo_config) race0 = (SEAT_CTRL_OK, race0)"
    by (simp add: race0_def seatctrl_init_ctx_def demo_config_def)
  then show ?thesis
    by (auto simp: fresh_def race_pool_def) (simp_all add: race0_def seatctrl_init_ctx_def demo_config_def)
qed

lemma race_reaches_stop: "(some_access dbc_codec)\<^sup>*\<^sup>* (race_pool race0 NoThread) (race_pool race6 (Busy (stopping race_os)))"
proof -
  let ?K = dbc_codec and ?os1 = "frame_os (status_frame OFF 20) :: unit os"
  note codec = dbc.secu_codec_axioms
  have os1: "ctl_os ?K ?os1" and os: "ctl_os ?K race_os"
    unfolding race_os_def by (rule frame_os_ctl_os [OF codec])+
  have stop: "acts (turn_c ?K race_os) race3 (stopping race_os) race6"
    unfolding race6_def
  proof (rule acts_until_stop [OF race_evaluated(6), where f = "status_frame INC 50"])
    show "os_read race_os (socket (ctx race3)) race3 = ((16, 0, status_frame INC 50), race3)" by (simp add: race_os_def frame_os_def)
    show "handle_secu_stat ?K (status_frame INC 50) race3 = (SEAT_CTRL_OK, snd (handle_secu_stat ?K (status_frame INC 50) race3))"
      using race_evaluated(7) by (simp add: prod_eq_iff)
  qed (use race_evaluated(8-10) race4_def race5_def in \<open>simp_all add: status_frame_def\<close>)
  have "(some_access ?K)\<^sup>*\<^sup>* (race_pool race0 NoThread) (race_pool race1 Created)"
    using access.opened [of "race_pool race0 NoThread" 0 SEAT_CTRL_OK ok_os CTX race1 1 ?K] race_evaluated(1,2)
    by (intro access_path) (simp add: race1_def prod_eq_iff)
  also have "(some_access ?K)\<^sup>*\<^sup>* (race_pool race1 Created) (race_pool (threadFunc_start race1) (Busy (turn_c ?K ?os1)))"
    using access.start [of "race_pool race1 Created" 1, OF _ os1] by (intro access_path) simp
  also have "(some_access ?K)\<^sup>*\<^sup>* (race_pool (threadFunc_start race1) (Busy (turn_c ?K ?os1)))
      (race_pool race2 (Busy (Ret (Passed Continue))))"
    using acts_path [OF acts_turn [OF race_evaluated(3), of ?K ?os1 Continue race2],
        of "race_pool (threadFunc_start race1) (Busy (turn_c ?K ?os1))" 1 ?K] race_evaluated(4)
    by (simp add: race2_def prod_eq_iff)
  also have "(some_access ?K)\<^sup>*\<^sup>* (race_pool race2 (Busy (Ret (Passed Continue)))) (race_pool race3 (Busy (Ret (Passed Continue))))"
    using call_path [of "race_pool race2 (Busy (Ret (Passed Continue)))" 0 SEAT_CTRL_OK, OF _ ok_os_ctl_os [OF codec], of CTX 50
        SEAT_CTRL_OK race3] race_evaluated(5) by (simp add: race3_def prod_eq_iff)
  also have "(some_access ?K)\<^sup>*\<^sup>* (race_pool race3 (Busy (Ret (Passed Continue)))) (race_pool race3 (Busy (turn_c ?K race_os)))"
    using access.again [of "race_pool race3 (Busy (Ret (Passed Continue)))" 1, OF _ os] by (intro access_path) simp
  also have "(some_access ?K)\<^sup>*\<^sup>* (race_pool race3 (Busy (turn_c ?K race_os))) (race_pool race6 (Busy (stopping race_os)))"
    using acts_path [of "turn_c ?K race_os" race3 "stopping race_os" race6 "race_pool race3 (Busy (turn_c ?K race_os))" 1 ?K] stop by simp
  finally show ?thesis .
qed

text \<open>C11: A lost request. Between the off command with which the CTL thread ends a movement and the writes that mark its command as done, a new
  request can be carried out completely. It returns OK and its movement is the last command on the bus, but the CTL thread then clears
  it: no command is pending, and from there on the CTL thread sends nothing, however long it runs.\<close>

theorem request_lost_in_stop:
  "\<exists>c0 c :: unit pool. fresh demo_config c0 \<and> (some_access dbc_codec)\<^sup>*\<^sup>* c0 c \<and>
     threads c 0 = Ready SEAT_CTRL_OK \<and> threads c 1 = Busy (Ret (Passed Continue)) \<and> threadFunc_guard (mem c) \<and>
     last (tx (mem c)) = secu1_cmd INC 80 \<and> cmd_idle (ctx (mem c)) \<and>
     (\<forall>os n. ctl_os dbc_codec os \<longrightarrow> tx (passes dbc_codec os n (mem c)) = tx (mem c))"
proof -
  let ?c = "race_pool race6 (Busy (stopping race_os))"
  have os: "ctl_os dbc_codec race_os" unfolding race_os_def by (rule frame_os_ctl_os [OF dbc.secu_codec_axioms])
  have r: "seatctrl_set_position dbc_codec race_os CTX 80 (mem ?c) = (SEAT_CTRL_OK, race7)"
    using race_evaluated(11) by (simp add: race7_def prod_eq_iff)
  obtain u where u: "(some_access dbc_codec)\<^sup>*\<^sup>* ?c (race_pool u (Busy (Ret (Passed Continue))))" "tx u = tx race7"
      "ctx u = invalidate_command (ctx race7)"
    using request_overtakes_stop [of ?c 1 race_os 0 SEAT_CTRL_OK, OF _ _ _ os r] by auto
  have "threadFunc_guard u" using u(3) race_evaluated(15,16)
    by (simp add: threadFunc_guard_def invalidate_command_def SOCKET_INVALID_def)
  moreover have "tx (passes dbc_codec os n u) = tx u" if "ctl_os dbc_codec os" for os n
    using ctl_os.idle_passes [OF that, of u] u(3) by simp
  ultimately show ?thesis
    using race_fresh rtranclp_trans [OF race_reaches_stop u(1)] u(2,3) race_evaluated(12)
    by (intro exI [of _ "race_pool race0 NoThread"] exI [of _ "race_pool u (Busy (Ret (Passed Continue)))"]) simp
qed

theorem request_lost_in_stop_witness:
  "\<exists>c :: unit pool. last (tx (mem c)) = secu1_cmd INC 80 \<and> cmd_idle (ctx (mem c)) \<and>
     last (tx (passes dbc_codec ok_os 100000 (mem c))) = secu1_cmd INC 80"
  using request_lost_in_stop ok_os_ctl_os [OF dbc.secu_codec_axioms] by metis

theorem every_access_safe_witness: "fields_ok demo_config race6"
  using every_access_safe [OF race_fresh race_reaches_stop] by simp

end
