(* ===== verification/Broker_Feeder_Example.thy ===== *)
theory Broker_Feeder_Example
  imports Seat_Service
begin

text \<open>
  \<open>examples/broker_feeder\<close>: a program that feeds a ramp of seat positions to the broker. It works on the feeder of
  \<open>Data_Broker_Feeder\<close>; \<open>rest\<close> is what the thread of \<open>Run\<close> does while the main thread sleeps. The loop over the ramp
  takes its increment from the environment and is a partial function: \<open>None\<close> is a loop that never ends.
\<close>

section \<open>Strings\<close>

text \<open>\<open>std::string::find\<close>: the first position of a substring.\<close>

fun str_find :: "string \<Rightarrow> string \<Rightarrow> nat option" where
  "str_find pat s =
     (if take (length pat) s = pat then Some 0
      else case s of [] \<Rightarrow> None | _ # cs \<Rightarrow> map_option Suc (str_find pat cs))"

declare str_find.simps [simp del]

text \<open>\<open>std::stoi\<close>; \<open>None\<close> is an exception (no digits, or out of range).\<close>

definition stoi :: "string \<Rightarrow> int option" where
  "stoi s =
     (let t = dropWhile is_c_space s;
          (neg, ds) = (case t of
              c # cs \<Rightarrow> if c = CHR ''-'' then (True, cs) else if c = CHR ''+'' then (False, cs) else (False, t)
            | [] \<Rightarrow> (False, []));
          v = (if neg then - digits_value ds 0 else digits_value ds 0)
      in if ds = [] \<or> \<not> is_c_digit (hd ds) \<or> \<not> int32_range v then None else Some v)"

section \<open>The program\<close>

record feeder_args =
  fa_target :: string
  fa_vss3 :: bool

definition feeder_arg :: "string \<Rightarrow> feeder_args \<Rightarrow> feeder_args process" where
  "feeder_arg arg_val a =
     (if arg_val = ''--vss3'' then Done (a\<lparr>fa_vss3 := True\<rparr>)
      else case str_find ''--target'' arg_val of
          Some start_pos \<Rightarrow>
            let p = start_pos + length ''--target''
            in if p < length arg_val \<and> arg_val ! p = CHR ''=''
               then Done (a\<lparr>fa_target := drop (p + 1) arg_val\<rparr>) else Exit 1
        | None \<Rightarrow> Exit 1)"

fun feeder_args_parse :: "string list \<Rightarrow> feeder_args \<Rightarrow> feeder_args process" where
  "feeder_args_parse [] a = Done a"
| "feeder_args_parse (arg # rest) a =
     (case feeder_arg arg a of Exit rc \<Rightarrow> Exit rc | Done a1 \<Rightarrow> feeder_args_parse rest a1)"

definition seat_position_vss3 :: string where "seat_position_vss3 = ''Vehicle.Cabin.Seat.Row1.Pos1.Position''"
definition seat_position_vss4 :: string where "seat_position_vss4 = ''Vehicle.Cabin.Seat.Row1.DriverSide.Position''"

definition example_config :: "string \<Rightarrow> DatapointConfiguration" where
  "example_config name =
     [\<lparr> dp_name = name, dp_data_type = UINT16, dp_change_type = ON_CHANGE, dp_initial_value = createDatapoint_uint32 0,
        dp_description = ''dummy description'' \<rparr>]"

text \<open>One call of \<open>FeedValue\<close>, with the log of the newest values.\<close>

definition feed_now :: "string \<Rightarrow> Datapoint \<Rightarrow> feeding \<Rightarrow> feeding" where
  "feed_now name v c = c\<lparr>fd := FeedValue name v (fd c),
     latest := (if feeder_active (fd c) then (latest c)(name \<mapsto> v) else latest c)\<rparr>"

text \<open>The wait for \<open>Ready()\<close>, at most \<open>n\<close> seconds.\<close>

fun wait_ready :: "(int \<Rightarrow> feeding \<Rightarrow> feeding) \<Rightarrow> nat \<Rightarrow> feeding \<Rightarrow> feeding" where
  "wait_ready rest 0 c = c"
| "wait_ready rest (Suc n) c = (if Ready (fd c) then c else wait_ready rest n (rest 1000 c))"

text \<open>The ramp; \<open>Inl\<close> is a signed overflow of the loop variable.\<close>

partial_function (option) feed_ramp ::
    "(int \<Rightarrow> feeding \<Rightarrow> feeding) \<Rightarrow> string \<Rightarrow> int \<Rightarrow> int \<Rightarrow> int \<Rightarrow> feeding \<Rightarrow> (unit + feeding) option" where
  "feed_ramp rest name timeout inc i c =
     (if i \<le> 1000 then
        let c1 = rest timeout (feed_now name (uint32_value (of_int i)) c)
        in if int32_range (i + inc) then feed_ramp rest name timeout inc (i + inc) c1 else Some (Inl ())
      else Some (Inr c))"

datatype example_end = Finished feeding | Overflow | Uncaught

text \<open>The program up to the join of the thread. The thread exists from here on: \<open>rest\<close> starts with \<open>feeding_start\<close>.\<close>

definition feeder_example_main ::
    "(int \<Rightarrow> feeding \<Rightarrow> feeding) \<Rightarrow> environ \<Rightarrow> string list \<Rightarrow> example_end process option" where
  "feeder_example_main rest env args =
     (case feeder_args_parse args \<lparr> fa_target = ''localhost:55555'', fa_vss3 = False \<rparr> of
        Exit rc \<Rightarrow> Some (Exit rc)
      | Done a \<Rightarrow>
          let name = (if fa_vss3 a then seat_position_vss3 else seat_position_vss4);
              c1 = wait_ready rest 10 (feeding_start (KuksaClient_new env (fa_target a)) (example_config name))
          in case stoi (getEnvVar env ''TIMEOUT'' ''0'') of
               None \<Rightarrow> Some (Done Uncaught)
             | Some timeout \<Rightarrow>
                 (case stoi (getEnvVar env ''STEP'' ''10'') of
                    None \<Rightarrow> Some (Done Uncaught)
                  | Some inc \<Rightarrow>
                      (case feed_ramp rest name timeout inc 0 c1 of
                         None \<Rightarrow> None
                       | Some (Inl _) \<Rightarrow> Some (Done Overflow)
                       | Some (Inr c2) \<Rightarrow>
                           let c3 = rest 3000 (feed_now name (string_value ''bad value'') c2)
                           in Some (Done (Finished (c3\<lparr>fd := Shutdown (fd c3)\<rparr>))))))"

section \<open>When the ramp ends\<close>

lemma ramp_step:
  "feed_ramp rest name timeout inc i c =
     (if i \<le> 1000 then
        if int32_range (i + inc)
        then feed_ramp rest name timeout inc (i + inc) (rest timeout (feed_now name (uint32_value (of_int i)) c))
        else Some (Inl ())
      else Some (Inr c))"
  by (subst feed_ramp.simps) (simp add: Let_def)

text \<open>The values of the ramp from \<open>i\<close> on.\<close>

function ramp_values :: "int \<Rightarrow> int \<Rightarrow> int list" where
  "ramp_values inc i = (if 0 < inc \<and> i \<le> 1000 then i # ramp_values inc (i + inc) else [])"
  by pat_completeness auto
termination
  by (relation "measure (\<lambda>(inc, i). nat (1001 - i))") auto

declare ramp_values.simps [simp del]

lemma ramp_ends:
  assumes "0 < inc" and "int32_range inc" and "0 \<le> i" and "i = 0 \<or> inc \<le> i"
  shows "feed_ramp rest name timeout inc i c =
    Some (Inr (fold (\<lambda>j d. rest timeout (feed_now name (uint32_value (of_int j)) d)) (ramp_values inc i) c))"
  using assms
proof (induction inc i arbitrary: c rule: ramp_values.induct)
  case (1 inc i)
  show ?case
  proof (cases "i \<le> 1000")
    case True
    then have "int32_range (i + inc)" using 1(3-5) by (auto simp: int32_range_def)
    then show ?thesis
      using True 1 by (subst ramp_step) (simp add: ramp_values.simps [of inc i])
  next
    case False
    then show ?thesis by (subst ramp_step) (simp add: ramp_values.simps [of inc i])
  qed
qed

lemma ramp_returns:
  assumes "feed_ramp rest name timeout inc i c = Some r"
  shows "inc = 0 \<and> int32_range i \<longrightarrow> 1000 < i"
proof (rule feed_ramp.raw_induct [OF _ assms])
  fix ramp rest name timeout inc i c r
  assume IH: "\<And>(rest :: int \<Rightarrow> feeding \<Rightarrow> feeding) (name :: string) timeout inc i (c :: feeding) r.
      ramp rest name timeout inc i c = Some (r :: unit + feeding) \<Longrightarrow> inc = 0 \<and> int32_range i \<longrightarrow> 1000 < i"
    and body: "(if i \<le> 1000 then
        let c1 = rest timeout (feed_now name (uint32_value (word_of_int i)) c)
        in if int32_range (i + inc) then ramp rest name timeout inc (i + inc) c1 else Some (Inl ())
      else Some (Inr c)) = Some r"
  show "inc = 0 \<and> int32_range i \<longrightarrow> 1000 < i"
    using body IH [of rest name timeout inc "i + inc"] by (auto simp: Let_def split: if_splits)
qed

lemma ramp_stuck: "int32_range i \<Longrightarrow> i \<le> 1000 \<Longrightarrow> feed_ramp rest name timeout 0 i c = None"
  using ramp_returns [of rest name timeout 0 i c] by (cases "feed_ramp rest name timeout 0 i c") auto

lemma ramp_overflows:
  assumes "inc < 0" and "int32_range i" and "i \<le> 1000"
  shows "feed_ramp rest name timeout inc i c = Some (Inl ())"
  using assms(2,3)
proof (induction "nat (i + 2 ^ 31)" arbitrary: i c rule: less_induct)
  case less
  show ?case
  proof (cases "int32_range (i + inc)")
    case True
    then have "feed_ramp rest name timeout inc (i + inc) d = Some (Inl ())" for d
      using less.prems assms(1) by (intro less.hyps) (auto simp: int32_range_def)
    with True less.prems show ?thesis by (subst ramp_step) simp
  next
    case False
    with less.prems show ?thesis by (subst ramp_step) simp
  qed
qed

lemma int_le_div_iff:
  assumes "0 < (b :: int)"
  shows "k \<le> a div b \<longleftrightarrow> k * b \<le> a"
proof
  assume "k \<le> a div b"
  then have "k * b \<le> a div b * b" using assms by (intro mult_right_mono) auto
  also have "\<dots> \<le> a" using div_mult_mod_eq [of a b] pos_mod_sign [OF assms, of a] by linarith
  finally show "k * b \<le> a" .
next
  assume "k * b \<le> a"
  then have "k * b div b \<le> a div b" using assms by (rule zdiv_mono1)
  then show "k \<le> a div b" using assms by simp
qed

lemma ramp_values_multiples:
  assumes "0 < inc"
  shows "ramp_values inc (int k * inc) = map (\<lambda>j. int j * inc) [k..<nat (1000 div inc) + 1]"
proof (induction "nat (1000 div inc) + 1 - k" arbitrary: k)
  case 0
  then have "1000 div inc < int k" using assms by (simp add: pos_imp_zdiv_nonneg_iff nat_less_iff)
  then have "1000 < int k * inc" using int_le_div_iff [OF assms, of "int k" 1000] by linarith
  then show ?case using 0 by (subst ramp_values.simps) simp
next
  case (Suc n)
  have "0 \<le> 1000 div inc" using assms by (simp add: pos_imp_zdiv_nonneg_iff)
  then have "int k \<le> 1000 div inc" using Suc.hyps(2) by linarith
  then have "int k * inc \<le> 1000" using int_le_div_iff [OF assms, of "int k" 1000] by blast
  moreover have "ramp_values inc (int (Suc k) * inc) = map (\<lambda>j. int j * inc) [Suc k..<nat (1000 div inc) + 1]"
    using Suc.hyps by (intro Suc.hyps(1)) simp
  moreover have "int (Suc k) * inc = int k * inc + inc" by (simp add: algebra_simps)
  moreover have "k < nat (1000 div inc) + 1" using Suc.hyps(2) by simp
  ultimately show ?case using assms
    by (subst ramp_values.simps) (simp add: upt_conv_Cons del: upt_Suc)
qed

text \<open>The ramp of the example, whatever the other thread does meanwhile. With a positive \<open>STEP\<close> it feeds 0, \<open>STEP\<close>, 2 \<open>STEP\<close>
  and so on up to 1000 and ends; with \<open>STEP\<close> 0 it never ends; with a negative one the loop variable overflows.\<close>

lemma feed_ramp_termination:
  assumes "int32_range inc"
  shows "feed_ramp rest name timeout inc 0 c =
    (if 0 < inc then Some (Inr (fold (\<lambda>j d. rest timeout (feed_now name (uint32_value (of_int (int j * inc))) d)) [0..<nat (1000 div inc) + 1] c))
     else if inc = 0 then None else Some (Inl ()))"
proof -
  consider "0 < inc" | "inc = 0" | "inc < 0" by linarith
  then show ?thesis
  proof cases
    case 1
    then show ?thesis
      using ramp_ends [OF 1 assms, of 0] ramp_values_multiples [OF 1, of 0] by (simp add: fold_map o_def)
  next
    case 2
    then show ?thesis by (simp add: ramp_stuck int32_range_def)
  next
    case 3
    then show ?thesis by (simp add: ramp_overflows int32_range_def)
  qed
qed

end
