(* ===== verification/Spec2Isabelle.thy ===== *)
theory Spec2Isabelle
  imports Mock_Events Hvac_Service Service_Types Service_Startup Signal_Pipe Can_Helpers Seat_Controller_Tool Seat_Controller_Log Seat_Svc_Client
    Seat_Publication Seat_Races Broker_Feeder_Example
begin

text \<open>
  A verification library for KUKSA.val services: the seat service (\<open>seat_service/src\<close>, C++), and the two smaller Python services of the
  repository (\<open>mock_service\<close>, \<open>hvac_service\<close>).

  \<^bold>\<open>The program.\<close> The service moves a driver's seat. Requests come in as gRPC calls or as actuator
  targets of the KUKSA data broker; commands go out as CAN frames to the seat ECU; positions reported by the ECU
  go back to the broker. A request passes \<open>seats_grpc_service.cc\<close> or
  \<open>seat_position_subscriber.cc\<close>, then the class \<open>SeatAdjusterImpl\<close> (\<open>seat_adjuster.cc\<close>), then the seat
  controller (\<open>seat_controller.cc\<close>), whose CTL thread reads the frames of the ECU and supervises the movement.
  A reported position passes the controller's event callback, the adjuster, \<open>seat_data_feeder.cc\<close>
  and \<open>data_broker_feeder.cc\<close>, which owns the connection to the broker through \<open>kuksa_client.cc\<close>. The mock service stands in for vehicle
  services: it plays configured behaviors on datapoints of the broker. The HVAC service feeds two datapoints on request.

  \<^bold>\<open>The theories\<close>, in the order of their imports.

  \<^item> \<open>Seat_Prelude\<close>: C integers and strings (\<open>atoi\<close>), errno values, the environment, lemma collections.
  \<^item> \<open>Can_Codec\<close>: CAN frames. The codec \<open>CAN.h\<close> is generated at build time from \<open>seat_ecu.dbc\<close>: it is the
    record \<open>can_codec\<close>, its layout the locale \<open>secu_codec\<close>, interpreted on a codec computed from the
    signals of the DBC file.
  \<^item> \<open>Seat_Controller\<close>: \<open>seat_controller.h/.cc\<close>. The record \<open>seatctrl_context_t\<close> and the static variables form the
    state \<open>sys\<close>; every API function, \<open>handle_secu_stat\<close>, \<open>seatctrl_control_loop\<close> and
    \<open>seatctrl_threadFunc\<close> is a function on it. System calls are the fields of a record \<open>os\<close>; a call that
    blocks may change the whole state, since the other thread runs meanwhile.
  \<^item> \<open>Seat_Control_Laws\<close>: frame lemmas, the invariant \<open>ctx_inv\<close>, the frames sent (\<open>secu1_cmd\<close>), and two views of
    the operating system: \<open>app_os\<close>, in which the CTL thread runs while the caller sleeps (its guarantee is
    \<open>ctl_guar\<close>), and \<open>ctl_os\<close>, in which the CTL thread runs undisturbed. The second gives the first (sublocale \<open>app\<close>).
  \<^item> \<open>Seat_Interleaving\<close>: any number of application and CTL threads as a step relation over program counters; a
    step is the code between two blocking calls, the results of system calls are arbitrary. Safety in all
    reachable states, the guarantee of the CTL thread, and that \<open>seatctrl_set_position\<close> as a function
    is a path of this relation. The code of a step is atomic here; \<open>Seat_Races\<close> splits it into single accesses.
  \<^item> \<open>Seat_Control_Liveness\<close>: with an ECU that keeps sending (\<open>live_os\<close>), every movement ends within a bounded number of
    passes.
  \<^item> \<open>Cansim\<close>: the simulated ECU and system call hooks of the tests (\<open>tests/cansim\<close>). They satisfy the
    assumptions of \<open>ctl_os\<close> and \<open>live_os\<close>, and serve as the concrete system of the witnesses.
  \<^item> \<open>Seat_Controller_Spec\<close>: the properties of the controller.
  \<^item> \<open>Seat_Supervision\<close>: which movements the CTL thread can still end. While requests do not overlap, whatever was commanded last
    is an off command or a movement recorded in the context; two overlapping requests leave the motor running unrecorded.
  \<^item> \<open>Seat_Fine_Grain\<close>: the controller again, as a tree of single accesses to the shared state (\<open>code\<close>), one definition
    \<open>*_c\<close> per function. Run without interruption, each is the function of \<open>Seat_Controller\<close>.
  \<^item> \<open>Seat_Races\<close>: any number of threads interleaved between these accesses (the context has no mutex). Frames, callbacks and the
    fields of the context stay in range; a request can be lost between two assignments of \<open>seatctrl_stop_movement\<close>.
    \<open>seatctrl_open\<close> is one step, and the reads that only feed the console are left out.
  \<^item> \<open>Closed_Loop\<close>: controller and simulated ECU together. Phases of a movement (moving, halted by the ECU, arrived), what a pass
    of the CTL thread makes of each, and that the seat arrives exactly at the requested position.
  \<^item> \<open>Seat_Reports\<close>: the last position reported to the event callback is the one in the context, pass by pass, so that a
    movement ends with the requested position reported.
  \<^item> \<open>Seat_Publication\<close>: the reports on their way through the adjuster's callback and the data feeder, interleaved with the feeder's thread
    (\<open>fed_by\<close>): the newest value of the feeder is the last report.
  \<^item> \<open>Seat_Adjuster\<close>: \<open>seat_adjuster.h/.cc\<close>, the abstract class as the locale \<open>adjuster_interface\<close> and
    its implementation.
  \<^item> \<open>Kuksa_Client\<close>, \<open>Create_Datapoint\<close>: \<open>kuksa_client.h/.cc\<close> and \<open>create_datapoint.h\<close>.
  \<^item> \<open>Seats_Grpc_Service\<close>: the three gRPC handlers over any adjuster.
  \<^item> \<open>Data_Broker_Feeder\<close>: \<open>data_broker_feeder.h/.cc\<close>. The functions of the class, and \<open>Run\<close> interleaved with
    the feeding threads as a step relation at the granularity of the mutex and the remote calls, whose answers
    are arbitrary. Two logs (\<open>latest\<close>, \<open>acked\<close>) state that no value is lost.
  \<^item> \<open>Seat_Service\<close>: \<open>seat_data_feeder.cc\<close>, \<open>seat_position_subscriber.cc\<close> and the configuration in
    \<open>main.cc\<close>.
  \<^item> \<open>Can_Helpers\<close>: \<open>can_helpers/\<close> (raw and broadcast manager sockets) and the example programs \<open>can_send\<close> and
    \<open>can_subscribe\<close>. An access past the end of an array is the outcome \<open>OutOfBounds\<close>. What goes on the bus and what reaches the
    callback, the timer of a subscription, and how the examples fit the seat controller.
  \<^item> \<open>Seat_Controller_Tool\<close>: the command line tool \<open>seat_controller/main.cc\<close>, under the locale \<open>safe_os\<close> (while the program
    sleeps, the CTL thread keeps the safety invariant).
  \<^item> \<open>Seat_Controller_Log\<close>: the lines the print functions of \<open>seat_controller.cc\<close> write, and that the dump of a frame stays in
    its buffer and can be read back.
  \<^item> \<open>Feeder_Registration\<close>: \<open>registerDatapoints()\<close> as a path of \<open>Run\<close>, and what a conforming broker receives first.
  \<^item> \<open>Service_Process\<close>: the process. The subscriber and the main thread of \<open>main.cc\<close> as step relations over program counters,
    interleaved with the thread of the feeder and with reports and requests from outside (\<open>service_step\<close>): the shutdown
    returns, and the two races in which it does not.
  \<^item> \<open>Service_Types\<close>: the typing of datapoints and that all values of the running service have the registered types.
  \<^item> \<open>Service_Startup\<close>: the order of the constructors in \<open>Run()\<close> against the first status frames.
  \<^item> \<open>Signal_Pipe\<close>: signal handler, self pipe and wait of \<open>main.cc\<close>, under the locale \<open>self_pipe\<close>.
  \<^item> \<open>Seat_Svc_Client\<close>, \<open>Broker_Feeder_Example\<close>: the example clients, connected to the handlers of the service and to the feeder.
  \<^item> \<open>Mock_Engine\<close>: \<open>mock_service/lib\<close>: Python values, triggers, animators, actions, behaviors and their executor, over a store of mutable
    objects. When clock triggers activate, what animations show. \<open>numpy\<close> and \<open>scipy\<close> are a record with the laws of the locale
    \<open>interpolation\<close>, interpreted on exact interpolation; \<open>kuksa_client\<close> and the configuration script are the record \<open>client\<close>.
  \<^item> \<open>Mock_Service\<close>: \<open>dsl.py\<close>, \<open>loader.py\<close>, \<open>mockservice.py\<close>. What a load makes of a configuration, when the service reloads, and an
    animation that ends its main loop.
  \<^item> \<open>Mock_Events\<close>: the order in which queued requests are carried out, configurations and deletions.
  \<^item> \<open>Hvac_Service\<close>: \<open>hvacservice.py\<close>, its threads as a step relation over their shared attributes: what reaches the broker, and the connection
    flag after a failure.
  \<^item> this theory: properties of the whole chain.

  \<^bold>\<open>Bounds and fuel.\<close> \<open>threadFunc_loop\<close> has fuel for the endless loop of the CTL thread; the theorems about it say what a
  pass does, and \<open>every_movement_ends\<close> bounds the passes a command can last by the milliseconds left until its timeout (each pass
  sleeps at least one). In \<open>set_position_reaches_target\<close> 1144 passes are enough: at the lowest speed (30) a tick moves the seat by 93 of
  102,400 units, which makes 1102 ticks, and at most 42 passes wait at a stop of the ECU; they take less than 12,750 ms. \<open>wait_motor1_pos\<close> has the 30 retries of the code. \<open>RunForever\<close> of the broadcast
  manager socket is given as its first \<open>n\<close> passes, for any \<open>n\<close>. The client polls at most 151 times (\<open>client_wait\<close> has a
  termination proof); \<open>signal_write\<close> and \<open>feed_ramp\<close> may run forever and are partial functions, where \<open>None\<close> is a loop
  that does not end. \<open>main_loop\<close> of the mock service is given as its first
  \<open>n\<close> passes. The step relations have no fuel: returning is stated as a measure that every step of a thread decreases
  (\<open>steps_left\<close>, \<open>shutdown_left\<close>) together with the fact that some step is possible. \<open>int\<close> stands for C++
  integers whose values the guards keep far from overflow, words for the others (frame bytes, the \<open>uint32\<close> targets,
  \<open>size_type\<close>), and the truncation of the time stamp in the learning state check is written out (\<open>to_int32\<close>). Python floats are
  exact rationals: rounding, infinities and NaN have no counterpart.

  \<^bold>\<open>Not modelled.\<close> Console output beyond the print functions of the controller; the generated protobuf, gRPC and CAN code
  (parameters); the inside of the gRPC server and of \<open>getopt_long\<close>; the optional code for all four motors
  (\<open>SEAT_CTRL_ALL_MOTORS\<close>, not compiled); the unit and integration tests and the main program of the simulator; the
  graphical front end and the example scripts of the mock service and the test client of the HVAC service. What remains of the C++
  files is declarations, includes, comments, usage texts and debug output. In the mock service the subscription threads deliver events
  while the main thread is in a remote call or sleeps, not between two statements, and the list of behaviors passed to
  \<open>mock_datapoint\<close> is not shared with other datapoints.
\<close>

section \<open>From a request to the CAN bus\<close>

text \<open>The driver's seat at a base position, as a request.\<close>

definition drivers_seat :: "int \<Rightarrow> MoveRequest" where
  "drivers_seat base = \<lparr> move_seat = Some \<lparr> seat_location = Some \<lparr> loc_row = 1, loc_index = 1 \<rparr>,
     seat_position = Some (Position_default\<lparr>pos_base := base\<rparr>) \<rparr> \<rparr>"

lemma move_drivers_seat:
  assumes "0 \<le> base" and "base \<le> 1000"
  shows "Move set_position (drivers_seat base) s = apfst SetResult_2_grpcStatus (set_position (percent_of base) s)"
  using assms
  by (simp add: Move_def drivers_seat_def submessage_def percent_of_def Let_def apfst_def map_prod_def case_prod_unfold)

lemma SetResult_2_grpcStatus_SetResult_of:
  "error_code (SetResult_2_grpcStatus (SetResult_of rc)) = (if rc = SEAT_CTRL_OK then STATUS_OK else STATUS_INTERNAL)"
  by (simp add: SetResult_2_grpcStatus_code SetResult_of_def SEAT_CTRL_defs)

text \<open>C1: End to end. A gRPC \<open>Move\<close> of the driver's seat to a base position of 0..1000, once a position of the seat is known, puts on the
  CAN bus an off command and then, unless the seat is there already, one movement in the direction of the nearest
  percentage, at the configured speed. The reply is OK exactly if the controller succeeded, and no other
  motor is ever commanded.\<close>

theorem grpc_move_on_can:
  fixes os :: "'w os" and a :: "'w SeatAdjusterImpl"
  assumes "app_os K os" and "adjuster_ok a" and "socket (ctx (adj_ctx a)) \<noteq> SOCKET_INVALID"
    and "motor1_pos (ctx (adj_ctx a)) \<noteq> MOTOR_POS_INVALID" and "0 \<le> base" and "base \<le> 1000"
    and "Move (SetSeatPosition K os) (drivers_seat base) a = (st, a')"
  shows "let pos = uint (motor1_pos (ctx (os_usleep os 100000 (snd (seatctrl_stop_movement K os (adj_ctx a))))));
      d = percent_of base; dir = (if pos < d then INC else DEC) in
    \<bar>10 * d - base\<bar> \<le> 5 \<and> adjuster_ok a' \<and>
    (error_code st = STATUS_OK \<longleftrightarrow> fst (seatctrl_set_position K os CTX d (adj_ctx a)) = SEAT_CTRL_OK) \<and>
    (\<exists>fs. off_frames fs \<and> tx (adj_ctx a') = tx (adj_ctx a) @ secu1_cmd OFF 0 # fs @
       (if pos = d then [] else [secu1_cmd dir (to_u8 (motor_rpm (config (ctx (adj_ctx a)))))]))"
proof -
  let ?d = "percent_of base"
  have d: "0 \<le> ?d" "?d \<le> 100" "\<bar>10 * ?d - base\<bar> \<le> 5"
    using percent_of_range [OF assms(5,6)] percent_of_near by simp_all
  obtain rc s' where r: "seatctrl_set_position K os CTX ?d (adj_ctx a) = (rc, s')" by fastforce
  have st: "st = SetResult_2_grpcStatus (SetResult_of rc)" "a' = a\<lparr>adj_ctx := s'\<rparr>"
    using assms(7) r by (auto simp: move_drivers_seat [OF assms(5,6)] SetSeatPosition_def)
  have ok: "adjuster_ok a'"
    using adjuster_interface.set_ok [OF app_os.adjuster_laws [OF assms(1)] assms(2), of ?d] r st(2)
    by (simp add: SetSeatPosition_def)
  have inv: "magic (ctx (adj_ctx a)) = SEAT_CTRL_CONTEXT_MAGIC" "ctx_inv (ctx (adj_ctx a))"
    using assms(2) by (simp_all add: adjuster_ok_def)
  from app_os.set_position_spec [OF assms(1) inv assms(3) d(1,2) r] assms(4)
  show ?thesis
    using d(3) ok st r by (auto simp: Let_def SetResult_2_grpcStatus_SetResult_of STATUS_defs split: if_splits)
qed

theorem grpc_move_on_can_witness:
  "\<exists>st a' fs. Move (SetSeatPosition dbc_codec sim) (drivers_seat 503)
     \<lparr> adj_ctx = demo_sys (demo_ctx 20), adj_can_if_name = ''can0'', adj_cb = None, adj_self = 1 \<rparr> = (st, a') \<and>
     off_frames fs \<and> tx (adj_ctx a') = secu1_cmd OFF 0 # fs @ [secu1_cmd INC 80]"
proof -
  let ?a = "\<lparr> adj_ctx = demo_sys (demo_ctx 20), adj_can_if_name = ''can0'', adj_cb = None, adj_self = 1 \<rparr>"
  obtain st a' where r: "Move (SetSeatPosition dbc_codec sim) (drivers_seat 503) ?a = (st, a')" by fastforce
  have a: "adjuster_ok ?a"
    by (simp add: adjuster_ok_def demo_sys_def demo_ctx_inv motor_pos_valid_def) (simp add: demo_ctx_def)
  have q: "uint (motor1_pos (ctx (os_usleep sim 100000
      (snd (seatctrl_stop_movement dbc_codec sim (demo_sys (demo_ctx 20))))))) = 20"
    by code_simp
  have p: "percent_of 503 = 50" by (simp add: percent_of_def)
  from grpc_move_on_can [OF sim_quiet a _ _ _ _ r] show ?thesis
    using r q by (auto simp: Let_def p demo_defs SOCKET_INVALID_def MOTOR_POS_INVALID_def to_u8_def)
qed

text \<open>C4: The round trip of a request. In front of the simulated ECU a gRPC \<open>Move\<close> of the driver's seat to a base position of 0..1000 is
  answered with OK; within 1144 passes of the CTL thread the seat stands still at the nearest percentage and the event callback has
  reported this percentage last; and \<open>CurrentPosition\<close> then replies with a base position within half a percent of the request.\<close>

theorem grpc_move_then_current_position:
  assumes "hooked_os K hook" and "operational (adj_ctx a)" and "located p (adj_ctx a)" and "up_to_date (adj_ctx a)"
    and "0 \<le> base" and "base \<le> 1000" and "Move (SetSeatPosition K (sim_os hook)) (drivers_seat base) a = (st, a')"
  shows "error_code st = STATUS_OK \<and> (\<exists>n t. n \<le> 1144 \<and> runs_to K (sim_os hook) n (adj_ctx a') t \<and>
    seat_percent (sae (world t)) = percent_of base \<and> seat_status (sae (world t)) = 0 \<and>
    last_report (cbs t) = Some (percent_of base) \<and>
    (\<exists>seat pos. CurrentPosition GetSeatPosition \<lparr> cur_row = 1, cur_index = 1 \<rparr> (a'\<lparr>adj_ctx := t\<rparr>) = (grpc_OK, Some seat) \<and>
       seat_position seat = Some pos \<and> \<bar>pos_base pos - base\<bar> \<le> 5))"
proof -
  let ?d = "percent_of base"
  have d: "0 \<le> ?d" "?d \<le> 100" using percent_of_range [OF assms(5,6)] by simp_all
  obtain s1 n t where s1: "seatctrl_set_position K (sim_os hook) CTX ?d (adj_ctx a) = (SEAT_CTRL_OK, s1)"
      and t: "n \<le> 1144" "runs_to K (sim_os hook) n s1 t" "arrived ?d t" "last_report (cbs t) = Some ?d"
    by (rule hooked_os.set_position_reported [OF assms(1-4) d])
  have st: "error_code st = STATUS_OK" "adj_ctx a' = s1"
    using assms(7) s1 SetResult_2_grpcStatus_SetResult_of [of SEAT_CTRL_OK]
    by (auto simp: move_drivers_seat [OF assms(5,6)] SetSeatPosition_def)
  have "GetSeatPosition (a'\<lparr>adj_ctx := t\<rparr>) = ?d"
    using t(3) d
    by (auto simp: arrived_def located_def operational_def threadFunc_guard_def GetSeatPosition_def seatctrl_get_position_def Let_def)
  from current_position_roundtrip [where get_position = GetSeatPosition, OF assms(5,6) this] show ?thesis
    using st t unfolding arrived_def located_def by blast
qed

theorem grpc_move_then_current_position_witness:
  "\<exists>st a'. Move (SetSeatPosition dbc_codec sim) (drivers_seat 903)
       \<lparr> adj_ctx = demo_parked\<lparr>cbs := [CbCall 7 Motor1Pos 50 0]\<rparr>, adj_can_if_name = ''can0'', adj_cb = None, adj_self = 1 \<rparr> = (st, a') \<and>
     error_code st = STATUS_OK \<and>
     (\<exists>n t. n \<le> 1144 \<and> runs_to dbc_codec sim n (adj_ctx a') t \<and> seat_percent (sae (world t)) = 90 \<and> last_report (cbs t) = Some 90)"
proof -
  let ?s = "demo_parked\<lparr>cbs := [CbCall 7 Motor1Pos 50 0]\<rparr>"
  let ?a = "\<lparr> adj_ctx = ?s, adj_can_if_name = ''can0'', adj_cb = None, adj_self = 1 \<rparr>"
  obtain st a' where r: "Move (SetSeatPosition dbc_codec sim) (drivers_seat 903) ?a = (st, a')" by fastforce
  have p: "percent_of 903 = 90" by (simp add: percent_of_def)
  have s: "operational (adj_ctx ?a)" "located 50 (adj_ctx ?a)"
    using demo_parked_ready by (simp_all add: operational_def located_def threadFunc_guard_def)
  have "up_to_date (adj_ctx ?a)" by (simp add: up_to_date_def last_report_def demo_parked_def demo_defs)
  from grpc_move_then_current_position [OF cansim.hooked_os_axioms s this _ _ r] show ?thesis
    using r by (auto simp: p)
qed



section \<open>From the CAN bus to the broker\<close>

text \<open>C15: Whatever frames arrive and however the threads interleave, every position the controller reports becomes, through the
  adjuster's callback and the data feeder, a datapoint that is ten times a percentage or \<open>NOT_AVAILABLE\<close>; the
  value for readings above 100 percent is never published, and the feeder stores it for its name while active.\<close>

theorem reported_positions_published:
  fixes c :: "'w conc" and a :: "'w SeatAdjusterImpl"
  assumes "secu_codec K" and "reachable K cfg c" and "CbCall g Motor1Pos v u \<in> set (cbs (sh c))"
    and "u \<noteq> 0" and "adj_cb a = Some cb" and "feeder_active f"
  shows "\<exists>p dp. seatctrl_event_cb env a Motor1Pos v u = Done (CallCb cb p) \<and>
    map_of (stored_values (SeatDataFeeder_cb name p f)) name = Some dp \<and>
    (dp = failure_value NOT_AVAILABLE \<or> (\<exists>w. dp = uint32_value w \<and> uint w = 10 * v \<and> uint w \<le> 1000))"
proof -
  have "safe cfg c" using secu_codec.reachable_safe [OF assms(1,2)] .
  then have "cb_ok (CbCall g Motor1Pos v u)"
    using assms(3) by (auto simp: safe_def sys_safe_def list_all_iff simp del: cb_ok.simps)
  then have v: "0 \<le> v" "v \<le> 100 \<or> v = 255" by simp_all
  let ?p = "if v = 255 then -1 else v"
  have e: "seatctrl_event_cb env a Motor1Pos v u = Done (CallCb cb ?p)"
    using assms(4,5) by (simp add: seatctrl_event_cb_def)
  have s: "map_of (stored_values (SeatDataFeeder_cb name ?p f)) name = Some (position_datapoint ?p)"
    using assms(6) by (simp add: SeatDataFeeder_cb_def FeedValue_def)
  have "position_datapoint ?p = failure_value NOT_AVAILABLE \<or>
      (\<exists>w. position_datapoint ?p = uint32_value w \<and> uint w = 10 * v \<and> uint w \<le> 1000)"
    using v position_datapoint_in_range [of v] by (auto simp: position_datapoint_def)
  with e s show ?thesis by blast
qed

text \<open>A first status frame after the start, step by step.\<close>

definition boot0 :: "unit sys" where
  "boot0 = snd (seatctrl_init_ctx CTX (Some demo_config)
     \<lparr> ctx = demo_ctx 0, last_ctl_pos = -1, last_ctl_dir = -1, learned_mode = False, learned_mode_changed = 0,
       tx = [], cbs = [], world = () \<rparr>)"

definition boot1 :: "unit sys" where "boot1 = snd (seatctrl_set_event_callback CTX (Some 1) 5 boot0)"
definition boot2 :: "unit sys" where "boot2 = snd (seatctrl_open ok_os CTX boot1)"
definition boot3 :: "unit sys" where "boot3 = threadFunc_start boot2"
definition boot_frame :: can_frame where
  "boot_frame = \<lparr> can_id = 0x712, can_dlc = 8, fdata = [0, 0, 42, 0, 0, 0, 0, 0] \<rparr>"
definition boot4 :: "pc \<times> unit sys" where "boot4 = ctl_received dbc_codec ok_os 16 0 boot_frame boot3"

lemma boot_evaluated:
  "tx boot0 = []" "cbs boot0 = []"
  "fst (seatctrl_set_event_callback CTX (Some 1) 5 boot0) = SEAT_CTRL_OK"
  "fst (seatctrl_open ok_os CTX boot1) = SEAT_CTRL_OK" "thread_id (ctx boot2) = 1"
  "threadFunc_guard boot3" "cbs (snd boot4) = [CbCall 1 Motor1Pos 42 5]"
  by code_simp+

lemma boot_reachable: "reachable dbc_codec demo_config (two_threads (snd boot4) (AppReady SEAT_CTRL_OK) (fst boot4))"
proof -
  let ?ok = "AppReady SEAT_CTRL_OK"
  have "initial demo_config (two_threads boot0 ?ok Unused)"
  proof -
    have "seatctrl_init_ctx CTX (Some demo_config) boot0 = (SEAT_CTRL_OK, boot0)"
      by (simp add: boot0_def seatctrl_init_ctx_def demo_config_def)
    then show ?thesis using boot_evaluated(1,2) by (auto simp: initial_def two_threads_def)
  qed
  moreover have "step dbc_codec 0 (two_threads boot0 ?ok Unused) (two_threads boot1 ?ok Unused)"
    using step.set_callback [of "two_threads boot0 ?ok Unused" 0 SEAT_CTRL_OK CTX "Some 1" 5 SEAT_CTRL_OK boot1]
      boot_evaluated(3) by (simp add: boot1_def prod_eq_iff)
  moreover have "step dbc_codec 0 (two_threads boot1 ?ok Unused) (two_threads boot2 ?ok CtlCreated)"
    using step.opened [of "two_threads boot1 ?ok Unused" 0 SEAT_CTRL_OK ok_os CTX boot2 1] boot_evaluated(4,5)
    by (simp add: boot2_def prod_eq_iff)
  moreover have "step dbc_codec 1 (two_threads boot2 ?ok CtlCreated) (two_threads boot3 ?ok CtlTop)"
    using step.ctl_start [of "two_threads boot2 ?ok CtlCreated" 1] by (simp add: boot3_def)
  moreover have "step dbc_codec 1 (two_threads boot3 ?ok CtlTop) (two_threads boot3 ?ok CtlReading)"
    using step.ctl_top [of "two_threads boot3 ?ok CtlTop" 1] boot_evaluated(6) by simp
  moreover have "step dbc_codec 1 (two_threads boot3 ?ok CtlReading) (two_threads (snd boot4) ?ok (fst boot4))"
    using step.ctl_read [of "two_threads boot3 ?ok CtlReading" 1 boot_frame dbc_codec ok_os 16 0]
    by (simp add: boot4_def) (simp add: boot_frame_def)
  ultimately show ?thesis
    unfolding reachable_def by (meson path_step rtranclp.rtrancl_refl)
qed

theorem reported_positions_published_witness:
  "\<exists>p dp. seatctrl_event_cb (\<lambda>_. None) \<lparr> adj_ctx = boot0, adj_can_if_name = ''can0'', adj_cb = Some 9, adj_self = 5 \<rparr>
       Motor1Pos 42 5 = Done (CallCb 9 p) \<and>
     map_of (stored_values (SeatDataFeeder_cb ''Seat'' p (DataBrokerFeederImpl_new demo_client [demo_dp]))) ''Seat'' = Some dp \<and>
     (dp = failure_value NOT_AVAILABLE \<or> (\<exists>w. dp = uint32_value w \<and> uint w = 420))"
proof -
  have "CbCall 1 Motor1Pos 42 5 \<in> set (cbs (sh (two_threads (snd boot4) (AppReady SEAT_CTRL_OK) (fst boot4))))"
    using boot_evaluated(7) by simp
  from reported_positions_published [OF dbc.secu_codec_axioms boot_reachable this,
      of "\<lparr> adj_ctx = boot0, adj_can_if_name = ''can0'', adj_cb = Some 9, adj_self = 5 \<rparr>" 9
      "DataBrokerFeederImpl_new demo_client [demo_dp]" "\<lambda>_. None" "''Seat''"]
  show ?thesis by (auto simp: DataBrokerFeederImpl_new_def)
qed

end
